(* ===== verification/Prelude.thy ===== *)
theory Prelude
  imports Main "HOL-Library.Word"
begin

text \<open>
  Shared vocabulary of the development: Go's machine types, errors and panics as
  values, the two small monads in which the Go functions are written (a result
  for pure fallible code, an effect for code that also changes a state), and the
  generic facts about lists and machine words the components use.
\<close>

section \<open>Machine types\<close>

type_synonym u64 = "64 word"
type_synonym u32 = "32 word"
type_synonym byte = "8 word"
type_synonym bytes = "byte list"

text \<open>The conversion \<^verbatim>\<open>[]byte(s)\<close>: a Go string is its bytes.\<close>

definition bytes_of :: "string \<Rightarrow> bytes" where
  "bytes_of s = map of_char s"

section \<open>Errors and results\<close>

text \<open>
  \<^item> \<^verbatim>\<open>Errorf f es\<close> is \<^verbatim>\<open>fmt.Errorf(f, ...)\<close> (or the \<^verbatim>\<open>xerrors\<close> one): the format
    string and those of its arguments that are errors;
  \<^item> \<^verbatim>\<open>ErrorCode c f es\<close> is a \<^verbatim>\<open>consensus.ErrorCode\<close> with code \<^verbatim>\<open>c\<close> whose memo is
    \<^verbatim>\<open>fmt.Sprintf(f, ...)\<close>;
  \<^item> \<^verbatim>\<open>Sentinel n\<close> is a package-level error value compared by identity;
  \<^item> \<^verbatim>\<open>LibErr n\<close> is an error a library call hands back.
\<close>

datatype goerr =
    Errorf string "goerr list"
  | ErrorCode int string "goerr list"
  | Sentinel string
  | LibErr string

text \<open>A Go call returns a result, returns an error, or panics.\<close>

datatype 'a res = Ok 'a | Fail goerr | Panic string

primrec rbind :: "'a res \<Rightarrow> ('a \<Rightarrow> 'b res) \<Rightarrow> 'b res" where
  "rbind (Ok x) f = f x"
| "rbind (Fail e) f = Fail e"
| "rbind (Panic p) f = Panic p"

text \<open>\<^verbatim>\<open>if err != nil { return ..., fmt.Errorf(f, err) }\<close>\<close>

primrec wrapf :: "string \<Rightarrow> 'a res \<Rightarrow> 'a res" where
  "wrapf f (Ok x) = Ok x"
| "wrapf f (Fail e) = Fail (Errorf f [e])"
| "wrapf f (Panic p) = Panic p"

text \<open>\<^verbatim>\<open>if err != nil { return ..., &ErrorCode{Code: c, Memo: fmt.Sprintf(f, err)} }\<close>\<close>

primrec wrapc :: "int \<Rightarrow> string \<Rightarrow> 'a res \<Rightarrow> 'a res" where
  "wrapc c f (Ok x) = Ok x"
| "wrapc c f (Fail e) = Fail (ErrorCode c f [e])"
| "wrapc c f (Panic p) = Panic p"

primrec is_ok :: "'a res \<Rightarrow> bool" where
  "is_ok (Ok x) = True"
| "is_ok (Fail e) = False"
| "is_ok (Panic p) = False"

named_theorems go_ok \<open>inversion of the Go combinators on a successful outcome\<close>

lemma rbind_Ok_iff [go_ok]: "rbind m f = Ok y \<longleftrightarrow> (\<exists>x. m = Ok x \<and> f x = Ok y)"
  by (cases m) auto

lemma wrapf_Ok_iff [simp, go_ok]: "wrapf f m = Ok x \<longleftrightarrow> m = Ok x"
  by (cases m) auto

lemma wrapc_Ok_iff [simp, go_ok]: "wrapc c f m = Ok x \<longleftrightarrow> m = Ok x"
  by (cases m) auto

lemma guard_Ok_True_iff: "(if c then Ok False else m) = Ok True \<longleftrightarrow> \<not> c \<and> m = Ok True"
  by simp

lemma is_ok_iff: "is_ok m \<longleftrightarrow> (\<exists>x. m = Ok x)"
  by (cases m) auto

lemma rbind_cong [fundef_cong]:
  "m = m' \<Longrightarrow> (\<And>x. m' = Ok x \<Longrightarrow> f x = g x) \<Longrightarrow> rbind m f = rbind m' g"
  by (cases m') auto

section \<open>Effects: a state that survives errors\<close>

text \<open>
  Go code that changes a state and may fail leaves behind the state it had
  reached when it failed, so the state is returned on every outcome.
\<close>

type_synonym ('s, 'a) eff = "'s \<Rightarrow> 'a res \<times> 's"

definition eret :: "'a \<Rightarrow> ('s, 'a) eff" where
  "eret x = (\<lambda>s. (Ok x, s))"

definition elift :: "'a res \<Rightarrow> ('s, 'a) eff" where
  "elift r = (\<lambda>s. (r, s))"

definition eread :: "('s \<Rightarrow> 'a res) \<Rightarrow> ('s, 'a) eff" where
  "eread f = (\<lambda>s. (f s, s))"

definition ebind :: "('s, 'a) eff \<Rightarrow> ('a \<Rightarrow> ('s, 'b) eff) \<Rightarrow> ('s, 'b) eff" where
  "ebind m f = (\<lambda>s. case m s of
     (Ok x, s') \<Rightarrow> f x s'
   | (Fail e, s') \<Rightarrow> (Fail e, s')
   | (Panic p, s') \<Rightarrow> (Panic p, s'))"

definition ewrapf :: "string \<Rightarrow> ('s, 'a) eff \<Rightarrow> ('s, 'a) eff" where
  "ewrapf f m = (\<lambda>s. case m s of (r, s') \<Rightarrow> (wrapf f r, s'))"

definition ewrapc :: "int \<Rightarrow> string \<Rightarrow> ('s, 'a) eff \<Rightarrow> ('s, 'a) eff" where
  "ewrapc c f m = (\<lambda>s. case m s of (r, s') \<Rightarrow> (wrapc c f r, s'))"

lemmas eff_defs = eret_def elift_def eread_def ebind_def ewrapf_def ewrapc_def

lemma eret_Ok_iff [go_ok]: "eret x s = (Ok y, s') \<longleftrightarrow> y = x \<and> s' = s"
  by (auto simp: eret_def)

lemma elift_Ok_iff [go_ok]: "elift r s = (Ok y, s') \<longleftrightarrow> r = Ok y \<and> s' = s"
  by (auto simp: elift_def)

lemma eread_Ok_iff [go_ok]: "eread f s = (Ok y, s') \<longleftrightarrow> f s = Ok y \<and> s' = s"
  by (auto simp: eread_def)

lemma ebind_Ok_iff [go_ok]:
  "ebind m f s = (Ok y, s') \<longleftrightarrow> (\<exists>x t. m s = (Ok x, t) \<and> f x t = (Ok y, s'))"
  by (auto simp: ebind_def split: prod.splits res.splits)

lemma ewrapf_Ok_iff [go_ok]: "ewrapf f m s = (Ok y, s') \<longleftrightarrow> m s = (Ok y, s')"
  by (auto simp: ewrapf_def split: prod.splits)

lemma ewrapc_Ok_iff [go_ok]: "ewrapc c f m s = (Ok y, s') \<longleftrightarrow> m s = (Ok y, s')"
  by (auto simp: ewrapc_def split: prod.splits)

text \<open>
  \<^verbatim>\<open>keeps R m\<close>: running \<^verbatim>\<open>m\<close> moves the state along the relation \<^verbatim>\<open>R\<close>, whatever the
  outcome. The rules below carry frame properties through whole Go functions.
\<close>

definition keeps :: "('s \<Rightarrow> 's \<Rightarrow> bool) \<Rightarrow> ('s, 'a) eff \<Rightarrow> bool" where
  "keeps R m \<longleftrightarrow> (\<forall>s. R s (snd (m s)))"

named_theorems keeps_intros \<open>frame rules for effects\<close>

lemma keeps_eret [keeps_intros]: "reflp R \<Longrightarrow> keeps R (eret x)"
  by (simp add: keeps_def eret_def reflpD)

lemma keeps_elift [keeps_intros]: "reflp R \<Longrightarrow> keeps R (elift r)"
  by (simp add: keeps_def elift_def reflpD)

lemma keeps_eread [keeps_intros]: "reflp R \<Longrightarrow> keeps R (eread f)"
  by (simp add: keeps_def eread_def reflpD)

lemma keeps_ewrapf [keeps_intros]: "keeps R m \<Longrightarrow> keeps R (ewrapf f m)"
  by (simp add: keeps_def ewrapf_def case_prod_beta)

lemma keeps_ewrapc [keeps_intros]: "keeps R m \<Longrightarrow> keeps R (ewrapc c f m)"
  by (simp add: keeps_def ewrapc_def case_prod_beta)

lemma keeps_ebind [keeps_intros]:
  assumes "transp R" "keeps R m" "\<And>x. keeps R (f x)"
  shows "keeps R (ebind m f)"
  unfolding keeps_def
proof
  fix s
  obtain r t where m: "m s = (r, t)" by fastforce
  have "R s t" using assms(2) m by (metis keeps_def snd_conv)
  moreover have "\<And>x. R t (snd (f x t))" using assms(3) by (simp add: keeps_def)
  ultimately show "R s (snd (ebind m f s))"
    using m assms(1) by (auto simp: ebind_def split: res.splits dest: transpD)
qed

lemma keeps_if [keeps_intros]: "keeps R a \<Longrightarrow> keeps R b \<Longrightarrow> keeps R (if c then a else b)"
  by simp

lemma keepsD: "keeps R m \<Longrightarrow> m s = (r, s') \<Longrightarrow> R s s'"
  by (metis keeps_def snd_conv)

section \<open>Sums of machine words\<close>

text \<open>Go's \<^verbatim>\<open>sum = sum + x\<close> on \<^verbatim>\<open>uint64\<close> wraps; \<^verbatim>\<open>utotal\<close> is the sum in the integers.\<close>

definition utotal :: "u64 list \<Rightarrow> nat" where
  "utotal xs = sum_list (map unat xs)"

lemma utotal_simps [simp]:
  "utotal [] = 0" "utotal (x # xs) = unat x + utotal xs" "utotal (xs @ ys) = utotal xs + utotal ys"
  by (simp_all add: utotal_def)

lemma sum_list_of_nat_utotal: "sum_list xs = word_of_nat (utotal xs)"
  by (induction xs) simp_all

lemma unat_sum_list: "unat (sum_list xs) = utotal xs mod 2 ^ 64"
  by (simp add: sum_list_of_nat_utotal unat_of_nat)

lemma unat_sum_list_small: "utotal xs < 2 ^ 64 \<Longrightarrow> unat (sum_list xs) = utotal xs"
  by (simp add: unat_sum_list)

lemma unat_u32_bound: "unat (x :: u32) < 2 ^ 32"
  by (rule order_less_le_trans [OF unsigned_less]) simp

lemma unat_u64_bound: "unat (x :: u64) < 2 ^ 64"
  by (rule order_less_le_trans [OF unsigned_less]) simp

lemma unat_add_small:
  fixes a b :: u64
  shows "unat a + unat b < 2 ^ 64 \<Longrightarrow> unat (a + b) = unat a + unat b"
  by (simp add: unat_word_ariths)

lemma unat_sub_le:
  fixes a b :: u64
  shows "b \<le> a \<Longrightarrow> unat (a - b) = unat a - unat b"
  by (simp add: unat_sub)

section \<open>Lists\<close>

lemma length_takeWhile_mem: "x \<in> set xs \<Longrightarrow> length (takeWhile (\<lambda>y. y \<noteq> x) xs) < length xs"
  by (induction xs) auto

lemma butlast_snoc_last: "xs \<noteq> [] \<Longrightarrow> xs = butlast xs @ [last xs]"
  by simp

lemma list_all2_ex_left: "list_all2 P xs ys \<Longrightarrow> y \<in> set ys \<Longrightarrow> \<exists>x \<in> set xs. P x y"
  by (induction rule: list_all2_induct) auto

lemma list_all2_ex_right: "list_all2 P xs ys \<Longrightarrow> x \<in> set xs \<Longrightarrow> \<exists>y \<in> set ys. P x y"
  by (induction rule: list_all2_induct) auto

lemma append_eq_same_length:
  "length b = length d \<Longrightarrow> a @ b = c @ d \<longleftrightarrow> a = c \<and> b = d"
  by auto

end
