(* ===== verification/Messages.thy ===== *)
theory Messages
  imports Prelude
begin

text \<open>
  The message types the sources exchange: CIDs and IPLD nodes, the protobuf
  messages of the \<^verbatim>\<open>quorumcontrol/messages\<close> packages (transactions and their payloads,
  signatures, rounds, checkpoints, add-block requests, proofs), as records with the
  fields the sources read or write. They carry no behaviour of their own.
\<close>

section \<open>CIDs and nodes\<close>

text \<open>
  \<^verbatim>\<open>cid.Cid\<close> wraps the binary form of the CID; \<^verbatim>\<open>cid.Undef\<close> is the empty one. A
  \<^verbatim>\<open>format.Node\<close> is used through \<^verbatim>\<open>Cid()\<close> and \<^verbatim>\<open>RawData()\<close> only.
\<close>

datatype cid = Cid (cid_Bytes: bytes)

definition cid_Undef :: cid where
  "cid_Undef = Cid []"

definition cid_Defined :: "cid \<Rightarrow> bool" where
  "cid_Defined c \<longleftrightarrow> cid_Bytes c \<noteq> []"

record node =
  node_Cid :: cid
  node_RawData :: bytes

section \<open>Signatures\<close>

datatype key_type = KeyTypeSecp256k1 | KeyTypeBLSGroupSig | KeyTypeOther int

record PublicKey =
  pk_Type :: key_type
  pk_PublicKey :: bytes

record Ownership =
  own_PublicKey :: PublicKey
  own_Conditions :: string

record Signature =
  sig_Ownership :: Ownership
  sig_Signers :: "u32 list"
  sig_Signature :: bytes
  sig_PreImage :: string

record TreeState =
  tst_ObjectId :: bytes
  tst_PreviousTip :: bytes
  tst_NewTip :: bytes
  tst_View :: u64
  tst_Cycle :: u64

section \<open>Rounds, checkpoints, requests, proofs\<close>

record AddBlockRequest =
  abr_ObjectId :: bytes
  abr_PreviousTip :: bytes
  abr_Height :: u64
  abr_NewTip :: bytes
  abr_Payload :: bytes
  abr_State :: "bytes list"

record RoundConfirmation =
  rc_Height :: u64
  rc_RoundCid :: bytes
  rc_Signature :: Signature

record Round =
  rnd_Height :: u64
  rnd_StateCid :: bytes
  rnd_CheckpointCid :: bytes

record Checkpoint =
  cp_AddBlockRequests :: "bytes list"

record Proof =
  prf_ObjectId :: bytes
  prf_Tip :: bytes
  prf_AddBlockRequest :: AddBlockRequest
  prf_Checkpoint :: Checkpoint
  prf_Round :: Round
  prf_RoundConfirmation :: RoundConfirmation

section \<open>Transactions\<close>

record TokenMonetaryPolicy =
  pol_Maximum :: u64

record SetDataPayload =
  sdp_Path :: string
  sdp_Value :: bytes

record SetOwnershipPayload =
  sop_Authentication :: "string list"

record EstablishTokenPayload =
  etp_Name :: string
  etp_MonetaryPolicy :: "TokenMonetaryPolicy option"

record MintTokenPayload =
  mtp_Name :: string
  mtp_Amount :: u64

record SendTokenPayload =
  stp_Id :: string
  stp_Name :: string
  stp_Amount :: u64
  stp_Destination :: string

record ReceiveTokenPayload =
  rtp_SendTokenTransactionId :: string
  rtp_Tip :: bytes
  rtp_Proof :: "Proof option"
  rtp_Leaves :: "bytes list"

text \<open>The stake payload is stored as it is, so its encoding stands for it.\<close>

datatype StakePayload = StakePayload bytes

datatype Transaction_Type =
    ESTABLISHTOKEN | MINTTOKEN | SENDTOKEN | RECEIVETOKEN
  | SETDATA | SETOWNERSHIP | STAKE | OTHERTXN int

record Transaction =
  txn_Type :: Transaction_Type
  txn_EstablishTokenPayload :: "EstablishTokenPayload option"
  txn_MintTokenPayload :: "MintTokenPayload option"
  txn_SendTokenPayload :: "SendTokenPayload option"
  txn_ReceiveTokenPayload :: "ReceiveTokenPayload option"
  txn_SetDataPayload :: "SetDataPayload option"
  txn_SetOwnershipPayload :: "SetOwnershipPayload option"
  txn_StakePayload :: "StakePayload option"

record TokenPayload =
  tpl_TransactionId :: string
  tpl_Tip :: string
  tpl_Proof :: "Proof option"
  tpl_Leaves :: "bytes list"

end
