(* ===== verification/Dag_Api.thy ===== *)
theory Dag_Api
  imports Messages "HOL-Library.Sublist"
begin

text \<open>
  What \<^verbatim>\<open>src/consensus\<close> puts into and reads out of a chaintree DAG, and the interface
  of the DAG itself. The token structs are those of \<^verbatim>\<open>src/consensus/tree_ledger.go\<close>.
  The DAG (\<^verbatim>\<open>chaintree/dag\<close>, \<^verbatim>\<open>go-ipld-cbor\<close>, \<^verbatim>\<open>go-cid\<close>) is a library: its operations
  are the fields of the record \<^verbatim>\<open>dag_lib\<close>, an argument of every definition that calls
  them, and what the sources rely on is the locale \<^verbatim>\<open>dag_laws\<close>: reads after writes,
  frames between independent paths, and stores that only grow.
\<close>

section \<open>The token structs\<close>

record TokenMint =
  tm_Amount :: u64

record TokenSend =
  ts_Id :: string
  ts_Amount :: u64
  ts_Destination :: string

record TokenReceive =
  tr_SendTokenTransactionId :: string
  tr_Amount :: u64

record Token =
  tok_MonetaryPolicy :: "cid option"
  tok_Mints :: "cid option"
  tok_Sends :: "cid option"
  tok_Receives :: "cid option"
  tok_Balance :: u64

text \<open>The zero value \<^verbatim>\<open>Token{}\<close>.\<close>

definition zero_Token :: Token where
  "zero_Token = \<lparr>tok_MonetaryPolicy = None, tok_Mints = None, tok_Sends = None,
     tok_Receives = None, tok_Balance = 0\<rparr>"

section \<open>Dynamic values\<close>

text \<open>
  The values of Go's \<^verbatim>\<open>interface{}\<close> that the sources hand to the DAG or get from it. A
  \<^verbatim>\<open>map[string]interface{}\<close> is the list of its entries in the order a \<^verbatim>\<open>range\<close> loop visits
  them; Go leaves that order open, so results that depend on it are stated for any list.
\<close>

datatype goval =
    GNil
  | GBool bool
  | GInt int
  | GUint64 u64
  | GFloat int int
  | GString string
  | GBytes bytes
  | GCid cid
  | GCids "cid list"
  | GStrings "string list"
  | GList "goval list"
  | GMap "(string \<times> goval) list"
  | GPolicy TokenMonetaryPolicy
  | GToken Token
  | GTokenMint TokenMint
  | GTokenSend TokenSend
  | GTokenReceive TokenReceive
  | GStake StakePayload

section \<open>The library operations\<close>

text \<open>
  A \<^verbatim>\<open>*dag.Dag\<close> is a tip and a store; trees derived from one another share the store, so
  the store is threaded and a tree is its tip. Reading does not change the store.
\<close>

type_synonym path = "string list"

record 's dag_lib =
  dag_Resolve :: "cid \<Rightarrow> path \<Rightarrow> 's \<Rightarrow> (goval \<times> path) res"
  dag_ResolveIntoToken :: "cid \<Rightarrow> path \<Rightarrow> 's \<Rightarrow> Token res"
  dag_ResolveIntoPolicy :: "cid \<Rightarrow> path \<Rightarrow> 's \<Rightarrow> TokenMonetaryPolicy res"
  dag_Get :: "cid \<Rightarrow> 's \<Rightarrow> node res"
  dag_NodesForPath :: "cid \<Rightarrow> path \<Rightarrow> 's \<Rightarrow> node list res"
  dag_SetAsLink :: "cid \<Rightarrow> path \<Rightarrow> goval \<Rightarrow> ('s, cid) eff"
  dag_Set :: "cid \<Rightarrow> path \<Rightarrow> goval \<Rightarrow> ('s, cid) eff"
  dag_CreateNode :: "goval \<Rightarrow> ('s, node) eff"
  dag_NewDagWithNodes :: "node list \<Rightarrow> (cid \<times> 's) res"
  cbor_DecodeInto :: "bytes \<Rightarrow> goval res"
  cbor_DecodeIntoReceive :: "bytes \<Rightarrow> TokenReceive res"
  cbor_DecodeIntoSend :: "bytes \<Rightarrow> TokenSend res"
  sw_Decode :: "bytes \<Rightarrow> node res"
  cid_Cast :: "bytes \<Rightarrow> cid res"
  cid_String :: "cid \<Rightarrow> string"

text \<open>A store only grows: what could be read before a write can be read after it.\<close>

definition store_ext :: "'s dag_lib \<Rightarrow> 's \<Rightarrow> 's \<Rightarrow> bool" where
  "store_ext D s s' \<longleftrightarrow>
     (\<forall>c n. dag_Get D c s = Ok n \<longrightarrow> dag_Get D c s' = Ok n) \<and>
     (\<forall>t q x. dag_Resolve D t q s = Ok x \<longrightarrow> dag_Resolve D t q s' = Ok x) \<and>
     (\<forall>t q x. dag_ResolveIntoToken D t q s = Ok x \<longrightarrow> dag_ResolveIntoToken D t q s' = Ok x) \<and>
     (\<forall>t q x. dag_ResolveIntoPolicy D t q s = Ok x \<longrightarrow> dag_ResolveIntoPolicy D t q s' = Ok x)"

text \<open>The value a path resolves to, whatever part of the path remains.\<close>

definition resolves :: "'s dag_lib \<Rightarrow> cid \<Rightarrow> path \<Rightarrow> 's \<Rightarrow> goval \<Rightarrow> bool" where
  "resolves D t q s v \<longleftrightarrow> (\<exists>r. dag_Resolve D t q s = Ok (v, r))"

text \<open>Neither path leads to the other.\<close>

definition independent :: "path \<Rightarrow> path \<Rightarrow> bool" where
  "independent p q \<longleftrightarrow> \<not> prefix p q \<and> \<not> prefix q p"

definition dag_writer :: "'s dag_lib \<Rightarrow> (cid \<Rightarrow> path \<Rightarrow> goval \<Rightarrow> ('s, cid) eff) \<Rightarrow> bool" where
  "dag_writer D w \<longleftrightarrow> w = dag_Set D \<or> w = dag_SetAsLink D"

section \<open>The laws the sources rely on\<close>

text \<open>
  The last laws about trees speak of paths that lead nowhere: what is below one leads
  nowhere either, and decoding one into a \<^verbatim>\<open>Token\<close> either fails or, everywhere alike,
  leaves the balance zero.
\<close>

locale dag_laws =
  fixes D :: "'s dag_lib"
  assumes write_ext: "dag_writer D w \<Longrightarrow> w t p v s = (r, s') \<Longrightarrow> store_ext D s s'"
    and create_ext: "dag_CreateNode D v s = (r', s') \<Longrightarrow> store_ext D s s'"
    and write_ancestor: "dag_writer D w \<Longrightarrow> w t (q @ p) v s = (Ok t', s') \<Longrightarrow> v \<noteq> GNil \<Longrightarrow>
      \<exists>x. resolves D t' q s' x \<and> x \<noteq> GNil"
    and frame_resolve: "dag_writer D w \<Longrightarrow> w t p v s = (Ok t', s') \<Longrightarrow> independent p q \<Longrightarrow>
      resolves D t q s x \<Longrightarrow> resolves D t' q s' x"
    and frame_token: "dag_writer D w \<Longrightarrow> w t p v s = (Ok t', s') \<Longrightarrow> independent p q \<Longrightarrow>
      dag_ResolveIntoToken D t q s = Ok tok \<Longrightarrow> dag_ResolveIntoToken D t' q s' = Ok tok"
    and frame_policy: "dag_writer D w \<Longrightarrow> w t p v s = (Ok t', s') \<Longrightarrow> independent p q \<Longrightarrow>
      dag_ResolveIntoPolicy D t q s = Ok pol \<Longrightarrow> dag_ResolveIntoPolicy D t' q s' = Ok pol"
    and link_cids: "dag_SetAsLink D t p (GCids cs) s = (Ok t', s') \<Longrightarrow>
      resolves D t' p s' (GList (map GCid cs))"
    and link_policy: "dag_SetAsLink D t p (GPolicy pol) s = (Ok t', s') \<Longrightarrow>
      dag_ResolveIntoPolicy D t' p s' = Ok pol"
    and link_token: "dag_SetAsLink D t p (GToken zero_Token) s = (Ok t', s') \<Longrightarrow>
      dag_ResolveIntoToken D t' p s' = Ok zero_Token"
    and link_token_fields: "dag_SetAsLink D t p (GToken zero_Token) s = (Ok t', s') \<Longrightarrow>
      lbl \<in> {''mints'', ''sends'', ''receives''} \<Longrightarrow> resolves D t' (p @ [lbl]) s' GNil"
    and set_balance: "dag_Set D t (p @ [''balance'']) (GUint64 b) s = (Ok t', s') \<Longrightarrow>
      dag_ResolveIntoToken D t p s = Ok tok \<Longrightarrow>
      \<exists>tok'. dag_ResolveIntoToken D t' p s' = Ok tok' \<and> tok_Balance tok' = b"
    and link_keeps_balance: "dag_SetAsLink D t (p @ [lbl]) v s = (Ok t', s') \<Longrightarrow>
      lbl \<in> {''monetaryPolicy'', ''mints'', ''sends'', ''receives''} \<Longrightarrow>
      dag_ResolveIntoToken D t p s = Ok tok \<Longrightarrow>
      \<exists>tok'. dag_ResolveIntoToken D t' p s' = Ok tok' \<and> tok_Balance tok' = tok_Balance tok"
    and missing_below: "resolves D t q s GNil \<Longrightarrow> resolves D t (q @ p) s GNil"
    and missing_token: "resolves D t q s GNil \<Longrightarrow> dag_ResolveIntoToken D t q s = Ok tok \<Longrightarrow>
      tok_Balance tok = 0 \<and>
      (resolves D t' q' s' GNil \<longrightarrow> dag_ResolveIntoToken D t' q' s' = Ok tok)"
    and create_get: "dag_CreateNode D v s = (Ok n, s') \<Longrightarrow> dag_Get D (node_Cid n) s' = Ok n"
    and decode_mint: "dag_CreateNode D (GTokenMint m) s = (Ok n, s') \<Longrightarrow>
      cbor_DecodeIntoReceive D (node_RawData n) =
        Ok \<lparr>tr_SendTokenTransactionId = [], tr_Amount = tm_Amount m\<rparr>"
    and decode_receive: "dag_CreateNode D (GTokenReceive rcv) s = (Ok n, s') \<Longrightarrow>
      cbor_DecodeIntoReceive D (node_RawData n) = Ok rcv"
    and decode_send: "dag_CreateNode D (GTokenSend snt) s = (Ok n, s') \<Longrightarrow>
      cbor_DecodeIntoSend D (node_RawData n) = Ok snt"

text \<open>The library of a store that never fails to write.\<close>

locale dag_total = dag_laws +
  assumes write_total: "dag_writer D w \<Longrightarrow> \<exists>t' s'. w t p v s = (Ok t', s')"
    and create_total: "\<exists>n s'. dag_CreateNode D v s = (Ok n, s')"

text \<open>The laws do not speak of \<^verbatim>\<open>NewDagWithNodes\<close>, so they survive its replacement.\<close>

lemma dag_total_NewDag:
  assumes "dag_total D"
  shows "dag_total (D\<lparr>dag_NewDagWithNodes := f\<rparr>)"
proof -
  let ?D = "D\<lparr>dag_NewDagWithNodes := f\<rparr>"
  have e: "dag_Resolve ?D = dag_Resolve D" "dag_ResolveIntoToken ?D = dag_ResolveIntoToken D"
    "dag_ResolveIntoPolicy ?D = dag_ResolveIntoPolicy D" "dag_Get ?D = dag_Get D"
    "dag_SetAsLink ?D = dag_SetAsLink D" "dag_Set ?D = dag_Set D" "dag_CreateNode ?D = dag_CreateNode D"
    "cbor_DecodeIntoReceive ?D = cbor_DecodeIntoReceive D" "cbor_DecodeIntoSend ?D = cbor_DecodeIntoSend D"
    by simp_all
  show ?thesis
    using assms
    unfolding dag_total_def dag_laws_def dag_total_axioms_def store_ext_def resolves_def dag_writer_def e .
qed

section \<open>Consequences used throughout\<close>

lemma dag_writer_simps [simp]: "dag_writer D (dag_Set D)" "dag_writer D (dag_SetAsLink D)"
  by (simp_all add: dag_writer_def)

lemma store_ext_refl [simp]: "store_ext D s s"
  by (simp add: store_ext_def)

lemma store_ext_trans: "store_ext D s s' \<Longrightarrow> store_ext D s' s'' \<Longrightarrow> store_ext D s s''"
  by (simp add: store_ext_def)

lemma store_ext_order: "reflp (store_ext D)" "transp (store_ext D)"
  by (auto intro: reflpI transpI store_ext_trans)

lemma store_extD:
  assumes "store_ext D s s'"
  shows "dag_Get D c s = Ok n \<Longrightarrow> dag_Get D c s' = Ok n"
    and "resolves D t q s v \<Longrightarrow> resolves D t q s' v"
    and "dag_ResolveIntoToken D t q s = Ok tok \<Longrightarrow> dag_ResolveIntoToken D t q s' = Ok tok"
    and "dag_ResolveIntoPolicy D t q s = Ok pol \<Longrightarrow> dag_ResolveIntoPolicy D t q s' = Ok pol"
  using assms by (auto simp: store_ext_def resolves_def)

lemma resolves_unique: "resolves D t q s v \<Longrightarrow> resolves D t q s w \<Longrightarrow> v = w"
  by (auto simp: resolves_def)

lemma independent_sym: "independent p q \<longleftrightarrow> independent q p"
  by (auto simp: independent_def)

lemma independent_siblings [simp]: "independent (p @ [a]) (p @ [b]) \<longleftrightarrow> a \<noteq> b"
  by (auto simp: independent_def)

lemma independent_extend: "independent p q \<Longrightarrow> independent (p @ x) (q @ y)"
  unfolding independent_def
  by (metis prefixI append_prefixD prefix_same_cases)

end
