(* ===== verification/Token_Names.thy ===== *)
theory Token_Names
  imports Go_Strings Dag_Api "HOL-Library.Multiset"
begin

text \<open>
  Paths and names of \<^verbatim>\<open>src/consensus/transactions.go\<close> and \<^verbatim>\<open>src/consensus/consensus.go\<close>:
  the fixed tree paths, \<^verbatim>\<open>DecodePath\<close>, token names and their canonical form, and the
  conversion between addresses and DIDs.
\<close>

section \<open>Fixed paths and labels\<close>

definition TreePathForAuthentications :: string where
  "TreePathForAuthentications = ''_tupelo/authentications''"

definition TreePathForTokens :: string where
  "TreePathForTokens = ''_tupelo/tokens''"

definition TreePathForStake :: string where
  "TreePathForStake = ''_tupelo/stake''"

definition TreePathForData :: string where
  "TreePathForData = ''data''"

definition TokenMintLabel :: string where
  "TokenMintLabel = ''mints''"

definition TokenSendLabel :: string where
  "TokenSendLabel = ''sends''"

definition TokenReceiveLabel :: string where
  "TokenReceiveLabel = ''receives''"

definition MonetaryPolicyLabel :: string where
  "MonetaryPolicyLabel = ''monetaryPolicy''"

definition TokenBalanceLabel :: string where
  "TokenBalanceLabel = ''balance''"

lemmas path_consts = TreePathForAuthentications_def TreePathForTokens_def TreePathForStake_def
  TreePathForData_def

lemmas label_consts = TokenMintLabel_def TokenSendLabel_def TokenReceiveLabel_def
  MonetaryPolicyLabel_def TokenBalanceLabel_def

section \<open>Paths\<close>

definition repeated_separator :: goerr where
  "repeated_separator = Errorf ''malformed path string containing repeated separator: %s'' []"

fun check_components :: "string list \<Rightarrow> unit res" where
  "check_components [] = Ok ()"
| "check_components (c # cs) = (if c = [] then Fail repeated_separator else check_components cs)"

definition DecodePath :: "string \<Rightarrow> string list res" where
  "DecodePath p =
     (let trimmed = TrimPrefix p ''/'' in
      if trimmed = [] then Ok []
      else (let split = Split trimmed CHR ''/'' in
            rbind (check_components split) (\<lambda>_. Ok split)))"

section \<open>Token names\<close>

record TokenName =
  tn_ChainTreeDID :: string
  tn_LocalName :: string

definition TokenName_String :: "TokenName \<Rightarrow> string" where
  "TokenName_String tn = Join [tn_ChainTreeDID tn, tn_LocalName tn] '':''"

definition IsCanonical :: "TokenName \<Rightarrow> bool" where
  "IsCanonical tn \<longleftrightarrow> tn_ChainTreeDID tn \<noteq> [] \<and> tn_LocalName tn \<noteq> []"

definition TokenNameFromString :: "string \<Rightarrow> TokenName" where
  "TokenNameFromString tokenName =
     (let components = Split tokenName CHR '':'';
          ctDIDComponents = take (length components - 1) components;
          localName = components ! (length components - 1);
          ctDID = Join ctDIDComponents '':''
      in \<lparr>tn_ChainTreeDID = ctDID, tn_LocalName = localName\<rparr>)"

text \<open>
  The loop of \<^verbatim>\<open>CanonicalTokenName\<close> over the keys of the tokens map: it remembers the one
  key with the wanted local name and fails on a second one.
\<close>

fun match_token :: "string \<Rightarrow> TokenName option \<Rightarrow> string list \<Rightarrow> TokenName option res" where
  "match_token tokenName matched [] = Ok matched"
| "match_token tokenName matched (token # tokens) =
     (let tn = TokenNameFromString token in
      if tn_LocalName tn = tokenName then
        (if matched \<noteq> None
         then Fail (Errorf ''ambiguous token names found for %s; please provide full name'' [])
         else match_token tokenName (Some tn) tokens)
      else match_token tokenName matched tokens)"

definition CanonicalTokenName ::
  "'s dag_lib \<Rightarrow> cid \<Rightarrow> string \<Rightarrow> string \<Rightarrow> bool \<Rightarrow> 's \<Rightarrow> TokenName res" where
  "CanonicalTokenName D tree defaultDID tokenName requireDefault s =
     (if HasPrefix tokenName ''did:tupelo:'' then
        (let tn = TokenNameFromString tokenName in
         if requireDefault \<and> tn_ChainTreeDID tn \<noteq> defaultDID
         then Fail (Errorf ''invalid chaintree DID in token name'' [])
         else Ok tn)
      else
        rbind (wrapf ''error decoding tokens path: %v'' (DecodePath TreePathForTokens)) (\<lambda>tokensPath.
        rbind (wrapf ''error resolving tokens path: %v'' (dag_Resolve D tree tokensPath s))
          (\<lambda>(tokensObj, remaining).
        if length remaining > 0
        then Ok \<lparr>tn_ChainTreeDID = defaultDID, tn_LocalName = tokenName\<rparr>
        else (case tokensObj of
          GMap tokens \<Rightarrow>
            rbind (match_token tokenName None (map fst tokens)) (\<lambda>matched.
              case matched of
                Some tn \<Rightarrow> Ok tn
              | None \<Rightarrow> Ok \<lparr>tn_ChainTreeDID = defaultDID, tn_LocalName = tokenName\<rparr>)
        | _ \<Rightarrow> Fail (Errorf ''tokens node was a %T; expected map[string]interface{}'' [])))))"

section \<open>Addresses and DIDs\<close>

definition AddrToDid :: "string \<Rightarrow> string" where
  "AddrToDid addr = ''did:tupelo:'' @ addr"

definition DidToAddr :: "string \<Rightarrow> string" where
  "DidToAddr did = (let segs = Split did CHR '':'' in segs ! (length segs - 1))"

section \<open>Facts about paths\<close>

lemma check_components_eq:
  "check_components cs = (if [] \<in> set cs then Fail repeated_separator else Ok ())"
  by (induction cs) auto

lemma check_components_Ok [simp]: "check_components cs = Ok u \<longleftrightarrow> [] \<notin> set cs"
  by (simp add: check_components_eq)

lemma DecodePath_tokens [simp]: "DecodePath TreePathForTokens = Ok [''_tupelo'', ''tokens'']"
  by (simp add: DecodePath_def path_consts TrimPrefix_def HasPrefix_def)

lemma DecodePath_auths [simp]:
  "DecodePath TreePathForAuthentications = Ok [''_tupelo'', ''authentications'']"
  by (simp add: DecodePath_def path_consts TrimPrefix_def HasPrefix_def)

lemma DecodePath_stake [simp]: "DecodePath TreePathForStake = Ok [''_tupelo'', ''stake'']"
  by (simp add: DecodePath_def path_consts TrimPrefix_def HasPrefix_def)

lemma DecodePath_data [simp]: "DecodePath TreePathForData = Ok [''data'']"
  by (simp add: DecodePath_def path_consts TrimPrefix_def HasPrefix_def)

lemma DecodePath_Ok_iff:
  "DecodePath p = Ok cs \<longleftrightarrow>
     (TrimPrefix p ''/'' = [] \<and> cs = []) \<or>
     (TrimPrefix p ''/'' \<noteq> [] \<and> cs = Split (TrimPrefix p ''/'') CHR ''/'' \<and> [] \<notin> set cs)"
  by (auto simp: DecodePath_def Let_def rbind_Ok_iff)

lemma TrimPrefix_slash_id: "hd s \<noteq> CHR ''/'' \<Longrightarrow> TrimPrefix s ''/'' = s"
  by (cases s) (auto simp: TrimPrefix_def HasPrefix_def)

lemma Join_hd: "c \<noteq> [] \<Longrightarrow> hd (Join (c # cs) sep) = hd c"
  by (cases cs) auto

lemma Join_Nil_iff: "c \<noteq> [] \<Longrightarrow> Join (c # cs) sep \<noteq> []"
  by (cases cs) auto

lemma TrimPrefix_slash_Cons [simp]: "TrimPrefix (CHR ''/'' # s) ''/'' = s"
  by (simp add: TrimPrefix_def HasPrefix_def)

lemma Join_slash_hd:
  assumes "\<forall>c \<in> set cs. c \<noteq> [] \<and> CHR ''/'' \<notin> set c"
  shows "hd (Join cs ''/'') \<noteq> CHR ''/'' \<or> Join cs ''/'' = []"
proof (cases cs)
  case (Cons c ds)
  with assms have "hd c \<in> set c" "CHR ''/'' \<notin> set c" by auto
  with Cons show ?thesis by (metis Join_hd list.set_sel(1) empty_iff empty_set)
qed simp

lemma DecodePath_Join:
  assumes a: "\<forall>c \<in> set cs. c \<noteq> [] \<and> CHR ''/'' \<notin> set c"
  shows "DecodePath (Join cs ''/'') = Ok cs" "DecodePath (''/'' @ Join cs ''/'') = Ok cs"
proof -
  let ?j = "Join cs ''/''"
  have t: "TrimPrefix ?j ''/'' = ?j"
    using Join_slash_hd [OF a] TrimPrefix_slash_id [of ?j]
    by (auto simp: TrimPrefix_def HasPrefix_def)
  have e: "?j = [] \<longleftrightarrow> cs = []"
    using a by (cases cs) (simp_all add: Join_Nil_iff)
  have "cs \<noteq> [] \<Longrightarrow> Split ?j CHR ''/'' = cs"
    using a by (intro Split_Join) auto
  then show "DecodePath ?j = Ok cs" "DecodePath (''/'' @ ?j) = Ok cs"
    using a by (auto simp: DecodePath_def Let_def t e check_components_eq)
qed

lemma DecodePath_Fail:
  "\<not> is_ok (DecodePath p) \<Longrightarrow> DecodePath p = Fail repeated_separator \<and>
     [] \<in> set (Split (TrimPrefix p ''/'') CHR ''/'')"
  by (auto simp: DecodePath_def Let_def check_components_eq split: if_splits)

text \<open>C9: \<^verbatim>\<open>DecodePath\<close> inverts joining. Components that are non-empty and free of slashes,
  joined with slashes, with or without a leading one, decode to themselves; every path it
  accepts is of that form; and a path it refuses has an empty component, reported as a
  repeated separator, never a panic.\<close>

theorem DecodePath_roundtrip:
  "((\<forall>c \<in> set cs. c \<noteq> [] \<and> CHR ''/'' \<notin> set c) \<longrightarrow>
      DecodePath (Join cs ''/'') = Ok cs \<and> DecodePath (''/'' @ Join cs ''/'') = Ok cs) \<and>
   (DecodePath p = Ok ds \<longrightarrow>
      Join ds ''/'' = TrimPrefix p ''/'' \<and> (\<forall>d \<in> set ds. d \<noteq> [] \<and> CHR ''/'' \<notin> set d)) \<and>
   (\<not> is_ok (DecodePath p) \<longrightarrow>
      DecodePath p = Fail repeated_separator \<and> [] \<in> set (Split (TrimPrefix p ''/'') CHR ''/''))"
  using DecodePath_Join [of cs] DecodePath_Fail [of p]
  by (auto simp: DecodePath_Ok_iff dest: Split_parts_sep_free)

theorem DecodePath_roundtrip_witness:
  "DecodePath ''/a/b'' = Ok [''a'', ''b''] \<and> Join [''a'', ''b''] ''/'' = ''a/b'' \<and>
   DecodePath ''a//b'' = Fail repeated_separator"
proof -
  have "\<not> is_ok (DecodePath ''a//b'')"
    by (simp add: DecodePath_def TrimPrefix_def HasPrefix_def repeated_separator_def)
  then have "DecodePath ''a//b'' = Fail repeated_separator"
    using DecodePath_roundtrip [of "[]" "''a//b''" "[]"] by blast
  moreover have "DecodePath ''/a/b'' = Ok [''a'', ''b'']"
    using DecodePath_roundtrip [of "[''a'', ''b'']" "''a//b''" "[]"] by simp
  ultimately show ?thesis by simp
qed

section \<open>Facts about token names\<close>

lemma TokenNameFromString_append:
  "CHR '':'' \<notin> set n \<Longrightarrow>
     TokenNameFromString (d @ '':'' @ n) = \<lparr>tn_ChainTreeDID = d, tn_LocalName = n\<rparr>"
  by (simp add: TokenNameFromString_def Split_append)

lemma TokenNameFromString_local_free: "CHR '':'' \<notin> set (tn_LocalName (TokenNameFromString s))"
proof -
  have "Split s CHR '':'' ! (length (Split s CHR '':'') - 1) \<in> set (Split s CHR '':'')"
    by (rule nth_mem) simp
  from Split_parts_sep_free [OF this] show ?thesis
    by (simp add: TokenNameFromString_def Let_def)
qed

lemma Split_length_sep: "CHR '':'' \<in> set s \<Longrightarrow> 2 \<le> length (Split s CHR '':'')"
  by (metis Split_append length_append Split_ne length_greater_0_conv Suc_leI add_mono
      numeral_2_eq_2 plus_1_eq_Suc One_nat_def split_list)

lemma TokenName_String_FromString:
  assumes "CHR '':'' \<in> set s"
  shows "TokenName_String (TokenNameFromString s) = s"
proof -
  let ?c = "Split s CHR '':''"
  have l: "2 \<le> length ?c" using assms by (rule Split_length_sep)
  then have ne: "take (length ?c - 1) ?c \<noteq> []" by (cases ?c) auto
  have "?c = take (length ?c - 1) ?c @ [?c ! (length ?c - 1)]"
    by (metis Split_ne butlast_conv_take append_butlast_last_id last_conv_nth)
  then have "Join ?c '':'' = Join (take (length ?c - 1) ?c) '':'' @ '':'' @ ?c ! (length ?c - 1)"
    using Join_snoc [OF ne] by metis
  then show ?thesis
    by (simp add: TokenName_String_def TokenNameFromString_def Let_def)
qed

text \<open>A token name whose local part has no colon survives printing and parsing, so
  printing is injective on such names; and a string with a colon survives parsing and
  printing. The DID part may hold colons (it always does).\<close>

theorem TokenName_roundtrip:
  "(CHR '':'' \<notin> set (tn_LocalName tn) \<longrightarrow> TokenNameFromString (TokenName_String tn) = tn) \<and>
   (CHR '':'' \<in> set s \<longrightarrow> TokenName_String (TokenNameFromString s) = s)"
  by (auto simp: TokenName_String_FromString)
    (simp add: TokenName_String_def TokenNameFromString_append [simplified])

theorem TokenName_roundtrip_witness:
  "TokenNameFromString ''did:tupelo:0xA:cash'' =
     \<lparr>tn_ChainTreeDID = ''did:tupelo:0xA'', tn_LocalName = ''cash''\<rparr> \<and>
   TokenName_String (TokenNameFromString ''a:b:c'') = ''a:b:c''"
  using TokenName_roundtrip [of "\<lparr>tn_ChainTreeDID = ''did:tupelo:0xA'', tn_LocalName = ''cash''\<rparr>"
      "''a:b:c''"]
  by (simp add: TokenName_String_def)

section \<open>Canonical names\<close>

definition has_local_name :: "string \<Rightarrow> string \<Rightarrow> bool" where
  "has_local_name n token \<longleftrightarrow> tn_LocalName (TokenNameFromString token) = n"

definition ambiguous_name :: goerr where
  "ambiguous_name = Errorf ''ambiguous token names found for %s; please provide full name'' []"

lemma match_token_Some:
  "match_token n (Some tn) ts =
     (if filter (has_local_name n) ts = [] then Ok (Some tn) else Fail ambiguous_name)"
  by (induction ts) (auto simp: has_local_name_def ambiguous_name_def Let_def)

lemma match_token_None:
  "match_token n None ts =
     (case filter (has_local_name n) ts of
        [] \<Rightarrow> Ok None
      | [t] \<Rightarrow> Ok (Some (TokenNameFromString t))
      | _ \<Rightarrow> Fail ambiguous_name)"
  by (induction ts)
    (auto simp: match_token_Some has_local_name_def [symmetric] Let_def split: list.splits)

lemma match_token_mset:
  assumes "mset ts = mset us"
  shows "match_token n None ts = match_token n None us"
proof -
  have m: "mset (filter (has_local_name n) ts) = mset (filter (has_local_name n) us)"
    using assms by simp
  show ?thesis
  proof (cases "filter (has_local_name n) ts")
    case Nil
    with m show ?thesis by (simp add: match_token_None)
  next
    case (Cons t rest)
    show ?thesis
    proof (cases rest)
      case Nil
      with Cons m have "mset (filter (has_local_name n) us) = {#t#}"
        by (simp only: mset.simps)
      then have "filter (has_local_name n) us = [t]" by (simp only: mset_single_iff)
      with Cons Nil show ?thesis by (simp add: match_token_None)
    next
      case (Cons t' rest')
      with \<open>filter (has_local_name n) ts = t # rest\<close> m
      have "2 \<le> length (filter (has_local_name n) us)"
        by (metis One_nat_def Suc_1 Suc_le_mono le0 length_Cons size_mset)
      then show ?thesis
        using Cons \<open>filter (has_local_name n) ts = t # rest\<close>
        by (auto simp: match_token_None split: list.splits)
    qed
  qed
qed

lemma CanonicalTokenName_bare:
  assumes "\<not> HasPrefix n ''did:tupelo:''"
    and "dag_Resolve D tree [''_tupelo'', ''tokens''] s = Ok (GMap kvs, [])"
  shows "CanonicalTokenName D tree did n req s =
     (case filter (has_local_name n) (map fst kvs) of
        [] \<Rightarrow> Ok \<lparr>tn_ChainTreeDID = did, tn_LocalName = n\<rparr>
      | [t] \<Rightarrow> Ok (TokenNameFromString t)
      | _ \<Rightarrow> Fail ambiguous_name)"
  using assms by (simp add: CanonicalTokenName_def match_token_None split: list.splits)

lemma CanonicalTokenName_perm:
  assumes "\<not> HasPrefix n ''did:tupelo:''"
    and "dag_Resolve D tree [''_tupelo'', ''tokens''] s = Ok (GMap kvs, [])"
    and "dag_Resolve D' tree' [''_tupelo'', ''tokens''] s' = Ok (GMap kvs', [])"
    and "mset kvs = mset kvs'"
  shows "CanonicalTokenName D tree did n req s = CanonicalTokenName D' tree' did n req s'"
proof -
  have "mset (map fst kvs) = mset (map fst kvs')"
    using assms(4) by simp
  from match_token_mset [OF this, of n] assms show ?thesis
    by (simp add: CanonicalTokenName_def)
qed

text \<open>A bare token name is looked up among the keys of the tokens map: no match gives the
  caller's own DID, one match gives that entry's name (whatever DID it has, and whether or
  not the caller asked for its own DID to be required), and several matches are refused as
  ambiguous. The answer depends on the entries only, not on the order in which Go's
  \<^verbatim>\<open>range\<close> visits the map.\<close>

theorem CanonicalTokenName_order:
  assumes "\<not> HasPrefix n ''did:tupelo:''"
    and "dag_Resolve D tree [''_tupelo'', ''tokens''] s = Ok (GMap kvs, [])"
  shows "CanonicalTokenName D tree did n req s =
     (case filter (has_local_name n) (map fst kvs) of
        [] \<Rightarrow> Ok \<lparr>tn_ChainTreeDID = did, tn_LocalName = n\<rparr>
      | [t] \<Rightarrow> Ok (TokenNameFromString t)
      | _ \<Rightarrow> Fail ambiguous_name) \<and>
   (\<forall>kvs'. mset kvs' = mset kvs \<longrightarrow>
      CanonicalTokenName (D\<lparr>dag_Resolve := \<lambda>_ _ _. Ok (GMap kvs', [])\<rparr>) tree did n req s =
      CanonicalTokenName D tree did n req s)"
proof (intro conjI allI impI)
  fix kvs' :: "(string \<times> goval) list" assume "mset kvs' = mset kvs"
  then show "CanonicalTokenName (D\<lparr>dag_Resolve := \<lambda>_ _ _. Ok (GMap kvs', [])\<rparr>) tree did n req s =
      CanonicalTokenName D tree did n req s"
    using assms by (intro CanonicalTokenName_perm [where kvs = kvs' and kvs' = kvs]) simp_all
qed (rule CanonicalTokenName_bare [OF assms])

end
