(* ===== verification/Tree_Ledger.thy ===== *)
theory Tree_Ledger
  imports Token_Names
begin

text \<open>
  \<^verbatim>\<open>src/consensus/tree_ledger.go\<close>: the token ledger kept inside a chaintree. A
  \<^verbatim>\<open>TreeLedger\<close> holds a token name and a tree; its methods read the token's node and its
  lists of mints, sends and receives, and replace the tree. The state of a method is the
  ledger together with the node store its tree lives in; it survives errors, as the Go
  object does.
\<close>

section \<open>State and small effects\<close>

record 's TreeLedger =
  l_tokenName :: TokenName
  l_tree :: cid
  l_store :: 's

definition NewTreeLedger :: "cid \<Rightarrow> TokenName \<Rightarrow> 's \<Rightarrow> 's TreeLedger" where
  "NewTreeLedger tree tokenName s =
     \<lparr>l_tokenName = tokenName, l_tree = tree, l_store = s\<rparr>"

definition on_store :: "('s, 'a) eff \<Rightarrow> ('s TreeLedger, 'a) eff" where
  "on_store m = (\<lambda>l. case m (l_store l) of (r, s') \<Rightarrow> (r, l\<lparr>l_store := s'\<rparr>))"

definition get_tree :: "('s TreeLedger, cid) eff" where
  "get_tree = (\<lambda>l. (Ok (l_tree l), l))"

definition set_tree :: "cid \<Rightarrow> ('s TreeLedger, unit) eff" where
  "set_tree t = (\<lambda>l. (Ok (), l\<lparr>l_tree := t\<rparr>))"

section \<open>Reading\<close>

definition TokenPath :: "TokenName \<Rightarrow> string list res" where
  "TokenPath tokenName =
     rbind (wrapf ''error, unable to decode tree path for tokens: %v'' (DecodePath TreePathForTokens))
       (\<lambda>rootTokenPath. Ok (rootTokenPath @ [TokenName_String tokenName]))"

definition tokenPath :: "'s TreeLedger \<Rightarrow> string list res" where
  "tokenPath l = TokenPath (l_tokenName l)"

text \<open>The type assertions \<^verbatim>\<open>c.(cid.Cid)\<close> panic on any other dynamic type.\<close>

fun cast_cids :: "goval list \<Rightarrow> cid list res" where
  "cast_cids [] = Ok []"
| "cast_cids (GCid c # vs) = rbind (cast_cids vs) (\<lambda>cs. Ok (c # cs))"
| "cast_cids (v # vs) = Panic ''interface conversion: interface {} is not cid.Cid''"

definition transactionCidsForPath ::
  "'s dag_lib \<Rightarrow> cid \<Rightarrow> string list \<Rightarrow> 's \<Rightarrow> cid list res" where
  "transactionCidsForPath D tree path s =
     rbind (wrapf ''error resolving path %v: %v'' (dag_Resolve D tree path s)) (\<lambda>(uncastCids, _).
       case uncastCids of
         GNil \<Rightarrow> Ok []
       | GList vs \<Rightarrow> cast_cids vs
       | _ \<Rightarrow> Panic ''interface conversion: interface {} is not []interface {}'')"

definition TokenTransactionCidsForType ::
  "'s dag_lib \<Rightarrow> cid \<Rightarrow> TokenName \<Rightarrow> string \<Rightarrow> 's \<Rightarrow> cid list res" where
  "TokenTransactionCidsForType D tree tokenName txType s =
     rbind (wrapf ''error, unable to decode tree path for tokens: %v'' (DecodePath TreePathForTokens))
       (\<lambda>treePathForTokens.
     transactionCidsForPath D tree (treePathForTokens @ [TokenName_String tokenName, txType]) s)"

definition tokenTransactionCidsForType ::
  "'s dag_lib \<Rightarrow> string \<Rightarrow> 's TreeLedger \<Rightarrow> cid list res" where
  "tokenTransactionCidsForType D txType l =
     rbind (tokenPath l) (\<lambda>tokenPath.
     wrapf ''error fetching %s at %v: %v''
       (transactionCidsForPath D (l_tree l) (tokenPath @ [txType]) (l_store l)))"

fun sum_loop :: "'s dag_lib \<Rightarrow> 's \<Rightarrow> u64 \<Rightarrow> cid list \<Rightarrow> u64 res" where
  "sum_loop D s acc [] = Ok acc"
| "sum_loop D s acc (c # cs) =
     rbind (wrapf ''error fetching node %v: %v'' (dag_Get D c s)) (\<lambda>node.
     rbind (wrapf ''error fetching amount from %v: %v''
         (cbor_DecodeIntoReceive D (node_RawData node))) (\<lambda>rec.
     sum_loop D s (acc + tr_Amount rec) cs))"

definition sumTokenTransactions :: "'s dag_lib \<Rightarrow> cid list \<Rightarrow> 's TreeLedger \<Rightarrow> u64 res" where
  "sumTokenTransactions D cids l = sum_loop D (l_store l) 0 cids"

definition Balance :: "'s dag_lib \<Rightarrow> 's TreeLedger \<Rightarrow> u64 res" where
  "Balance D l =
     rbind (tokenPath l) (\<lambda>tokenPath.
     rbind (wrapf ''error resolving token: %v''
         (dag_ResolveIntoToken D (l_tree l) tokenPath (l_store l))) (\<lambda>token.
     Ok (tok_Balance token)))"

definition TokenExists :: "'s dag_lib \<Rightarrow> 's TreeLedger \<Rightarrow> bool res" where
  "TokenExists D l =
     rbind (wrapf ''error getting token path: %v'' (tokenPath l)) (\<lambda>tokenPath.
     rbind (wrapf ''error attempting to resolve %v: %v''
         (dag_Resolve D (l_tree l) tokenPath (l_store l))) (\<lambda>(existingToken, _).
     Ok (existingToken \<noteq> GNil)))"

section \<open>Writing\<close>

definition createToken :: "'s dag_lib \<Rightarrow> ('s TreeLedger, cid) eff" where
  "createToken D =
     ebind (ewrapf ''error getting token path: %v'' (eread tokenPath)) (\<lambda>tokenPath.
     ebind get_tree (\<lambda>tree.
     ebind (ewrapf ''error creating new token: %v''
         (on_store (dag_SetAsLink D tree tokenPath (GToken zero_Token)))) (\<lambda>newTree.
     ebind (ewrapf ''error setting balance: %v''
         (on_store (dag_Set D newTree (tokenPath @ [TokenBalanceLabel]) (GUint64 0)))) (\<lambda>newTree.
     ebind (set_tree newTree) (\<lambda>_.
     eret newTree)))))"

definition EstablishToken ::
  "'s dag_lib \<Rightarrow> TokenMonetaryPolicy \<Rightarrow> ('s TreeLedger, cid) eff" where
  "EstablishToken D monetaryPolicy =
     ebind (createToken D) (\<lambda>newTree.
     ebind (eread tokenPath) (\<lambda>tokenPath.
     ebind (ewrapf ''error setting monetary policy: %v''
         (on_store (dag_SetAsLink D newTree (tokenPath @ [MonetaryPolicyLabel])
            (GPolicy monetaryPolicy)))) (\<lambda>newTree.
     ebind (set_tree newTree) (\<lambda>_.
     eret newTree))))"

definition policy_violated :: goerr where
  "policy_violated = Errorf ''new mint would violate monetaryPolicy of maximum: %v'' []"

definition MintToken :: "'s dag_lib \<Rightarrow> u64 \<Rightarrow> ('s TreeLedger, cid) eff" where
  "MintToken D amount =
     (if amount = 0 then elift (Fail (Errorf ''error, must mint amount greater than 0'' []))
      else
     ebind (ewrapf ''error getting token path: %v'' (eread tokenPath)) (\<lambda>tokenPath.
     ebind get_tree (\<lambda>tree.
     ebind (ewrapf ''error decoding token monetary policy: %v''
         (eread (\<lambda>l. dag_ResolveIntoPolicy D tree (tokenPath @ [MonetaryPolicyLabel]) (l_store l))))
       (\<lambda>monetaryPolicy.
     ebind (eread (tokenTransactionCidsForType D TokenMintLabel)) (\<lambda>mintCids.
     ebind (if pol_Maximum monetaryPolicy > 0 then
              ebind (ewrapf ''error summing token mints: %v'' (eread (sumTokenTransactions D mintCids)))
                (\<lambda>currentMintedTotal.
                  if currentMintedTotal + amount > pol_Maximum monetaryPolicy
                  then elift (Fail policy_violated) else eret ())
            else eret ()) (\<lambda>_.
     ebind (ewrapf ''could not create new node: %v''
         (on_store (dag_CreateNode D (GTokenMint \<lparr>tm_Amount = amount\<rparr>)))) (\<lambda>newMint.
     ebind (ewrapf ''error setting: %v''
         (on_store (dag_SetAsLink D tree (tokenPath @ [TokenMintLabel])
            (GCids (mintCids @ [node_Cid newMint]))))) (\<lambda>newTree.
     ebind (ewrapf ''error getting current balance: %v'' (eread (Balance D))) (\<lambda>currBalance.
     ebind (ewrapf ''error updating balance: %v''
         (on_store (dag_Set D newTree (tokenPath @ [TokenBalanceLabel])
            (GUint64 (currBalance + amount))))) (\<lambda>newTree.
     ebind (set_tree newTree) (\<lambda>_.
     eret newTree)))))))))))"

definition balance_too_low :: goerr where
  "balance_too_low = Errorf ''cannot send token, balance of %d is too low to send %d'' []"

definition SendToken ::
  "'s dag_lib \<Rightarrow> string \<Rightarrow> string \<Rightarrow> u64 \<Rightarrow> ('s TreeLedger, cid) eff" where
  "SendToken D txId destination amount =
     (if amount = 0 then elift (Fail (Errorf ''error, must send an amount greater than 0'' []))
      else
     ebind (eread tokenPath) (\<lambda>tokenPath.
     ebind get_tree (\<lambda>tree.
     ebind (eread (Balance D)) (\<lambda>availableBalance.
     if availableBalance < amount then elift (Fail balance_too_low)
     else
     ebind (ewrapf ''could not create new node: %v''
         (on_store (dag_CreateNode D (GTokenSend
            \<lparr>ts_Id = txId, ts_Amount = amount, ts_Destination = destination\<rparr>)))) (\<lambda>newSend.
     ebind (ewrapf ''error getting existing token sends: %v''
         (eread (tokenTransactionCidsForType D TokenSendLabel))) (\<lambda>sentCids.
     ebind (ewrapf ''error setting: %v''
         (on_store (dag_SetAsLink D tree (tokenPath @ [TokenSendLabel])
            (GCids (sentCids @ [node_Cid newSend]))))) (\<lambda>newTree.
     ebind (ewrapf ''error updating balance: %v''
         (on_store (dag_Set D newTree (tokenPath @ [TokenBalanceLabel])
            (GUint64 (availableBalance - amount))))) (\<lambda>newTree.
     ebind (set_tree newTree) (\<lambda>_.
     eret newTree)))))))))"

definition already_received :: goerr where
  "already_received = Errorf ''cannot receive token; transaction id %s already exists'' []"

text \<open>The loop of \<^verbatim>\<open>ReceiveToken\<close> that refuses a send that was received before.\<close>

fun check_receives :: "'s dag_lib \<Rightarrow> 's \<Rightarrow> string \<Rightarrow> cid list \<Rightarrow> unit res" where
  "check_receives D s sendTokenTxId [] = Ok ()"
| "check_receives D s sendTokenTxId (r # rs) =
     rbind (wrapf ''error getting existing token receive: %v'' (dag_Get D r s)) (\<lambda>node.
     rbind (wrapf ''error decoding token receive node: %v''
         (cbor_DecodeIntoReceive D (node_RawData node))) (\<lambda>tr.
     if tr_SendTokenTransactionId tr = sendTokenTxId then Fail already_received
     else check_receives D s sendTokenTxId rs))"

definition ReceiveToken ::
  "'s dag_lib \<Rightarrow> string \<Rightarrow> u64 \<Rightarrow> ('s TreeLedger, cid) eff" where
  "ReceiveToken D sendTokenTxId amount =
     ebind (eread tokenPath) (\<lambda>tokenPath.
     ebind (eread (TokenExists D)) (\<lambda>tokenExists.
     ebind (if tokenExists then eret () else
              ebind (createToken D) (\<lambda>newTree. set_tree newTree)) (\<lambda>_.
     ebind (ewrapf ''error getting existing token receives: %v''
         (eread (tokenTransactionCidsForType D TokenReceiveLabel))) (\<lambda>tokenReceives.
     ebind (eread (\<lambda>l. check_receives D (l_store l) sendTokenTxId tokenReceives)) (\<lambda>_.
     ebind (ewrapf ''error creating token receive node: %v''
         (on_store (dag_CreateNode D (GTokenReceive
            \<lparr>tr_SendTokenTransactionId = sendTokenTxId, tr_Amount = amount\<rparr>)))) (\<lambda>newReceive.
     ebind get_tree (\<lambda>tree.
     ebind (ewrapf ''error setting: %v''
         (on_store (dag_SetAsLink D tree (tokenPath @ [TokenReceiveLabel])
            (GCids (tokenReceives @ [node_Cid newReceive]))))) (\<lambda>newTree.
     ebind (ewrapf ''error getting current balance: %v'' (eread (Balance D))) (\<lambda>currBalance.
     ebind (ewrapf ''error updating balance: %v''
         (on_store (dag_Set D newTree (tokenPath @ [TokenBalanceLabel])
            (GUint64 (currBalance + amount))))) (\<lambda>newTree.
     ebind (set_tree newTree) (\<lambda>_.
     eret newTree)))))))))))"

end
