(* ===== verification/Transactions.thy ===== *)
theory Transactions
  imports Tree_Ledger
begin

text \<open>
  \<^verbatim>\<open>src/consensus/transactions.go\<close> and \<^verbatim>\<open>errorcode.go\<close>: the transactors, which apply one
  transaction of a block to a tree. A transactor returns the new tree, or a coded error
  and no tree; it runs on the node store of the tree. The payload accessors \<^verbatim>\<open>Ensure...\<close>
  of the messages package are the parameter \<^verbatim>\<open>txn_lib\<close>.
\<close>

section \<open>Error codes\<close>

definition ErrUnknown :: int where "ErrUnknown = 0"
definition ErrInvalidTip :: int where "ErrInvalidTip = 1"
definition ErrInvalidSig :: int where "ErrInvalidSig = 2"

text \<open>\<^verbatim>\<open>if err != nil { return nil, false, &ErrorCode{Code: c, Memo: m} }\<close>, dropping the error.\<close>

primrec replacec :: "int \<Rightarrow> string \<Rightarrow> 'a res \<Rightarrow> 'a res" where
  "replacec c m (Ok x) = Ok x"
| "replacec c m (Fail e) = Fail (ErrorCode c m [])"
| "replacec c m (Panic p) = Panic p"

lemma replacec_Ok_iff [simp, go_ok]: "replacec c m r = Ok x \<longleftrightarrow> r = Ok x"
  by (cases r) auto

section \<open>Parameters\<close>

record txn_lib =
  EnsureSetDataPayload :: "Transaction \<Rightarrow> SetDataPayload res"
  EnsureSetOwnershipPayload :: "Transaction \<Rightarrow> SetOwnershipPayload res"
  EnsureEstablishTokenPayload :: "Transaction \<Rightarrow> EstablishTokenPayload res"
  EnsureMintTokenPayload :: "Transaction \<Rightarrow> MintTokenPayload res"
  EnsureSendTokenPayload :: "Transaction \<Rightarrow> SendTokenPayload res"
  EnsureReceiveTokenPayload :: "Transaction \<Rightarrow> ReceiveTokenPayload res"
  EnsureStakePayload :: "Transaction \<Rightarrow> StakePayload res"

type_synonym 's transactor = "string \<Rightarrow> cid \<Rightarrow> Transaction \<Rightarrow> ('s, cid) eff"

text \<open>Running ledger methods on a fresh \<^verbatim>\<open>TreeLedger\<close> over the store.\<close>

definition with_ledger :: "cid \<Rightarrow> TokenName \<Rightarrow> ('s TreeLedger, 'a) eff \<Rightarrow> ('s, 'a) eff" where
  "with_ledger tree nm m = (\<lambda>s. case m (NewTreeLedger tree nm s) of (r, l') \<Rightarrow> (r, l_store l'))"

lemma with_ledger_Ok_iff [go_ok]:
  "with_ledger tree nm m s = (Ok x, s') \<longleftrightarrow>
     (\<exists>l'. m (NewTreeLedger tree nm s) = (Ok x, l') \<and> s' = l_store l')"
  by (auto simp: with_ledger_def split: prod.splits)

section \<open>Data, ownership and stake\<close>

fun complexType :: "goval \<Rightarrow> bool" where
  "complexType (GBool b) = False"
| "complexType (GInt i) = False"
| "complexType (GUint64 u) = False"
| "complexType (GFloat m e) = False"
| "complexType (GString s) = False"
| "complexType (GBytes bs) = False"
| "complexType (GCid c) = False"
| "complexType (GCids cs) = False"
| "complexType (GStrings ss) = False"
| "complexType v = True"

definition SetDataTransaction :: "'s dag_lib \<Rightarrow> txn_lib \<Rightarrow> 's transactor" where
  "SetDataTransaction D E did tree txn =
     ebind (elift (wrapc ErrUnknown ''error reading payload: %v'' (EnsureSetDataPayload E txn))) (\<lambda>payload.
     ebind (elift (wrapc ErrUnknown ''error decoding path: %v'' (DecodePath (sdp_Path payload)))) (\<lambda>path.
     ebind (elift (wrapc ErrUnknown ''error decoding data value: %v''
         (cbor_DecodeInto D (sdp_Value payload)))) (\<lambda>val.
     let dataPath = (case DecodePath TreePathForData of Ok p \<Rightarrow> p | _ \<Rightarrow> []);
         path = dataPath @ path
     in ewrapc 999 ''error setting: %v''
          (if complexType val then dag_SetAsLink D tree path val else dag_Set D tree path val))))"

definition SetOwnershipTransaction :: "'s dag_lib \<Rightarrow> txn_lib \<Rightarrow> 's transactor" where
  "SetOwnershipTransaction D E did tree txn =
     ebind (elift (wrapc ErrUnknown ''error reading payload: %v'' (EnsureSetOwnershipPayload E txn)))
       (\<lambda>payload.
     ebind (elift (wrapc ErrUnknown ''error decoding path: %v'' (DecodePath TreePathForAuthentications)))
       (\<lambda>path.
     ewrapc 999 ''error setting: %v''
       (dag_SetAsLink D tree path (GStrings (sop_Authentication payload)))))"

definition StakeTransaction :: "'s dag_lib \<Rightarrow> txn_lib \<Rightarrow> 's transactor" where
  "StakeTransaction D E did tree txn =
     ebind (elift (wrapc ErrUnknown ''error reading payload: %v'' (EnsureStakePayload E txn))) (\<lambda>payload.
     ebind (elift (wrapc ErrUnknown ''error decoding path: %v'' (DecodePath TreePathForStake))) (\<lambda>path.
     ewrapc 999 ''error setting: %v'' (dag_SetAsLink D tree path (GStake payload))))"

section \<open>Tokens\<close>

definition token_already_exists :: goerr where
  "token_already_exists = ErrorCode ErrUnknown ''error, token \"%s\" already exists'' []"

definition EstablishTokenTransaction :: "'s dag_lib \<Rightarrow> txn_lib \<Rightarrow> 's transactor" where
  "EstablishTokenTransaction D E chainTreeDID tree txn =
     ebind (elift (wrapc ErrUnknown ''error reading payload: %v'' (EnsureEstablishTokenPayload E txn)))
       (\<lambda>payload.
     ebind (ewrapc ErrUnknown ''error getting canonical token name for %s: %v''
         (eread (CanonicalTokenName D tree chainTreeDID (etp_Name payload) True))) (\<lambda>tokenName.
     with_ledger tree tokenName
       (ebind (eread (\<lambda>l. replacec ErrUnknown ''error checking for existence of token \"%s\"'' (TokenExists D l)))
         (\<lambda>tokenExists.
        if tokenExists then elift (Fail token_already_exists)
        else let monetaryPolicy = (case etp_MonetaryPolicy payload of
                     None \<Rightarrow> \<lparr>pol_Maximum = 0\<rparr> | Some p \<Rightarrow> p)
             in ewrapc ErrUnknown ''%s'' (EstablishToken D monetaryPolicy)))))"

definition MintTokenTransaction :: "'s dag_lib \<Rightarrow> txn_lib \<Rightarrow> 's transactor" where
  "MintTokenTransaction D E chainTreeDID tree txn =
     ebind (elift (wrapc ErrUnknown ''error reading payload: %v'' (EnsureMintTokenPayload E txn))) (\<lambda>payload.
     ebind (ewrapc ErrUnknown ''error getting canonical token name for %s: %v''
         (eread (CanonicalTokenName D tree chainTreeDID (mtp_Name payload) True))) (\<lambda>tokenName.
     with_ledger tree tokenName
       (ewrapc ErrUnknown ''error minting token: %v'' (MintToken D (mtp_Amount payload)))))"

definition SendTokenTransaction :: "'s dag_lib \<Rightarrow> txn_lib \<Rightarrow> 's transactor" where
  "SendTokenTransaction D E chainTreeDID tree txn =
     ebind (elift (wrapc ErrUnknown ''error reading payload: %v'' (EnsureSendTokenPayload E txn))) (\<lambda>payload.
     ebind (ewrapc ErrUnknown ''error getting canonical token name for %s: %v''
         (eread (CanonicalTokenName D tree chainTreeDID (stp_Name payload) False))) (\<lambda>tokenName.
     with_ledger tree tokenName
       (ewrapc 999 ''error sending token: %v''
         (SendToken D (stp_Id payload) (stp_Destination payload) (stp_Amount payload)))))"

section \<open>Building the payload a receiver needs\<close>

definition NodeToObj :: "'s dag_lib \<Rightarrow> node \<Rightarrow> goval res" where
  "NodeToObj D node = wrapf ''error decoding: %v'' (cbor_DecodeInto D (node_RawData node))"

text \<open>\<^verbatim>\<open>chain.Dag\<close> is the tip of the whole chain tree over the store.\<close>

definition allSendTokenNodes ::
  "'s dag_lib \<Rightarrow> cid \<Rightarrow> TokenName \<Rightarrow> cid \<Rightarrow> 's \<Rightarrow> node list res" where
  "allSendTokenNodes D chain tokenName sendNodeId s =
     rbind (wrapf ''error getting send token node: %v'' (dag_Get D sendNodeId s)) (\<lambda>sendTokenNode.
     rbind (TokenPath tokenName) (\<lambda>tokenPath.
     let tokenPath = ''tree'' # tokenPath; tokenPath = tokenPath @ [TokenSendLabel] in
     rbind (dag_NodesForPath D chain tokenPath s) (\<lambda>tokenSendNodes.
     Ok (tokenSendNodes @ [sendTokenNode]))))"

fun serializeNodes_loop :: "bytes list \<Rightarrow> node list \<Rightarrow> bytes list" where
  "serializeNodes_loop bs [] = bs"
| "serializeNodes_loop bs (node # nodes) = serializeNodes_loop (bs @ [node_RawData node]) nodes"

definition serializeNodes :: "node list \<Rightarrow> bytes list" where
  "serializeNodes nodes = serializeNodes_loop [] nodes"

text \<open>The loop that looks for the send with the given id.\<close>

fun find_send :: "'s dag_lib \<Rightarrow> 's \<Rightarrow> string \<Rightarrow> cid list \<Rightarrow> cid res" where
  "find_send D s sendTokenTxId [] = Ok cid_Undef"
| "find_send D s sendTokenTxId (sendTxCid # tokenSends) =
     rbind (dag_Get D sendTxCid s) (\<lambda>sendTxNode.
     rbind (NodeToObj D sendTxNode) (\<lambda>sendTxNodeObj.
     case sendTxNodeObj of
       GMap sendTxNodeMap \<Rightarrow>
         if map_of sendTxNodeMap ''id'' = Some (GString sendTokenTxId) then Ok sendTxCid
         else find_send D s sendTokenTxId tokenSends
     | _ \<Rightarrow> Panic ''interface conversion: interface {} is not map[string]interface {}''))"

definition TokenPayloadForTransaction ::
  "'s dag_lib \<Rightarrow> (cid \<Rightarrow> 's \<Rightarrow> cid res) \<Rightarrow> cid \<Rightarrow> TokenName \<Rightarrow> string \<Rightarrow> Proof option \<Rightarrow> 's
     \<Rightarrow> TokenPayload res" where
  "TokenPayloadForTransaction D chain_Tree chain tokenName sendTokenTxId sendTxProof s =
     (if \<not> IsCanonical tokenName
      then Fail (Errorf ''token name must be canonical (i.e. start with chaintree DID)'' [])
      else
      rbind (chain_Tree chain s) (\<lambda>tree.
      rbind (TokenTransactionCidsForType D tree tokenName TokenSendLabel s) (\<lambda>tokenSends.
      rbind (find_send D s sendTokenTxId tokenSends) (\<lambda>tokenSendTx.
      if \<not> cid_Defined tokenSendTx
      then Fail (Errorf ''send token transaction not found for ID: %s'' [])
      else
      rbind (allSendTokenNodes D chain tokenName tokenSendTx s) (\<lambda>tokenNodes.
      Ok \<lparr>tpl_TransactionId = sendTokenTxId, tpl_Tip = cid_String D chain, tpl_Proof = sendTxProof,
          tpl_Leaves = serializeNodes tokenNodes\<rparr>)))))"

section \<open>Receiving\<close>

text \<open>
  The entries of a Go map are given in the order a \<^verbatim>\<open>range\<close> loop visits them; a function of
  type \<^verbatim>\<open>visit_order\<close> is the order a run of the program chooses for each map.
\<close>

type_synonym visit_order = "(string \<times> goval) list \<Rightarrow> (string \<times> goval) list"

text \<open>An entry is passed over where \<^verbatim>\<open>Get\<close> reports an error, and also where it returns a nil node; \<^verbatim>\<open>dag_Get\<close> is \<^verbatim>\<open>Fail\<close> in both cases.\<close>

fun findFirstLinkedNode ::
  "'s dag_lib \<Rightarrow> 's \<Rightarrow> (string \<times> goval) list \<Rightarrow> (string \<times> node) res" where
  "findFirstLinkedNode D s [] = Fail (Errorf ''no linked nodes were found in the DAG'' [])"
| "findFirstLinkedNode D s ((k, v) # parentNode) =
     (case v of
        GCid nodeCid \<Rightarrow>
          (case dag_Get D nodeCid s of
             Ok node \<Rightarrow> Ok (k, node)
           | Fail e \<Rightarrow> findFirstLinkedNode D s parentNode
           | Panic p \<Rightarrow> Panic p)
      | _ \<Rightarrow> findFirstLinkedNode D s parentNode)"

text \<open>The loop of \<^verbatim>\<open>GetSenderDagFromReceive\<close>: decode the leaves, the tip to the front.\<close>

fun decode_leaves :: "'s dag_lib \<Rightarrow> cid \<Rightarrow> node list \<Rightarrow> bytes list \<Rightarrow> node list res" where
  "decode_leaves D tipCid nodes [] = Ok nodes"
| "decode_leaves D tipCid nodes (l # leaves) =
     rbind (wrapc 999 ''error decoding CBOR node: %v'' (sw_Decode D l)) (\<lambda>cborNode.
     if node_Cid cborNode = tipCid then decode_leaves D tipCid (cborNode # nodes) leaves
     else decode_leaves D tipCid (nodes @ [cborNode]) leaves)"

definition GetSenderDagFromReceive :: "'s dag_lib \<Rightarrow> ReceiveTokenPayload \<Rightarrow> (cid \<times> 's) res" where
  "GetSenderDagFromReceive D payload =
     rbind (wrapc 999 ''error casting tip to CID: %v'' (cid_Cast D (rtp_Tip payload))) (\<lambda>tipCid.
     rbind (decode_leaves D tipCid [] (rtp_Leaves payload)) (\<lambda>nodes.
     wrapc 999 ''error recreating sender leaves DAG: %v'' (dag_NewDagWithNodes D nodes)))"

definition GetTokenNameFromReceive :: "'s dag_lib \<Rightarrow> visit_order \<Rightarrow> cid \<times> 's \<Rightarrow> TokenName res" where
  "GetTokenNameFromReceive D visit senderDag =
     rbind (wrapc 999 ''error decoding tree path for tokens: %v'' (DecodePath TreePathForTokens)) (\<lambda>treePath.
     let tokensPath = ''tree'' # treePath in
     rbind (wrapc 999 ''error resolving tokens: %v''
         (dag_Resolve D (fst senderDag) tokensPath (snd senderDag))) (\<lambda>(uncastTokens, remaining).
     if length remaining > 0
     then Fail (ErrorCode 999 ''error resolving tokens: remaining path elements: %v'' [])
     else (case uncastTokens of
        GMap tokens \<Rightarrow>
          rbind (wrapc 999 ''error finding token node: %v'' (findFirstLinkedNode D (snd senderDag) (visit tokens)))
            (\<lambda>(tokenName, _). Ok (TokenNameFromString tokenName))
      | _ \<Rightarrow> Fail (ErrorCode 999 ''error casting tokens map'' []))))"

text \<open>
  \<^verbatim>\<open>string(i)\<close> of an integer is the UTF-8 text of that code point; integers that are no
  code point give the replacement character.
\<close>

definition go_string_of_int :: "nat \<Rightarrow> string" where
  "go_string_of_int i =
     (let c = (if 0x10FFFF < i \<or> (0xD800 \<le> i \<and> i \<le> 0xDFFF) then 0xFFFD else i) in
      if c < 0x80 then [char_of c]
      else if c < 0x800 then [char_of (0xC0 + c div 64), char_of (0x80 + c mod 64)]
      else if c < 0x10000 then
        [char_of (0xE0 + c div 4096), char_of (0x80 + c div 64 mod 64), char_of (0x80 + c mod 64)]
      else [char_of (0xF0 + c div 262144), char_of (0x80 + c div 4096 mod 64),
            char_of (0x80 + c div 64 mod 64), char_of (0x80 + c mod 64)])"

text \<open>
  \<^verbatim>\<open>m[k] = v\<close> on the entries of a map; a new key may be visited at any position, so the map
  that is built is handed to \<^verbatim>\<open>visit\<close>, the order in which the runtime visits its entries.
\<close>

fun map_set :: "string \<Rightarrow> goval \<Rightarrow> (string \<times> goval) list \<Rightarrow> (string \<times> goval) list" where
  "map_set k v [] = [(k, v)]"
| "map_set k v ((k', v') # m) = (if k = k' then (k, v) # m else (k', v') # map_set k v m)"

fun index_map :: "nat \<Rightarrow> goval list \<Rightarrow> (string \<times> goval) list \<Rightarrow> (string \<times> goval) list" where
  "index_map i [] m = m"
| "index_map i (ts # tokenSends) m = index_map (Suc i) tokenSends (map_set (go_string_of_int i) ts m)"

definition GetSendTokenFromReceive ::
  "'s dag_lib \<Rightarrow> visit_order \<Rightarrow> cid \<times> 's \<Rightarrow> TokenName \<Rightarrow> TokenSend res" where
  "GetSendTokenFromReceive D visit senderDag tokenName =
     rbind (wrapc 999 ''error decoding tree path for tokens: %v'' (DecodePath TreePathForTokens)) (\<lambda>treePath.
     let tokensPath = ''tree'' # treePath;
         tokenSendsPath = tokensPath @ [TokenName_String tokenName, TokenSendLabel] in
     rbind (wrapc 999 ''error resolving token sends: %v''
         (dag_Resolve D (fst senderDag) tokenSendsPath (snd senderDag))) (\<lambda>(uncastTokenSends, remaining).
     if length remaining > 0
     then Fail (ErrorCode 999 ''error resolving token sends: remaining path elements: %v'' [])
     else (case uncastTokenSends of
        GList tokenSends \<Rightarrow>
          let tokenSendsMap = index_map 0 tokenSends [] in
          rbind (wrapc 999 ''error find token send node: %v''
              (findFirstLinkedNode D (snd senderDag) (visit tokenSendsMap))) (\<lambda>(_, tokenSendNode).
          wrapc 999 ''error decoding token send node: %v''
            (cbor_DecodeIntoSend D (node_RawData tokenSendNode)))
      | _ \<Rightarrow> Fail (ErrorCode 999 ''error casting token sends'' []))))"

definition invalid_tip :: goerr where
  "invalid_tip = ErrorCode 999 ''invalid tip and/or leaves'' []"

definition ReceiveTokenTransaction :: "'s dag_lib \<Rightarrow> txn_lib \<Rightarrow> visit_order \<Rightarrow> 's transactor" where
  "ReceiveTokenTransaction D E visit did tree txn =
     ebind (elift (wrapc 999 ''error reading payload: %v'' (EnsureReceiveTokenPayload E txn))) (\<lambda>payload.
     ebind (elift (wrapc 999 ''error casting tip to CID: %v'' (cid_Cast D (rtp_Tip payload)))) (\<lambda>tipCid.
     ebind (elift (GetSenderDagFromReceive D payload)) (\<lambda>senderDag.
     if tipCid \<noteq> fst senderDag then elift (Fail invalid_tip)
     else
     ebind (elift (GetTokenNameFromReceive D visit senderDag)) (\<lambda>tokenName.
     ebind (elift (GetSendTokenFromReceive D visit senderDag tokenName)) (\<lambda>tokenSend.
     with_ledger tree tokenName
       (ewrapc 999 ''%s'' (ReceiveToken D (rtp_SendTokenTransactionId payload) (ts_Amount tokenSend))))))))"

section \<open>The table of transactors\<close>

text \<open>\<^verbatim>\<open>DefaultTransactors\<close> of \<^verbatim>\<open>src/consensus/signedtree.go\<close>.\<close>

fun DefaultTransactors ::
  "'s dag_lib \<Rightarrow> txn_lib \<Rightarrow> visit_order \<Rightarrow> Transaction_Type \<Rightarrow> 's transactor option" where
  "DefaultTransactors D E visit ESTABLISHTOKEN = Some (EstablishTokenTransaction D E)"
| "DefaultTransactors D E visit MINTTOKEN = Some (MintTokenTransaction D E)"
| "DefaultTransactors D E visit SENDTOKEN = Some (SendTokenTransaction D E)"
| "DefaultTransactors D E visit RECEIVETOKEN = Some (ReceiveTokenTransaction D E visit)"
| "DefaultTransactors D E visit SETDATA = Some (SetDataTransaction D E)"
| "DefaultTransactors D E visit SETOWNERSHIP = Some (SetOwnershipTransaction D E)"
| "DefaultTransactors D E visit STAKE = Some (StakeTransaction D E)"
| "DefaultTransactors D E visit (OTHERTXN i) = None"

section \<open>Payloads by presence\<close>

text \<open>The checks on payloads, each the presence of its payload: the concrete library of the examples.\<close>

definition ensured :: "'a option \<Rightarrow> 'a res" where
  "ensured p = (case p of None \<Rightarrow> Fail (LibErr ''payload is nil'') | Some x \<Rightarrow> Ok x)"

definition ref_txns :: txn_lib where
  "ref_txns = \<lparr>EnsureSetDataPayload = \<lambda>x. ensured (txn_SetDataPayload x),
     EnsureSetOwnershipPayload = \<lambda>x. ensured (txn_SetOwnershipPayload x),
     EnsureEstablishTokenPayload = \<lambda>x. ensured (txn_EstablishTokenPayload x),
     EnsureMintTokenPayload = \<lambda>x. ensured (txn_MintTokenPayload x),
     EnsureSendTokenPayload = \<lambda>x. ensured (txn_SendTokenPayload x),
     EnsureReceiveTokenPayload = \<lambda>x. ensured (txn_ReceiveTokenPayload x),
     EnsureStakePayload = \<lambda>x. ensured (txn_StakePayload x)\<rparr>"

end
