(* ===== verification/Ledger_Spec.thy ===== *)
theory Ledger_Spec
  imports Tree_Ledger
begin

text \<open>
  What a token ledger promises, independently of trees: a token is a monetary policy,
  the histories of mints, sends and receives, and a balance, and each operation that
  succeeds is one step of \<^verbatim>\<open>spec_step\<close>. The locale \<^verbatim>\<open>token_ledger\<close> is the Go interface
  \<^verbatim>\<open>TokenLedger\<close> with this contract; the facts a client relies on (conservation, the cap
  on mints, replay protection) are proved once inside it.
\<close>

section \<open>The abstract ledger\<close>

record token_state =
  a_policy :: "TokenMonetaryPolicy option"
  a_mints :: "u64 list"
  a_sends :: "TokenSend list"
  a_receives :: "TokenReceive list"
  a_balance :: u64

definition fresh_token :: "TokenMonetaryPolicy option \<Rightarrow> token_state" where
  "fresh_token pol = \<lparr>a_policy = pol, a_mints = [], a_sends = [], a_receives = [], a_balance = 0\<rparr>"

datatype ledger_op =
    OpEstablish TokenMonetaryPolicy
  | OpMint u64
  | OpSend string string u64
  | OpReceive string u64

text \<open>The check of the cap, with the wrap-around addition of the code.\<close>

definition within_policy :: "token_state \<Rightarrow> u64 \<Rightarrow> bool" where
  "within_policy k amount \<longleftrightarrow>
     (case a_policy k of
        None \<Rightarrow> True
      | Some pol \<Rightarrow> pol_Maximum pol = 0 \<or> sum_list (a_mints k) + amount \<le> pol_Maximum pol)"

definition received_ids :: "token_state \<Rightarrow> string list" where
  "received_ids k = map tr_SendTokenTransactionId (a_receives k)"

definition add_mint :: "u64 \<Rightarrow> token_state \<Rightarrow> token_state" where
  "add_mint amount k =
     k\<lparr>a_mints := a_mints k @ [amount], a_balance := a_balance k + amount\<rparr>"

definition add_send :: "string \<Rightarrow> string \<Rightarrow> u64 \<Rightarrow> token_state \<Rightarrow> token_state" where
  "add_send txId dest amount k =
     k\<lparr>a_sends := a_sends k @ [\<lparr>ts_Id = txId, ts_Amount = amount, ts_Destination = dest\<rparr>],
       a_balance := a_balance k - amount\<rparr>"

definition add_receive :: "string \<Rightarrow> u64 \<Rightarrow> token_state \<Rightarrow> token_state" where
  "add_receive sid amount k =
     k\<lparr>a_receives := a_receives k @ [\<lparr>tr_SendTokenTransactionId = sid, tr_Amount = amount\<rparr>],
       a_balance := a_balance k + amount\<rparr>"

text \<open>
  Nothing in the code asks whether a token exists before it is minted: a mint where there
  is none, if the library lets it happen, makes a token that has no policy. A send of a
  token that is not there finds no balance.
\<close>

inductive spec_step :: "ledger_op \<Rightarrow> token_state option \<Rightarrow> token_state \<Rightarrow> bool" where
  establish: "spec_step (OpEstablish pol) a (fresh_token (Some pol))"
| mint: "amount \<noteq> 0 \<Longrightarrow> within_policy k amount \<Longrightarrow>
    spec_step (OpMint amount) (Some k) (add_mint amount k)"
| mint_first: "amount \<noteq> 0 \<Longrightarrow> spec_step (OpMint amount) None (add_mint amount (fresh_token None))"
| send: "amount \<noteq> 0 \<Longrightarrow> amount \<le> a_balance k \<Longrightarrow>
    spec_step (OpSend txId dest amount) (Some k) (add_send txId dest amount k)"
| receive: "sid \<notin> set (received_ids k) \<Longrightarrow>
    spec_step (OpReceive sid amount) (Some k) (add_receive sid amount k)"
| receive_first: "spec_step (OpReceive sid amount) None (add_receive sid amount (fresh_token None))"

inductive_simps spec_step_simps:
  "spec_step (OpEstablish pol) a k'"
  "spec_step (OpMint amount) a k'"
  "spec_step (OpSend txId dest amount) a k'"
  "spec_step (OpReceive sid amount) a k'"

inductive_cases spec_stepE: "spec_step op a k'"

text \<open>
  A mint reads the policy of the token: a token that was only ever received has none, and
  the code does not say what the library reads there.
\<close>

fun policy_known :: "ledger_op \<Rightarrow> token_state option \<Rightarrow> bool" where
  "policy_known (OpMint amount) (Some k) = (a_policy k \<noteq> None)"
| "policy_known (OpMint amount) None = False"
| "policy_known op a = True"

section \<open>Invariants of the abstract ledger\<close>

text \<open>The balance is what came in less what went out, in the arithmetic of \<^verbatim>\<open>uint64\<close>.\<close>

definition conserved :: "token_state \<Rightarrow> bool" where
  "conserved k \<longleftrightarrow>
     a_balance k + sum_list (map ts_Amount (a_sends k)) =
     sum_list (a_mints k) + sum_list (map tr_Amount (a_receives k))"

definition capped :: "token_state \<Rightarrow> bool" where
  "capped k \<longleftrightarrow>
     (\<forall>pol. a_policy k = Some pol \<longrightarrow> 0 < pol_Maximum pol \<longrightarrow>
        sum_list (a_mints k) \<le> pol_Maximum pol)"

definition received_once :: "token_state \<Rightarrow> bool" where
  "received_once k \<longleftrightarrow> distinct (received_ids k)"

text \<open>
  The same in the integers: as long as what came in fits into 64 bits, no token is created
  or lost, so no more can be sent than was minted and received.
\<close>

definition income :: "token_state \<Rightarrow> nat" where
  "income k = utotal (a_mints k) + utotal (map tr_Amount (a_receives k))"

definition solvent :: "token_state \<Rightarrow> bool" where
  "solvent k \<longleftrightarrow>
     (income k < 2 ^ 64 \<longrightarrow> unat (a_balance k) + utotal (map ts_Amount (a_sends k)) = income k)"

definition ledger_inv :: "token_state \<Rightarrow> bool" where
  "ledger_inv k \<longleftrightarrow> conserved k \<and> capped k \<and> received_once k \<and> solvent k"

lemmas spec_defs = fresh_token_def add_mint_def add_send_def add_receive_def received_ids_def

lemmas inv_defs = ledger_inv_def conserved_def capped_def received_once_def solvent_def income_def

lemma ledger_inv_fresh [simp]: "ledger_inv (fresh_token pol)"
  by (simp add: inv_defs spec_defs)

lemma solvent_in:
  assumes "solvent k" "a_sends k' = a_sends k" "a_balance k' = a_balance k + amount"
    "income k' = income k + unat amount"
  shows "solvent k'"
  unfolding solvent_def
proof
  assume i: "income k' < 2 ^ 64"
  with assms(1,4) have k: "unat (a_balance k) + utotal (map ts_Amount (a_sends k)) = income k"
    by (simp add: solvent_def)
  with i assms(4) have "unat (a_balance k) + unat amount < 2 ^ 64" by linarith
  from unat_add_small [OF this] have "unat (a_balance k') = unat (a_balance k) + unat amount"
    unfolding assms(3) .
  with k assms(4) show "unat (a_balance k') + utotal (map ts_Amount (a_sends k')) = income k'"
    unfolding assms(2) by linarith
qed

lemma spec_step_solvent:
  assumes "spec_step op a k'" "\<And>k. a = Some k \<Longrightarrow> solvent k"
  shows "solvent k'"
  using assms
proof (induction rule: spec_step.induct)
  case (mint amount k)
  then have "solvent k" by simp
  then show ?case
    by (rule solvent_in [where amount = amount]) (simp_all add: spec_defs income_def)
next
  case (send amount k txId dest)
  then show ?case
    by (auto simp: solvent_def income_def spec_defs unat_sub_le word_le_nat_alt)
next
  case (receive sid k amount)
  then have "solvent k" by simp
  then show ?case
    by (rule solvent_in [where amount = amount]) (simp_all add: spec_defs income_def)
qed (auto simp: solvent_def income_def spec_defs)

lemma spec_step_inv:
  assumes "spec_step op a k'" "\<And>k. a = Some k \<Longrightarrow> ledger_inv k"
  shows "ledger_inv k'"
proof -
  have "solvent k'" using spec_step_solvent [OF assms(1)] assms(2) by (simp add: ledger_inv_def)
  moreover have "conserved k' \<and> capped k' \<and> received_once k'"
    using assms
    by (induction rule: spec_step.induct)
      (auto simp: inv_defs spec_defs within_policy_def algebra_simps split: option.splits)
  ultimately show ?thesis by (simp add: ledger_inv_def)
qed

lemma spec_step_policy:
  "spec_step op (Some k) k' \<Longrightarrow> (\<And>pol. op \<noteq> OpEstablish pol) \<Longrightarrow> a_policy k' = a_policy k"
  by (erule spec_stepE) (auto simp: spec_defs)

section \<open>The interface\<close>

text \<open>
  \<^verbatim>\<open>R l a\<close>: the ledger object \<^verbatim>\<open>l\<close> represents the abstract token \<^verbatim>\<open>a\<close> (\<^verbatim>\<open>None\<close>: no token yet).
\<close>

locale token_ledger =
  fixes step :: "ledger_op \<Rightarrow> ('l, 't) eff"
    and balance :: "'l \<Rightarrow> u64 res"
    and present :: "'l \<Rightarrow> bool res"
    and R :: "'l \<Rightarrow> token_state option \<Rightarrow> bool"
  assumes step_refines:
      "R l a \<Longrightarrow> step op l = (Ok t, l') \<Longrightarrow> \<exists>k'. spec_step op a k' \<and> R l' (Some k')"
    and balance_reads: "R l (Some k) \<Longrightarrow> balance l = Ok (a_balance k)"
    and present_reads: "R l a \<Longrightarrow> present l = Ok (a \<noteq> None)"
    and refused_receive: "R l (Some k) \<Longrightarrow> sid \<in> set (received_ids k) \<Longrightarrow>
      step (OpReceive sid amount) l = (Fail already_received, l)"
begin

definition represents :: "'l \<Rightarrow> token_state \<Rightarrow> bool" where
  "represents l k \<longleftrightarrow> R l (Some k) \<and> ledger_inv k"

lemma step_keeps_inv:
  assumes "R l a" "step op l = (Ok t, l')" "\<And>k. a = Some k \<Longrightarrow> ledger_inv k"
  shows "\<exists>k'. spec_step op a k' \<and> represents l' k'"
  using step_refines [OF assms(1,2)] assms(3) spec_step_inv
  by (fastforce simp: represents_def)

lemma send_balance:
  assumes "R l (Some k)" "step (OpSend txId dest amount) l = (Ok t, l')"
  shows "\<exists>b b'. balance l = Ok b \<and> balance l' = Ok b' \<and> amount \<noteq> 0 \<and> amount \<le> b \<and>
    unat b' + unat amount = unat b"
proof -
  obtain k' where s: "spec_step (OpSend txId dest amount) (Some k) k'" and r: "R l' (Some k')"
    using step_refines [OF assms(1,2)] by auto
  from s have "amount \<noteq> 0" "amount \<le> a_balance k" "a_balance k' = a_balance k - amount"
    by (auto simp: spec_step_simps spec_defs)
  then show ?thesis
    using balance_reads [OF assms(1)] balance_reads [OF r]
    by (simp add: unat_sub_le word_le_nat_alt)
qed

lemma receive_once:
  assumes "R l a" "step (OpReceive sid amount) l = (Ok t, l')"
  shows "step (OpReceive sid amount') l' = (Fail already_received, l')"
proof -
  obtain k' where s: "spec_step (OpReceive sid amount) a k'" and r: "R l' (Some k')"
    using step_refines [OF assms(1,2)] by auto
  from s have "sid \<in> set (received_ids k')"
    by (auto simp: spec_step_simps spec_defs)
  with r show ?thesis by (rule refused_receive)
qed

end

end
