(* ===== verification/Ledger_Refinement.thy ===== *)
theory Ledger_Refinement
  imports Ledger_Spec
begin

text \<open>
  The tree ledger implements the abstract one. \<^verbatim>\<open>token_rel\<close> reads an abstract token out
  of a tree; every part of it is shown to survive writes to independent paths, and each
  method that succeeds is a step of \<^verbatim>\<open>spec_step\<close>. Under the laws of the DAG library this
  makes \<^verbatim>\<open>TreeLedger\<close> an instance of \<^verbatim>\<open>token_ledger\<close>.
\<close>

section \<open>Reading an abstract token out of a tree\<close>

definition tpath :: "TokenName \<Rightarrow> path" where
  "tpath nm = [''_tupelo'', ''tokens'', TokenName_String nm]"

definition stored_nodes ::
  "'s dag_lib \<Rightarrow> (bytes \<Rightarrow> 'x res) \<Rightarrow> 's \<Rightarrow> cid list \<Rightarrow> 'x list \<Rightarrow> bool" where
  "stored_nodes D dec s cs xs \<longleftrightarrow>
     list_all2 (\<lambda>c x. \<exists>n. dag_Get D c s = Ok n \<and> dec (node_RawData n) = Ok x) cs xs"

definition cid_list :: "'s dag_lib \<Rightarrow> cid \<Rightarrow> path \<Rightarrow> 's \<Rightarrow> cid list \<Rightarrow> bool" where
  "cid_list D t q s cs \<longleftrightarrow>
     (resolves D t q s GNil \<and> cs = []) \<or> resolves D t q s (GList (map GCid cs))"

definition history ::
  "'s dag_lib \<Rightarrow> (bytes \<Rightarrow> 'x res) \<Rightarrow> cid \<Rightarrow> path \<Rightarrow> 's \<Rightarrow> 'x list \<Rightarrow> bool" where
  "history D dec t q s xs \<longleftrightarrow> (\<exists>cs. cid_list D t q s cs \<and> stored_nodes D dec s cs xs)"

definition present_at :: "'s dag_lib \<Rightarrow> cid \<Rightarrow> path \<Rightarrow> 's \<Rightarrow> bool" where
  "present_at D t q s \<longleftrightarrow> (\<exists>v. resolves D t q s v \<and> v \<noteq> GNil)"

definition balance_at :: "'s dag_lib \<Rightarrow> cid \<Rightarrow> path \<Rightarrow> 's \<Rightarrow> u64 \<Rightarrow> bool" where
  "balance_at D t q s b \<longleftrightarrow> (\<exists>tok. dag_ResolveIntoToken D t q s = Ok tok \<and> tok_Balance tok = b)"

definition policy_at :: "'s dag_lib \<Rightarrow> cid \<Rightarrow> path \<Rightarrow> 's \<Rightarrow> TokenMonetaryPolicy option \<Rightarrow> bool" where
  "policy_at D t q s po \<longleftrightarrow> (\<forall>pol. po = Some pol \<longrightarrow> dag_ResolveIntoPolicy D t q s = Ok pol)"

definition mint_record :: "u64 \<Rightarrow> TokenReceive" where
  "mint_record m = \<lparr>tr_SendTokenTransactionId = [], tr_Amount = m\<rparr>"

definition token_rel :: "'s dag_lib \<Rightarrow> cid \<Rightarrow> 's \<Rightarrow> TokenName \<Rightarrow> token_state \<Rightarrow> bool" where
  "token_rel D t s nm k \<longleftrightarrow>
     present_at D t (tpath nm) s \<and>
     balance_at D t (tpath nm) s (a_balance k) \<and>
     policy_at D t (tpath nm @ [MonetaryPolicyLabel]) s (a_policy k) \<and>
     history D (cbor_DecodeIntoReceive D) t (tpath nm @ [TokenMintLabel]) s
       (map mint_record (a_mints k)) \<and>
     history D (cbor_DecodeIntoSend D) t (tpath nm @ [TokenSendLabel]) s (a_sends k) \<and>
     history D (cbor_DecodeIntoReceive D) t (tpath nm @ [TokenReceiveLabel]) s (a_receives k)"

definition tree_rel ::
  "'s dag_lib \<Rightarrow> cid \<Rightarrow> 's \<Rightarrow> TokenName \<Rightarrow> token_state option \<Rightarrow> bool" where
  "tree_rel D t s nm a =
     (case a of None \<Rightarrow> resolves D t (tpath nm) s GNil | Some k \<Rightarrow> token_rel D t s nm k)"

definition ledger_rel :: "'s dag_lib \<Rightarrow> 's TreeLedger \<Rightarrow> token_state option \<Rightarrow> bool" where
  "ledger_rel D l a = tree_rel D (l_tree l) (l_store l) (l_tokenName l) a"

lemmas part_defs = present_at_def balance_at_def policy_at_def history_def cid_list_def

lemma labels_differ [simp]:
  "TokenMintLabel \<noteq> TokenSendLabel" "TokenMintLabel \<noteq> TokenReceiveLabel"
  "TokenSendLabel \<noteq> TokenReceiveLabel" "TokenMintLabel \<noteq> TokenBalanceLabel"
  "TokenSendLabel \<noteq> TokenBalanceLabel" "TokenReceiveLabel \<noteq> TokenBalanceLabel"
  "MonetaryPolicyLabel \<noteq> TokenBalanceLabel" "MonetaryPolicyLabel \<noteq> TokenMintLabel"
  "MonetaryPolicyLabel \<noteq> TokenSendLabel" "MonetaryPolicyLabel \<noteq> TokenReceiveLabel"
  by (simp_all add: label_consts)

declare labels_differ [symmetric, simp]

section \<open>The loops and reads of the ledger on related states\<close>

lemma tokenPath_eq [simp]: "tokenPath l = Ok (tpath (l_tokenName l))"
  by (simp add: tokenPath_def TokenPath_def tpath_def)

lemma on_store_Ok_iff [go_ok]:
  "on_store m l = (Ok x, l') \<longleftrightarrow> (\<exists>s'. m (l_store l) = (Ok x, s') \<and> l' = l\<lparr>l_store := s'\<rparr>)"
  by (auto simp: on_store_def split: prod.splits)

lemma get_tree_Ok_iff [go_ok]: "get_tree l = (Ok t, l') \<longleftrightarrow> t = l_tree l \<and> l' = l"
  by (auto simp: get_tree_def)

lemma set_tree_Ok_iff [go_ok]: "set_tree t l = (Ok u, l') \<longleftrightarrow> l' = l\<lparr>l_tree := t\<rparr>"
  by (auto simp: set_tree_def)

lemma cast_cids_map [simp]: "cast_cids (map GCid cs) = Ok cs"
  by (induction cs) auto

lemma transactionCids_read:
  "cid_list D t q s cs \<Longrightarrow> transactionCidsForPath D t q s = Ok cs"
  by (auto simp: cid_list_def resolves_def transactionCidsForPath_def)

lemma tokenTransactionCids_read:
  "cid_list D (l_tree l) (tpath (l_tokenName l) @ [lbl]) (l_store l) cs \<Longrightarrow>
     tokenTransactionCidsForType D lbl l = Ok cs"
  by (simp add: tokenTransactionCidsForType_def transactionCids_read)

lemma sum_loop_eq:
  "stored_nodes D (cbor_DecodeIntoReceive D) s cs xs \<Longrightarrow>
     sum_loop D s acc cs = Ok (acc + sum_list (map tr_Amount xs))"
  unfolding stored_nodes_def
  by (induction arbitrary: acc rule: list_all2_induct) (auto simp: add.assoc)

lemma check_receives_eq:
  "stored_nodes D (cbor_DecodeIntoReceive D) s cs xs \<Longrightarrow>
     check_receives D s sid cs =
       (if sid \<in> set (map tr_SendTokenTransactionId xs) then Fail already_received else Ok ())"
  unfolding stored_nodes_def
  by (induction rule: list_all2_induct) auto

lemma Balance_read:
  "balance_at D (l_tree l) (tpath (l_tokenName l)) (l_store l) b \<Longrightarrow> Balance D l = Ok b"
  by (auto simp: balance_at_def Balance_def)

lemma Balance_Ok_iff:
  "Balance D l = Ok b \<longleftrightarrow> balance_at D (l_tree l) (tpath (l_tokenName l)) (l_store l) b"
  by (auto simp: balance_at_def Balance_def rbind_Ok_iff)

lemma TokenExists_read:
  "ledger_rel D l a \<Longrightarrow> TokenExists D l = Ok (a \<noteq> None)"
  by (cases a)
    (auto simp: ledger_rel_def tree_rel_def token_rel_def present_at_def resolves_def TokenExists_def)

lemma mint_amounts [simp]: "tr_Amount \<circ> mint_record = id"
  by (simp add: fun_eq_iff mint_record_def)

section \<open>What a successful operation did\<close>

lemma createToken_OkE:
  assumes "createToken D l = (Ok t, l')"
  obtains t1 s1 s2 where
    "dag_SetAsLink D (l_tree l) (tpath (l_tokenName l)) (GToken zero_Token) (l_store l) = (Ok t1, s1)"
    "dag_Set D t1 (tpath (l_tokenName l) @ [TokenBalanceLabel]) (GUint64 0) s1 = (Ok t, s2)"
    "l' = l\<lparr>l_store := s2, l_tree := t\<rparr>"
  using assms by (auto simp: createToken_def go_ok)

lemma EstablishToken_OkE:
  assumes "EstablishToken D pol l = (Ok t, l')"
  obtains t1 l1 s2 where
    "createToken D l = (Ok t1, l1)"
    "dag_SetAsLink D t1 (tpath (l_tokenName l1) @ [MonetaryPolicyLabel]) (GPolicy pol) (l_store l1)
       = (Ok t, s2)"
    "l' = l1\<lparr>l_store := s2, l_tree := t\<rparr>"
  using assms by (auto simp: EstablishToken_def go_ok)

lemma MintToken_OkE:
  assumes "MintToken D amount l = (Ok t, l')"
  obtains pol cids n s1 t1 s2 b s3 where
    "amount \<noteq> 0"
    "dag_ResolveIntoPolicy D (l_tree l) (tpath (l_tokenName l) @ [MonetaryPolicyLabel]) (l_store l) = Ok pol"
    "tokenTransactionCidsForType D TokenMintLabel l = Ok cids"
    "0 < pol_Maximum pol \<Longrightarrow>
       \<exists>m. sum_loop D (l_store l) 0 cids = Ok m \<and> m + amount \<le> pol_Maximum pol"
    "dag_CreateNode D (GTokenMint \<lparr>tm_Amount = amount\<rparr>) (l_store l) = (Ok n, s1)"
    "dag_SetAsLink D (l_tree l) (tpath (l_tokenName l) @ [TokenMintLabel])
       (GCids (cids @ [node_Cid n])) s1 = (Ok t1, s2)"
    "Balance D (l\<lparr>l_store := s2\<rparr>) = Ok b"
    "dag_Set D t1 (tpath (l_tokenName l) @ [TokenBalanceLabel]) (GUint64 (b + amount)) s2 = (Ok t, s3)"
    "l' = l\<lparr>l_store := s3, l_tree := t\<rparr>"
  using assms
  by (fastforce simp: MintToken_def go_ok sumTokenTransactions_def not_less split: if_splits)

lemma SendToken_OkE:
  assumes "SendToken D txId dest amount l = (Ok t, l')"
  obtains b n s1 cids t1 s2 s3 where
    "amount \<noteq> 0" "Balance D l = Ok b" "amount \<le> b"
    "dag_CreateNode D (GTokenSend \<lparr>ts_Id = txId, ts_Amount = amount, ts_Destination = dest\<rparr>) (l_store l)
       = (Ok n, s1)"
    "tokenTransactionCidsForType D TokenSendLabel (l\<lparr>l_store := s1\<rparr>) = Ok cids"
    "dag_SetAsLink D (l_tree l) (tpath (l_tokenName l) @ [TokenSendLabel])
       (GCids (cids @ [node_Cid n])) s1 = (Ok t1, s2)"
    "dag_Set D t1 (tpath (l_tokenName l) @ [TokenBalanceLabel]) (GUint64 (b - amount)) s2 = (Ok t, s3)"
    "l' = l\<lparr>l_store := s3, l_tree := t\<rparr>"
  using assms by (auto simp: SendToken_def go_ok not_less split: if_splits)

lemma ReceiveToken_OkE:
  assumes "ReceiveToken D sid amount l = (Ok t, l')"
  obtains x l1 cids n s1 t1 s2 b s3 where
    "TokenExists D l = Ok x"
    "x \<Longrightarrow> l1 = l" "\<not> x \<Longrightarrow> \<exists>t0. createToken D l = (Ok t0, l1)"
    "l_tokenName l1 = l_tokenName l"
    "tokenTransactionCidsForType D TokenReceiveLabel l1 = Ok cids"
    "check_receives D (l_store l1) sid cids = Ok ()"
    "dag_CreateNode D (GTokenReceive \<lparr>tr_SendTokenTransactionId = sid, tr_Amount = amount\<rparr>)
       (l_store l1) = (Ok n, s1)"
    "dag_SetAsLink D (l_tree l1) (tpath (l_tokenName l) @ [TokenReceiveLabel])
       (GCids (cids @ [node_Cid n])) s1 = (Ok t1, s2)"
    "Balance D (l1\<lparr>l_store := s2\<rparr>) = Ok b"
    "dag_Set D t1 (tpath (l_tokenName l) @ [TokenBalanceLabel]) (GUint64 (b + amount)) s2 = (Ok t, s3)"
    "l' = l1\<lparr>l_store := s3, l_tree := t\<rparr>"
  using assms
  by (auto simp: ReceiveToken_def createToken_def go_ok intro: that split: if_splits)

section \<open>Each part survives growing stores and independent writes\<close>

lemma stored_nodes_ext:
  "store_ext D s s' \<Longrightarrow> stored_nodes D dec s cs xs \<Longrightarrow> stored_nodes D dec s' cs xs"
  unfolding stored_nodes_def by (erule list_all2_mono) (blast dest: store_extD(1))

lemma present_at_ext: "store_ext D s s' \<Longrightarrow> present_at D t q s \<Longrightarrow> present_at D t q s'"
  unfolding present_at_def by (blast dest: store_extD(2))

lemma balance_at_ext: "store_ext D s s' \<Longrightarrow> balance_at D t q s b \<Longrightarrow> balance_at D t q s' b"
  unfolding balance_at_def by (blast dest: store_extD(3))

lemma policy_at_ext: "store_ext D s s' \<Longrightarrow> policy_at D t q s po \<Longrightarrow> policy_at D t q s' po"
  unfolding policy_at_def by (blast dest: store_extD(4))

lemma cid_list_ext: "store_ext D s s' \<Longrightarrow> cid_list D t q s cs \<Longrightarrow> cid_list D t q s' cs"
  unfolding cid_list_def by (blast dest: store_extD(2))

lemma history_ext: "store_ext D s s' \<Longrightarrow> history D dec t q s xs \<Longrightarrow> history D dec t q s' xs"
  unfolding history_def by (blast dest: cid_list_ext stored_nodes_ext)

lemmas part_ext = present_at_ext balance_at_ext policy_at_ext history_ext

lemma tree_rel_ext: "store_ext D s s' \<Longrightarrow> tree_rel D t s nm a \<Longrightarrow> tree_rel D t s' nm a"
  by (cases a) (auto simp: tree_rel_def token_rel_def dest: store_extD(2) part_ext)

context dag_laws
begin

lemma present_at_frame:
  assumes "dag_writer D w" "w t p v s = (Ok t', s')" "independent p q"
  shows "present_at D t q s \<Longrightarrow> present_at D t' q s'"
  unfolding present_at_def by (blast dest: frame_resolve [OF assms])

lemma balance_at_frame:
  assumes "dag_writer D w" "w t p v s = (Ok t', s')" "independent p q"
  shows "balance_at D t q s b \<Longrightarrow> balance_at D t' q s' b"
  unfolding balance_at_def by (blast dest: frame_token [OF assms])

lemma policy_at_frame:
  assumes "dag_writer D w" "w t p v s = (Ok t', s')" "independent p q"
  shows "policy_at D t q s po \<Longrightarrow> policy_at D t' q s' po"
  unfolding policy_at_def by (blast dest: frame_policy [OF assms])

lemma history_frame:
  assumes "dag_writer D w" "w t p v s = (Ok t', s')" "independent p q"
  shows "history D dec t q s xs \<Longrightarrow> history D dec t' q s' xs"
  unfolding history_def cid_list_def
  by (blast dest: frame_resolve [OF assms] stored_nodes_ext [OF write_ext [OF assms(1,2)]])

lemmas part_frame = present_at_frame balance_at_frame policy_at_frame history_frame

lemma tree_rel_frame:
  assumes "dag_writer D w" "w t p v s = (Ok t', s')" "independent p (tpath nm)"
    "tree_rel D t s nm a"
  shows "tree_rel D t' s' nm a"
proof -
  have i: "independent p (tpath nm @ x)" for x
    using independent_extend [OF assms(3), of "[]" x] by simp
  show ?thesis
  proof (cases a)
    case None
    then show ?thesis using assms(4) frame_resolve [OF assms(1-3)] by (simp add: tree_rel_def)
  next
    case (Some k)
    from assms(4) show ?thesis
      unfolding Some tree_rel_def token_rel_def option.case
      by (blast intro: present_at_frame [OF assms(1-3)] balance_at_frame [OF assms(1-3)]
          policy_at_frame [OF assms(1,2) i] history_frame [OF assms(1,2) i])
  qed
qed

text \<open>Appending one node to a history and setting a new balance.\<close>

lemma append_history:
  assumes h: "cid_list D t (p @ [lbl]) s cs" "stored_nodes D dec s cs xs"
    and c: "dag_CreateNode D v s0 = (Ok n, s)" "dec (node_RawData n) = Ok x"
    and w: "dag_SetAsLink D t (p @ [lbl]) (GCids (cs @ [node_Cid n])) s = (Ok t', s')"
  shows "history D dec t' (p @ [lbl]) s' (xs @ [x])"
proof -
  have e: "store_ext D s s'" using write_ext [OF dag_writer_simps(2) w] .
  have g: "dag_Get D (node_Cid n) s' = Ok n"
    using create_get [OF c(1)] store_extD(1) [OF e] by blast
  have "stored_nodes D dec s' (cs @ [node_Cid n]) (xs @ [x])"
    using stored_nodes_ext [OF e h(2)] g c(2)
    by (simp add: stored_nodes_def list_all2_appendI)
  then show ?thesis
    unfolding history_def cid_list_def using link_cids [OF w] by blast
qed

lemma balance_after_link:
  assumes "dag_SetAsLink D t (p @ [lbl]) v s = (Ok t', s')"
    "lbl \<in> {MonetaryPolicyLabel, TokenMintLabel, TokenSendLabel, TokenReceiveLabel}"
    "balance_at D t p s b"
  shows "balance_at D t' p s' b"
  using assms link_keeps_balance [OF assms(1)] by (fastforce simp: balance_at_def label_consts)

lemma balance_after_set:
  assumes "dag_Set D t (p @ [TokenBalanceLabel]) (GUint64 b') s = (Ok t', s')" "balance_at D t p s b"
  shows "balance_at D t' p s' b'"
  using assms set_balance [of t p b' s t' s'] by (auto simp: balance_at_def label_consts)

lemma present_after_write:
  assumes "dag_writer D w" "w t (p @ q) v s = (Ok t', s')" "v \<noteq> GNil"
  shows "present_at D t' p s'"
  using write_ancestor [OF assms] by (auto simp: present_at_def)

text \<open>
  The last two writes of every operation: the list at \<^verbatim>\<open>lbl\<close> is replaced, then the balance.
\<close>

lemma list_and_balance:
  assumes w1: "dag_SetAsLink D t (p @ [lbl]) (GCids cs) s = (Ok t1, s1)"
    and w2: "dag_Set D t1 (p @ [TokenBalanceLabel]) (GUint64 b') s1 = (Ok t2, s2)"
    and lbl: "lbl \<in> {TokenMintLabel, TokenSendLabel, TokenReceiveLabel}"
    and b: "balance_at D t p s b"
  shows "present_at D t2 p s2" (is ?present)
    and "balance_at D t2 p s2 b'" (is ?balance)
    and "other \<notin> {lbl, TokenBalanceLabel} \<Longrightarrow> policy_at D t (p @ [other]) s po \<Longrightarrow>
           policy_at D t2 (p @ [other]) s2 po"
    and "other \<notin> {lbl, TokenBalanceLabel} \<Longrightarrow> history D dec t (p @ [other]) s xs \<Longrightarrow>
           history D dec t2 (p @ [other]) s2 xs"
    and "history D dec t1 (p @ [lbl]) s1 ys \<Longrightarrow> history D dec t2 (p @ [lbl]) s2 ys"
proof -
  show ?present using present_after_write [OF dag_writer_simps(1) w2] by simp
  have "balance_at D t1 p s1 b" using balance_after_link [OF w1 _ b] lbl by auto
  then show ?balance using balance_after_set [OF w2] by simp
  show "policy_at D t2 (p @ [other]) s2 po"
    if "other \<notin> {lbl, TokenBalanceLabel}" "policy_at D t (p @ [other]) s po"
    using that policy_at_frame [OF dag_writer_simps(2) w1] policy_at_frame [OF dag_writer_simps(1) w2]
    by auto
  show "history D dec t2 (p @ [other]) s2 xs"
    if "other \<notin> {lbl, TokenBalanceLabel}" "history D dec t (p @ [other]) s xs"
    using history_frame [OF dag_writer_simps(1) w2 _ history_frame [OF dag_writer_simps(2) w1 _ that(2)]]
      that(1) by auto
  show "history D dec t2 (p @ [lbl]) s2 ys" if "history D dec t1 (p @ [lbl]) s1 ys"
    using history_frame [OF dag_writer_simps(1) w2 _ that] lbl by (auto simp: label_consts)
qed

lemma create_rel:
  "ledger_rel D l a \<Longrightarrow> dag_CreateNode D v (l_store l) = (Ok n, s') \<Longrightarrow>
     ledger_rel D (l\<lparr>l_store := s'\<rparr>) a"
  using tree_rel_ext [OF create_ext] by (simp add: ledger_rel_def)

text \<open>
  What a tree holds of a token that may not be there: a missing one has empty lists, and if
  the library decodes it at all, its balance is zero.
\<close>

lemma missing_history: "resolves D t q s GNil \<Longrightarrow> history D dec t (q @ p) s []"
  using missing_below by (auto simp: history_def cid_list_def stored_nodes_def)

lemma tree_histories:
  assumes "tree_rel D t s nm a" "k = (case a of None \<Rightarrow> fresh_token None | Some k \<Rightarrow> k)"
  shows "policy_at D t (tpath nm @ [MonetaryPolicyLabel]) s (a_policy k)"
    and "history D (cbor_DecodeIntoReceive D) t (tpath nm @ [TokenMintLabel]) s (map mint_record (a_mints k))"
    and "history D (cbor_DecodeIntoSend D) t (tpath nm @ [TokenSendLabel]) s (a_sends k)"
    and "history D (cbor_DecodeIntoReceive D) t (tpath nm @ [TokenReceiveLabel]) s (a_receives k)"
  using assms
  by (cases a; simp add: tree_rel_def token_rel_def fresh_token_def missing_history policy_at_def)+

lemma tree_balance:
  assumes rel: "tree_rel D t s nm a" and e: "store_ext D s s'" and b: "balance_at D t (tpath nm) s' b"
  shows "balance_at D t (tpath nm) s b" "b = a_balance (case a of None \<Rightarrow> fresh_token None | Some k \<Rightarrow> k)"
proof -
  have "balance_at D t (tpath nm) s b \<and> b = a_balance (case a of None \<Rightarrow> fresh_token None | Some k \<Rightarrow> k)"
  proof (cases a)
    case None
    with rel have n: "resolves D t (tpath nm) s GNil" by (simp add: tree_rel_def)
    with e have "resolves D t (tpath nm) s' GNil" by (blast dest: store_extD(2))
    with n b None show ?thesis
      by (auto simp: balance_at_def fresh_token_def dest: missing_token)
  next
    case (Some k)
    with rel have "balance_at D t (tpath nm) s (a_balance k)" by (simp add: tree_rel_def token_rel_def)
    with b Some balance_at_ext [OF e this] show ?thesis by (auto simp: balance_at_def)
  qed
  then show "balance_at D t (tpath nm) s b" ..
  from \<open>balance_at D t (tpath nm) s b \<and> _\<close> show "b = a_balance (case a of None \<Rightarrow> fresh_token None | Some k \<Rightarrow> k)" ..
qed

text \<open>The common shape of a mint, a send and a receive: one node, one list, the balance.\<close>

lemma append_token:
  assumes rel: "balance_at D t (tpath nm) s b" "policy_at D t (tpath nm @ [MonetaryPolicyLabel]) s po"
    and c: "dag_CreateNode D v s = (Ok n, s1)" "dec (node_RawData n) = Ok x"
    and w1: "dag_SetAsLink D t (tpath nm @ [lbl]) (GCids (cs @ [node_Cid n])) s1 = (Ok t1, s2)"
    and w2: "dag_Set D t1 (tpath nm @ [TokenBalanceLabel]) (GUint64 b') s2 = (Ok t2, s3)"
    and lbl: "lbl \<in> {TokenMintLabel, TokenSendLabel, TokenReceiveLabel}"
    and h: "cid_list D t (tpath nm @ [lbl]) s cs" "stored_nodes D dec s cs xs"
  shows "present_at D t2 (tpath nm) s3" "balance_at D t2 (tpath nm) s3 b'"
    and "policy_at D t2 (tpath nm @ [MonetaryPolicyLabel]) s3 po"
    and "history D dec t2 (tpath nm @ [lbl]) s3 (xs @ [x])"
    and "other \<noteq> lbl \<Longrightarrow> other \<noteq> TokenBalanceLabel \<Longrightarrow>
      history D dec' t (tpath nm @ [other]) s ys \<Longrightarrow> history D dec' t2 (tpath nm @ [other]) s3 ys"
proof -
  have e: "store_ext D s s1" using create_ext [OF c(1)] .
  have b: "balance_at D t (tpath nm) s1 b"
    and pol: "policy_at D t (tpath nm @ [MonetaryPolicyLabel]) s1 po"
    using rel part_ext [OF e] by auto
  note lb = list_and_balance [OF w1 w2 lbl b]
  show "present_at D t2 (tpath nm) s3" "balance_at D t2 (tpath nm) s3 b'" by (rule lb(1), rule lb(2))
  show "policy_at D t2 (tpath nm @ [MonetaryPolicyLabel]) s3 po"
    using lb(3) [OF _ pol] lbl by (auto simp: label_consts)
  show "history D dec t2 (tpath nm @ [lbl]) s3 (xs @ [x])"
    using append_history [OF cid_list_ext [OF e h(1)] stored_nodes_ext [OF e h(2)] c w1] by (rule lb(5))
  show "history D dec' t2 (tpath nm @ [other]) s3 ys"
    if "other \<noteq> lbl" "other \<noteq> TokenBalanceLabel" "history D dec' t (tpath nm @ [other]) s ys"
    using lb(4) [OF _ history_ext [OF e that(3)]] that(1,2) by auto
qed

lemma mint_refines:
  assumes rel: "ledger_rel D l a" and run: "MintToken D amount l = (Ok t, l')"
    and k: "k = (case a of None \<Rightarrow> fresh_token None | Some k \<Rightarrow> k)"
  shows "spec_step (OpMint amount) a (add_mint amount k) \<and> ledger_rel D l' (Some (add_mint amount k))"
  using run
proof (rule MintToken_OkE)
  fix pol cids n s1 t1 s2 b s3
  let ?nm = "l_tokenName l"
  assume nz: "amount \<noteq> 0"
    and pol: "dag_ResolveIntoPolicy D (l_tree l) (tpath ?nm @ [MonetaryPolicyLabel]) (l_store l) = Ok pol"
    and cids: "tokenTransactionCidsForType D TokenMintLabel l = Ok cids"
    and cap: "0 < pol_Maximum pol \<Longrightarrow>
       \<exists>m. sum_loop D (l_store l) 0 cids = Ok m \<and> m + amount \<le> pol_Maximum pol"
    and c: "dag_CreateNode D (GTokenMint \<lparr>tm_Amount = amount\<rparr>) (l_store l) = (Ok n, s1)"
    and w1: "dag_SetAsLink D (l_tree l) (tpath ?nm @ [TokenMintLabel]) (GCids (cids @ [node_Cid n])) s1
      = (Ok t1, s2)"
    and b: "Balance D (l\<lparr>l_store := s2\<rparr>) = Ok b"
    and w2: "dag_Set D t1 (tpath ?nm @ [TokenBalanceLabel]) (GUint64 (b + amount)) s2 = (Ok t, s3)"
    and l': "l' = l\<lparr>l_store := s3, l_tree := t\<rparr>"
  from rel have tr: "tree_rel D (l_tree l) (l_store l) ?nm a" by (simp add: ledger_rel_def)
  note h = tree_histories [OF tr k]
  from h(2) obtain cs where cs: "cid_list D (l_tree l) (tpath ?nm @ [TokenMintLabel]) (l_store l) cs"
    "stored_nodes D (cbor_DecodeIntoReceive D) (l_store l) cs (map mint_record (a_mints k))"
    by (auto simp: history_def)
  with cids have [simp]: "cs = cids" using tokenTransactionCids_read by fastforce
  have e: "store_ext D (l_store l) s2"
    using store_ext_trans [OF create_ext [OF c] write_ext [OF dag_writer_simps(2) w1]] .
  have bal: "balance_at D (l_tree l) (tpath ?nm) (l_store l) b" and [simp]: "b = a_balance k"
    using tree_balance [OF tr e, of b] b k by (simp_all add: Balance_Ok_iff)
  have dec: "cbor_DecodeIntoReceive D (node_RawData n) = Ok (mint_record amount)"
    using decode_mint [OF c] by (simp add: mint_record_def)
  note at = append_token [OF bal h(1) c dec w1 w2 _ cs [simplified]]
  have "within_policy k amount"
    using h(1) pol cap sum_loop_eq [OF cs(2)]
    by (auto simp: within_policy_def policy_at_def word_gt_0 split: option.splits)
  with nz k have "spec_step (OpMint amount) a (add_mint amount k)"
    by (cases a) (auto intro: spec_step.intros)
  moreover have "ledger_rel D l' (Some (add_mint amount k))"
    using at(1-4) h l'
    by (simp add: ledger_rel_def tree_rel_def token_rel_def add_mint_def at(5))
  ultimately show ?thesis ..
qed

lemma send_refines:
  assumes rel: "ledger_rel D l a" and run: "SendToken D txId dest amount l = (Ok t, l')"
  obtains k where "a = Some k" "spec_step (OpSend txId dest amount) a (add_send txId dest amount k)"
    "ledger_rel D l' (Some (add_send txId dest amount k))"
  using run
proof (rule SendToken_OkE)
  fix b n s1 cids t1 s2 s3
  let ?nm = "l_tokenName l"
  let ?snd = "\<lparr>ts_Id = txId, ts_Amount = amount, ts_Destination = dest\<rparr>"
  assume nz: "amount \<noteq> 0" and b: "Balance D l = Ok b" and le: "amount \<le> b"
    and c: "dag_CreateNode D (GTokenSend ?snd) (l_store l) = (Ok n, s1)"
    and cids: "tokenTransactionCidsForType D TokenSendLabel (l\<lparr>l_store := s1\<rparr>) = Ok cids"
    and w1: "dag_SetAsLink D (l_tree l) (tpath ?nm @ [TokenSendLabel]) (GCids (cids @ [node_Cid n])) s1
      = (Ok t1, s2)"
    and w2: "dag_Set D t1 (tpath ?nm @ [TokenBalanceLabel]) (GUint64 (b - amount)) s2 = (Ok t, s3)"
    and l': "l' = l\<lparr>l_store := s3, l_tree := t\<rparr>"
  from rel have rel': "tree_rel D (l_tree l) (l_store l) ?nm a" by (simp add: ledger_rel_def)
  have "b = a_balance (case a of None \<Rightarrow> fresh_token None | Some k \<Rightarrow> k)"
    using tree_balance(2) [OF rel' store_ext_refl] b by (simp add: Balance_Ok_iff)
  with nz le obtain k where a: "a = Some k" by (cases a) (auto simp: fresh_token_def)
  with rel' have tr: "token_rel D (l_tree l) (l_store l) ?nm k" by (simp add: tree_rel_def)
  then obtain cs where cs: "cid_list D (l_tree l) (tpath ?nm @ [TokenSendLabel]) (l_store l) cs"
    "stored_nodes D (cbor_DecodeIntoSend D) (l_store l) cs (a_sends k)"
    by (auto simp: token_rel_def history_def)
  have "tokenTransactionCidsForType D TokenSendLabel (l\<lparr>l_store := s1\<rparr>) = Ok cs"
    using cid_list_ext [OF create_ext [OF c] cs(1)] by (simp add: tokenTransactionCids_read)
  with cids have [simp]: "cs = cids" by simp
  from b tr have [simp]: "b = a_balance k"
    using Balance_read by (fastforce simp: token_rel_def)
  have bal: "balance_at D (l_tree l) (tpath ?nm) (l_store l) (a_balance k)"
    and pol: "policy_at D (l_tree l) (tpath ?nm @ [MonetaryPolicyLabel]) (l_store l) (a_policy k)"
    using tr by (simp_all add: token_rel_def)
  note at = append_token [OF bal pol c decode_send [OF c] w1 w2 _ cs [simplified]]
  have "spec_step (OpSend txId dest amount) a (add_send txId dest amount k)"
    using nz le a by (auto intro: spec_step.send)
  moreover have "ledger_rel D l' (Some (add_send txId dest amount k))"
    using at(1-4) tr l'
    by (simp add: ledger_rel_def tree_rel_def token_rel_def add_send_def at(5))
  ultimately show ?thesis using a that by blast
qed

lemma create_refines:
  assumes run: "createToken D l = (Ok t, l')"
  shows "ledger_rel D l' (Some (fresh_token None))"
  using run
proof (rule createToken_OkE)
  fix t1 s1 s2
  let ?p = "tpath (l_tokenName l)"
  assume w1: "dag_SetAsLink D (l_tree l) ?p (GToken zero_Token) (l_store l) = (Ok t1, s1)"
    and w2: "dag_Set D t1 (?p @ [TokenBalanceLabel]) (GUint64 0) s1 = (Ok t, s2)"
    and l': "l' = l\<lparr>l_store := s2, l_tree := t\<rparr>"
  have h: "history D dec t (?p @ [lbl]) s2 []"
    if "lbl \<in> {TokenMintLabel, TokenSendLabel, TokenReceiveLabel}" for dec :: "bytes \<Rightarrow> 'x res" and lbl
  proof -
    have "history D dec t1 (?p @ [lbl]) s1 []"
      using link_token_fields [OF w1] that
      by (auto simp: history_def cid_list_def stored_nodes_def label_consts)
    from history_frame [OF dag_writer_simps(1) w2 _ this] that show ?thesis
      by (auto simp: label_consts)
  qed
  have "balance_at D t ?p s2 0"
    using balance_after_set [OF w2] link_token [OF w1] by (auto simp: balance_at_def)
  moreover have "present_at D t ?p s2"
    using present_after_write [OF dag_writer_simps(1) w2] by simp
  ultimately show ?thesis
    using l' by (simp add: ledger_rel_def tree_rel_def token_rel_def policy_at_def fresh_token_def h)
qed

lemma establish_refines:
  assumes run: "EstablishToken D pol l = (Ok t, l')"
  shows "ledger_rel D l' (Some (fresh_token (Some pol)))"
  using run
proof (rule EstablishToken_OkE)
  fix t1 s2 and l1 :: "'s TreeLedger"
  let ?p = "tpath (l_tokenName l1)"
  assume c: "createToken D l = (Ok t1, l1)"
    and w: "dag_SetAsLink D t1 (?p @ [MonetaryPolicyLabel]) (GPolicy pol) (l_store l1) = (Ok t, s2)"
    and l': "l' = l1\<lparr>l_store := s2, l_tree := t\<rparr>"
  have [simp]: "l_tree l1 = t1" using c by (auto elim: createToken_OkE)
  have tr: "token_rel D t1 (l_store l1) (l_tokenName l1) (fresh_token None)"
    using create_refines [OF c] by (simp add: ledger_rel_def tree_rel_def)
  have "balance_at D t ?p s2 0"
    using balance_after_link [OF w] tr by (simp add: token_rel_def fresh_token_def)
  moreover have "present_at D t ?p s2" using present_after_write [OF dag_writer_simps(2) w] by simp
  ultimately show ?thesis
    using tr l' link_policy [OF w]
    by (simp add: ledger_rel_def tree_rel_def token_rel_def policy_at_def fresh_token_def
        history_frame [OF dag_writer_simps(2) w])
qed

lemma receive_refines:
  assumes rel: "ledger_rel D l a" and run: "ReceiveToken D sid amount l = (Ok t, l')"
  shows "\<exists>k'. spec_step (OpReceive sid amount) a k' \<and> ledger_rel D l' (Some k')"
  using run
proof (rule ReceiveToken_OkE)
  fix x cids n s1 t1 s2 b s3 and l1 :: "'s TreeLedger"
  let ?nm = "l_tokenName l" and ?k = "case a of None \<Rightarrow> fresh_token None | Some k \<Rightarrow> k"
  let ?rcv = "\<lparr>tr_SendTokenTransactionId = sid, tr_Amount = amount\<rparr>"
  assume x: "TokenExists D l = Ok x" and l1: "x \<Longrightarrow> l1 = l" "\<not> x \<Longrightarrow> \<exists>t0. createToken D l = (Ok t0, l1)"
    and nm: "l_tokenName l1 = ?nm"
    and cids: "tokenTransactionCidsForType D TokenReceiveLabel l1 = Ok cids"
    and chk: "check_receives D (l_store l1) sid cids = Ok ()"
    and c: "dag_CreateNode D (GTokenReceive ?rcv) (l_store l1) = (Ok n, s1)"
    and w1: "dag_SetAsLink D (l_tree l1) (tpath ?nm @ [TokenReceiveLabel])
       (GCids (cids @ [node_Cid n])) s1 = (Ok t1, s2)"
    and b: "Balance D (l1\<lparr>l_store := s2\<rparr>) = Ok b"
    and w2: "dag_Set D t1 (tpath ?nm @ [TokenBalanceLabel]) (GUint64 (b + amount)) s2 = (Ok t, s3)"
    and l': "l' = l1\<lparr>l_store := s3, l_tree := t\<rparr>"
  have tr: "token_rel D (l_tree l1) (l_store l1) ?nm ?k"
    using rel x l1 TokenExists_read [OF rel] nm
    by (cases a) (auto simp: ledger_rel_def tree_rel_def dest: create_refines)
  then obtain cs where cs: "cid_list D (l_tree l1) (tpath ?nm @ [TokenReceiveLabel]) (l_store l1) cs"
    "stored_nodes D (cbor_DecodeIntoReceive D) (l_store l1) cs (a_receives ?k)"
    by (auto simp: token_rel_def history_def)
  then have "tokenTransactionCidsForType D TokenReceiveLabel l1 = Ok cs"
    using nm by (simp add: tokenTransactionCids_read)
  with cids have [simp]: "cs = cids" by simp
  have "store_ext D (l_store l1) s2"
    using store_ext_trans [OF create_ext [OF c] write_ext [OF dag_writer_simps(2) w1]] .
  moreover have bal: "balance_at D (l_tree l1) (tpath ?nm) (l_store l1) (a_balance ?k)"
    and pol: "policy_at D (l_tree l1) (tpath ?nm @ [MonetaryPolicyLabel]) (l_store l1) (a_policy ?k)"
    using tr by (simp_all add: token_rel_def)
  ultimately have [simp]: "b = a_balance ?k"
    using nm b balance_at_ext by (fastforce simp: Balance_Ok_iff balance_at_def)
  note at = append_token [OF bal pol c decode_receive [OF c] w1 w2 _ cs [simplified]]
  have "sid \<notin> set (received_ids ?k)"
    using chk check_receives_eq [OF cs(2)] by (auto simp: received_ids_def split: if_splits)
  then have "spec_step (OpReceive sid amount) a (add_receive sid amount ?k)"
    by (cases a) (auto intro: spec_step.intros)
  moreover have "ledger_rel D l' (Some (add_receive sid amount ?k))"
    using at(1-4) tr l' nm
    by (simp add: ledger_rel_def tree_rel_def token_rel_def add_receive_def at(5))
  ultimately show ?thesis by blast
qed

end

section \<open>The ledger as an instance of the interface\<close>

primrec run_op :: "'s dag_lib \<Rightarrow> ledger_op \<Rightarrow> ('s TreeLedger, cid) eff" where
  "run_op D (OpEstablish pol) = EstablishToken D pol"
| "run_op D (OpMint amount) = MintToken D amount"
| "run_op D (OpSend txId dest amount) = SendToken D txId dest amount"
| "run_op D (OpReceive sid amount) = ReceiveToken D sid amount"

lemma receive_refused:
  assumes "ledger_rel D l (Some k)" "sid \<in> set (received_ids k)"
  shows "ReceiveToken D sid amount l = (Fail already_received, l)"
proof -
  have tr: "token_rel D (l_tree l) (l_store l) (l_tokenName l) k"
    using assms(1) by (simp add: ledger_rel_def tree_rel_def)
  then obtain cs where
    cs: "cid_list D (l_tree l) (tpath (l_tokenName l) @ [TokenReceiveLabel]) (l_store l) cs"
    "stored_nodes D (cbor_DecodeIntoReceive D) (l_store l) cs (a_receives k)"
    by (auto simp: token_rel_def history_def)
  show ?thesis
    using TokenExists_read [OF assms(1)] tokenTransactionCids_read [OF cs(1)]
      check_receives_eq [OF cs(2), of sid] assms(2)
    by (simp add: ReceiveToken_def eff_defs received_ids_def)
qed

sublocale dag_laws \<subseteq> tree: token_ledger "run_op D" "Balance D" "TokenExists D" "ledger_rel D"
proof
  fix l :: "'s TreeLedger" and a op t l'
  assume rel: "ledger_rel D l a" and run: "run_op D op l = (Ok t, l')"
  show "\<exists>k'. spec_step op a k' \<and> ledger_rel D l' (Some k')"
  proof (cases op)
    case (OpEstablish pol)
    with run show ?thesis by (auto intro: spec_step.establish dest: establish_refines)
  next
    case (OpMint amount)
    with run mint_refines [OF rel _ refl] show ?thesis by fastforce
  next
    case (OpSend txId dest amount)
    with run show ?thesis by (auto elim: send_refines [OF rel])
  next
    case (OpReceive sid amount)
    with run receive_refines [OF rel] show ?thesis by fastforce
  qed
next
  fix l :: "'s TreeLedger" and k
  assume "ledger_rel D l (Some k)"
  then show "Balance D l = Ok (a_balance k)"
    by (simp add: ledger_rel_def tree_rel_def token_rel_def Balance_read)
qed (simp_all add: TokenExists_read receive_refused)

end
