(* ===== verification/Ids.thy ===== *)
theory Ids
  imports Messages
begin

unbundle bit_operations_syntax

text \<open>
  \<^verbatim>\<open>src/consensus/ids.go\<close>: the identifiers of requests and conflict sets and the byte string
  a tree state is signed as. The hash \<^verbatim>\<open>crypto.Keccak256\<close> is a parameter.
\<close>

section \<open>The functions\<close>

text \<open>\<^verbatim>\<open>binary.BigEndian.PutUint64\<close> into a fresh slice of eight bytes.\<close>

definition uint64ToBytes :: "u64 \<Rightarrow> bytes" where
  "uint64ToBytes i = map (\<lambda>k. ucast (drop_bit (8 * k) i)) (rev [0..<8])"

fun appendMultiple_loop :: "bytes \<Rightarrow> bytes list \<Rightarrow> bytes" where
  "appendMultiple_loop retSlice [] = retSlice"
| "appendMultiple_loop retSlice (b # bits) = appendMultiple_loop (retSlice @ b) bits"

definition appendMultiple :: "bytes list \<Rightarrow> bytes" where
  "appendMultiple bits = appendMultiple_loop [] bits"

definition RequestID :: "(bytes \<Rightarrow> bytes) \<Rightarrow> AddBlockRequest \<Rightarrow> bytes" where
  "RequestID keccak req = keccak (appendMultiple
     [abr_ObjectId req, abr_PreviousTip req, uint64ToBytes (abr_Height req), abr_NewTip req,
      abr_Payload req])"

definition ConflictSetID :: "(bytes \<Rightarrow> bytes) \<Rightarrow> bytes \<Rightarrow> u64 \<Rightarrow> bytes" where
  "ConflictSetID keccak objectID height = keccak (objectID @ uint64ToBytes height)"

definition GetSignable :: "TreeState \<Rightarrow> bytes" where
  "GetSignable sig = appendMultiple
     [tst_ObjectId sig, tst_PreviousTip sig, tst_NewTip sig,
      uint64ToBytes (tst_View sig), uint64ToBytes (tst_Cycle sig)]"

section \<open>Facts\<close>

text \<open>Reading eight bytes back, most significant first.\<close>

definition u64_of_bytes :: "bytes \<Rightarrow> u64" where
  "u64_of_bytes bs = foldl (\<lambda>acc b. push_bit 8 acc OR ucast b) 0 bs"

lemma length_uint64ToBytes [simp]: "length (uint64ToBytes i) = 8"
  by (simp add: uint64ToBytes_def)

lemma uint64ToBytes_ne [simp]: "uint64ToBytes i \<noteq> []"
  using length_uint64ToBytes [of i] by (metis list.size(3) zero_neq_numeral)

lemma bit_u64_foldl:
  "n < 64 \<Longrightarrow> bit (foldl (\<lambda>acc b. push_bit 8 acc OR ucast b) 0 bs :: u64) n \<longleftrightarrow>
     n div 8 < length bs \<and> bit (rev bs ! (n div 8) :: byte) (n mod 8)"
proof (induction bs arbitrary: n rule: rev_induct)
  case (snoc b bs)
  show ?case
  proof (cases "n < 8")
    case True
    then show ?thesis by (simp add: bit_or_iff bit_push_bit_iff bit_ucast_iff)
  next
    case False
    then have "(n - 8) div 8 = n div 8 - 1" "(n - 8) mod 8 = n mod 8" "0 < n div 8"
      by (simp_all add: le_mod_geq le_div_geq)
    then have "n div 8 < Suc (length bs) \<longleftrightarrow> (n - 8) div 8 < length bs" by linarith
    moreover from False have "\<not> bit b n" using bit_imp_le_length [of b n] by auto
    ultimately show ?thesis
      using snoc.IH [of "n - 8"] snoc.prems False \<open>0 < n div 8\<close>
        \<open>(n - 8) div 8 = n div 8 - 1\<close> \<open>(n - 8) mod 8 = n mod 8\<close>
      by (auto simp: bit_or_iff bit_push_bit_iff bit_ucast_iff nth_Cons')
  qed
qed simp

lemma u64_of_uint64ToBytes [simp]: "u64_of_bytes (uint64ToBytes i) = i"
proof (rule bit_word_eqI)
  fix n assume n: "n < LENGTH(64)"
  then have "rev (uint64ToBytes i) ! (n div 8) = ucast (drop_bit (8 * (n div 8)) i)"
    by (simp add: uint64ToBytes_def rev_map nth_upt div_less_iff_less_mult del: upt_rec_numeral)
  with n show "bit (u64_of_bytes (uint64ToBytes i)) n = bit i n"
    by (simp add: u64_of_bytes_def bit_u64_foldl bit_ucast_iff bit_drop_bit_eq mult.commute
        div_less_iff_less_mult)
qed

lemma appendMultiple_concat [simp]: "appendMultiple bits = concat bits"
proof -
  have "appendMultiple_loop acc bits = acc @ concat bits" for acc
    by (induction bits arbitrary: acc) auto
  then show ?thesis by (simp add: appendMultiple_def)
qed

lemma uint64ToBytes_inj [simp]: "uint64ToBytes i = uint64ToBytes j \<longleftrightarrow> i = j"
  by (metis u64_of_uint64ToBytes)

text \<open>Byte strings that end in fixed-size parts are equal when their parts are.\<close>

lemma append_u64_inj [simp]: "xs @ uint64ToBytes i = ys @ uint64ToBytes j \<longleftrightarrow> xs = ys \<and> i = j"
  by (simp add: append_eq_same_length)

end
