(* ===== verification/Ref_Dag.thy ===== *)
theory Ref_Dag
  imports Ledger_Refinement Ids
begin

text \<open>
  A small executable DAG library that satisfies the laws of \<^verbatim>\<open>dag_total\<close>: a tree is the
  list of its writes, newest first, a tip is the number of its tree, and a node's CID is
  its content. It shows that the laws can hold together and gives concrete inputs to the
  properties that assume them.
\<close>

section \<open>Trees as lists of writes\<close>

type_synonym wlog = "(path \<times> goval) list"

record ref_store =
  rs_trees :: "wlog list"
  rs_nodes :: "bytes list"

fun ref_norm :: "goval \<Rightarrow> goval" where
  "ref_norm (GCids cs) = GList (map GCid cs)"
| "ref_norm v = v"

fun ref_sub :: "goval \<Rightarrow> path \<Rightarrow> goval" where
  "ref_sub v [] = ref_norm v"
| "ref_sub v (k # r) = GNil"

fun ref_key :: "string \<Rightarrow> goval \<Rightarrow> goval" where
  "ref_key k (GMap kvs) = GMap (if k \<in> fst ` set kvs then kvs else kvs @ [(k, GBool True)])"
| "ref_key k v = GMap [(k, GBool True)]"

fun ref_look :: "wlog \<Rightarrow> path \<Rightarrow> goval" where
  "ref_look [] q = GNil"
| "ref_look ((p, v) # ws) q =
     (if prefix p q then ref_sub v (drop (length p) q)
      else if prefix q p then ref_key (p ! length q) (ref_look ws q)
      else ref_look ws q)"

fun ref_token :: "wlog \<Rightarrow> path \<Rightarrow> Token option" where
  "ref_token [] q = None"
| "ref_token ((p, v) # ws) q =
     (if p = q then (case v of GToken t \<Rightarrow> Some t | _ \<Rightarrow> None)
      else if prefix p q then None
      else (case ref_token ws q of
          None \<Rightarrow> None
        | Some t \<Rightarrow> (case v of
              GUint64 b \<Rightarrow> Some (if p = q @ [''balance''] then t\<lparr>tok_Balance := b\<rparr> else t)
            | _ \<Rightarrow> Some t)))"

fun ref_policy :: "wlog \<Rightarrow> path \<Rightarrow> TokenMonetaryPolicy option" where
  "ref_policy [] q = None"
| "ref_policy ((p, v) # ws) q =
     (if p = q then (case v of GPolicy t \<Rightarrow> Some t | _ \<Rightarrow> None)
      else if prefix p q \<or> prefix q p then None
      else ref_policy ws q)"

section \<open>Nodes and their encoding\<close>

definition enc_str :: "string \<Rightarrow> bytes" where
  "enc_str s = concat (map (\<lambda>c. [1, of_nat (of_char c)]) s) @ [0]"

fun dec_str :: "bytes \<Rightarrow> string \<times> bytes" where
  "dec_str (x # b # bs) =
     (if x = 0 then ([], b # bs) else (case dec_str bs of (s, r) \<Rightarrow> (char_of (unat b) # s, r)))"
| "dec_str bs = ([], [])"

fun ref_enc :: "goval \<Rightarrow> bytes" where
  "ref_enc (GTokenMint m) = 0 # uint64ToBytes (tm_Amount m)"
| "ref_enc (GTokenReceive r) = 1 # uint64ToBytes (tr_Amount r) @ enc_str (tr_SendTokenTransactionId r)"
| "ref_enc (GTokenSend t) = 2 # uint64ToBytes (ts_Amount t) @ enc_str (ts_Id t) @ enc_str (ts_Destination t)"
| "ref_enc v = [3]"

definition ref_dec_receive :: "bytes \<Rightarrow> TokenReceive res" where
  "ref_dec_receive bs =
     (if bs = [] then Fail (LibErr ''cbor'')
      else if hd bs = 0 then Ok \<lparr>tr_SendTokenTransactionId = [], tr_Amount = u64_of_bytes (tl bs)\<rparr>
      else if hd bs = 1 then Ok \<lparr>tr_SendTokenTransactionId = fst (dec_str (drop 8 (tl bs))),
             tr_Amount = u64_of_bytes (take 8 (tl bs))\<rparr>
      else Fail (LibErr ''cbor''))"

definition ref_dec_send :: "bytes \<Rightarrow> TokenSend res" where
  "ref_dec_send bs =
     (if bs \<noteq> [] \<and> hd bs = 2 then
        (case dec_str (drop 8 (tl bs)) of (i, r) \<Rightarrow>
           Ok \<lparr>ts_Id = i, ts_Amount = u64_of_bytes (take 8 (tl bs)), ts_Destination = fst (dec_str r)\<rparr>)
      else Fail (LibErr ''cbor''))"

section \<open>The library\<close>

definition ref_tip :: "nat \<Rightarrow> cid" where
  "ref_tip i = Cid (0 # replicate i 0)"

definition ref_tree :: "ref_store \<Rightarrow> cid \<Rightarrow> wlog option" where
  "ref_tree s t = (case cid_Bytes t of
       [] \<Rightarrow> None
     | b # bs \<Rightarrow> if b = 0 \<and> length bs < length (rs_trees s) then Some (rs_trees s ! length bs) else None)"

definition ref_read :: "(wlog \<Rightarrow> path \<Rightarrow> 'x option) \<Rightarrow> cid \<Rightarrow> path \<Rightarrow> ref_store \<Rightarrow> 'x res" where
  "ref_read f t q s = (case ref_tree s t of
       None \<Rightarrow> Fail (LibErr ''not found'')
     | Some ws \<Rightarrow> (case f ws q of None \<Rightarrow> Fail (LibErr ''not found'') | Some x \<Rightarrow> Ok x))"

definition ref_resolve :: "wlog \<Rightarrow> path \<Rightarrow> (goval \<times> path) option" where
  "ref_resolve ws q = (let v = ref_look ws q in Some (v, if v = GNil then q else []))"

definition ref_write :: "cid \<Rightarrow> path \<Rightarrow> goval \<Rightarrow> (ref_store, cid) eff" where
  "ref_write t p v = (\<lambda>s.
     (Ok (ref_tip (length (rs_trees s))),
      s\<lparr>rs_trees := rs_trees s @ [(p, v) # (case ref_tree s t of None \<Rightarrow> [] | Some ws \<Rightarrow> ws)]\<rparr>))"

definition ref_get :: "cid \<Rightarrow> ref_store \<Rightarrow> node res" where
  "ref_get c s = (case cid_Bytes c of
       [] \<Rightarrow> Fail (LibErr ''not found'')
     | b # raw \<Rightarrow> if b = 1 \<and> raw \<in> set (rs_nodes s) then Ok \<lparr>node_Cid = c, node_RawData = raw\<rparr>
                  else Fail (LibErr ''not found''))"

definition ref_create :: "goval \<Rightarrow> (ref_store, node) eff" where
  "ref_create v = (\<lambda>s. (Ok \<lparr>node_Cid = Cid (1 # ref_enc v), node_RawData = ref_enc v\<rparr>,
     s\<lparr>rs_nodes := ref_enc v # rs_nodes s\<rparr>))"

definition ref_dag :: "ref_store dag_lib" where
  "ref_dag = \<lparr>
     dag_Resolve = ref_read ref_resolve,
     dag_ResolveIntoToken = ref_read ref_token,
     dag_ResolveIntoPolicy = ref_read ref_policy,
     dag_Get = ref_get,
     dag_NodesForPath = (\<lambda>t q s. Ok []),
     dag_SetAsLink = ref_write,
     dag_Set = ref_write,
     dag_CreateNode = ref_create,
     dag_NewDagWithNodes = (\<lambda>ns. Ok (ref_tip 0, \<lparr>rs_trees = [[]], rs_nodes = map node_RawData ns\<rparr>)),
     cbor_DecodeInto = (\<lambda>bs. Ok (GBytes bs)),
     cbor_DecodeIntoReceive = ref_dec_receive,
     cbor_DecodeIntoSend = ref_dec_send,
     sw_Decode = (\<lambda>bs. Ok \<lparr>node_Cid = Cid (1 # bs), node_RawData = bs\<rparr>),
     cid_Cast = (\<lambda>bs. Ok (Cid bs)),
     cid_String = (\<lambda>c. map (\<lambda>b. char_of (unat b)) (cid_Bytes c))\<rparr>"

text \<open>A store with one empty tree.\<close>

definition ref_start :: ref_store where
  "ref_start = \<lparr>rs_trees = [[]], rs_nodes = []\<rparr>"

section \<open>The laws\<close>

lemma char_byte [simp]: "char_of (unat (of_nat (of_char c) :: byte)) = c"
  by (simp add: unat_of_nat del: of_nat_of_char)

lemma dec_enc_str [simp]: "bs \<noteq> [] \<Longrightarrow> dec_str (enc_str s @ bs) = (s, bs)"
  by (induction s) (auto simp: enc_str_def neq_Nil_conv)

lemma dec_enc_str_end [simp]: "fst (dec_str (enc_str s)) = s"
proof (induction s)
  case (Cons c s)
  then show ?case
    by (cases "dec_str (enc_str s)") (simp add: enc_str_def split: prod.splits)
qed (simp add: enc_str_def)

lemma enc_str_ne [simp]: "enc_str s \<noteq> []"
  by (simp add: enc_str_def)

lemma ref_key_ne [simp]: "ref_key k v \<noteq> GNil"
  by (cases v) auto

lemma ref_norm_nil [simp]: "ref_norm v = GNil \<longleftrightarrow> v = GNil"
  by (cases v) auto

lemma ref_look_ne: "v \<noteq> GNil \<Longrightarrow> ref_look ((q @ p, v) # ws) q \<noteq> GNil"
  by (cases "p = []") auto

lemma ref_look_below: "ref_look ws q = GNil \<Longrightarrow> ref_look ws (q @ r) = GNil"
proof (induction ws)
  case (Cons w ws)
  obtain p v where w: "w = (p, v)" by force
  consider (at) "prefix p q" | (over) "\<not> prefix p q" "prefix q p" | (apart) "\<not> prefix p q" "\<not> prefix q p" by blast
  then show ?case
  proof cases
    case at
    with Cons.prems w have "ref_sub v (drop (length p) q @ r) = GNil"
      by (cases "drop (length p) q"; cases r) auto
    with at w show ?thesis by (auto simp: prefix_def)
  next
    case over
    with Cons.prems w show ?thesis by simp
  next
    case apart
    then have "\<not> prefix p (q @ r)" "\<not> prefix (q @ r) p"
      by (metis prefixI prefix_same_cases, metis append_prefixD)
    with apart Cons w show ?thesis by simp
  qed
qed simp

lemma ref_token_missing: "ref_look ws q = GNil \<Longrightarrow> ref_token ws q = None"
  by (induction ws q rule: ref_token.induct) (auto split: if_splits goval.splits)

text \<open>Reading a tree after one write.\<close>

definition written :: "path \<Rightarrow> goval \<Rightarrow> cid \<Rightarrow> ref_store \<Rightarrow> wlog" where
  "written p v t s = (p, v) # (case ref_tree s t of None \<Rightarrow> [] | Some ws \<Rightarrow> ws)"

lemma ref_write_OkD:
  assumes "ref_write t p v s = (Ok t', s')"
  shows "ref_tree s' t' = Some (written p v t s)"
  using assms by (auto simp: ref_write_def ref_tree_def ref_tip_def written_def)

lemma ref_read_Ok_iff: "ref_read f t q s = Ok x \<longleftrightarrow> (\<exists>ws. ref_tree s t = Some ws \<and> f ws q = Some x)"
  by (auto simp: ref_read_def split: option.splits)

lemma ref_tree_mono:
  "ref_tree s t = Some ws \<Longrightarrow> rs_trees s' = rs_trees s @ ext \<Longrightarrow> ref_tree s' t = Some ws"
  by (auto simp: ref_tree_def nth_append split: list.splits if_splits)

lemma ref_get_mono:
  "ref_get c s = Ok n \<Longrightarrow> set (rs_nodes s) \<subseteq> set (rs_nodes s') \<Longrightarrow> ref_get c s' = Ok n"
  by (auto simp: ref_get_def split: list.splits if_splits)

lemma ref_ext:
  assumes "rs_trees s' = rs_trees s @ ext" "set (rs_nodes s) \<subseteq> set (rs_nodes s')"
  shows "store_ext ref_dag s s'"
  using ref_tree_mono [OF _ assms(1)] ref_get_mono [OF _ assms(2)]
  by (fastforce simp: store_ext_def ref_dag_def ref_read_Ok_iff)

lemma ref_resolves_iff:
  "resolves ref_dag t q s v \<longleftrightarrow> (\<exists>ws. ref_tree s t = Some ws \<and> ref_look ws q = v)"
  by (auto simp: resolves_def ref_dag_def ref_read_Ok_iff ref_resolve_def Let_def)

lemma ref_writer: "dag_writer ref_dag w \<longleftrightarrow> w = ref_write"
  by (auto simp: dag_writer_def ref_dag_def)

lemma ref_fields [simp]:
  "dag_SetAsLink ref_dag = ref_write" "dag_Set ref_dag = ref_write"
  "dag_CreateNode ref_dag = ref_create" "dag_Get ref_dag = ref_get"
  "dag_ResolveIntoToken ref_dag = ref_read ref_token"
  "dag_ResolveIntoPolicy ref_dag = ref_read ref_policy"
  "cbor_DecodeIntoReceive ref_dag = ref_dec_receive" "cbor_DecodeIntoSend ref_dag = ref_dec_send"
  by (simp_all add: ref_dag_def)

interpretation ref: dag_total ref_dag
proof unfold_locales
  fix w t p v s r s'
  assume "dag_writer ref_dag w" "w t p v s = (r, s')"
  then show "store_ext ref_dag s s'"
    by (auto simp: ref_writer ref_write_def intro: ref_ext)
next
  fix v s r' s'
  assume "dag_CreateNode ref_dag v s = (r', s')"
  then show "store_ext ref_dag s s'"
    by (auto simp: ref_create_def intro: ref_ext [where ext = "[]"])
next
  fix w t q p v s t' s'
  assume "dag_writer ref_dag w" "w t (q @ p) v s = (Ok t', s')" "v \<noteq> GNil"
  then show "\<exists>x. resolves ref_dag t' q s' x \<and> x \<noteq> GNil"
    using ref_write_OkD [of t "q @ p" v s t' s'] ref_look_ne
    by (auto simp: ref_writer ref_resolves_iff written_def)
next
  fix t p b s t' s' tok
  assume "dag_Set ref_dag t (p @ [''balance'']) (GUint64 b) s = (Ok t', s')"
    "dag_ResolveIntoToken ref_dag t p s = Ok tok"
  then show "\<exists>tok'. dag_ResolveIntoToken ref_dag t' p s' = Ok tok' \<and> tok_Balance tok' = b"
    by (auto simp: ref_read_Ok_iff written_def dest!: ref_write_OkD)
next
  fix t p lbl v s t' s' tok
  assume "dag_SetAsLink ref_dag t (p @ [lbl]) v s = (Ok t', s')"
    "lbl \<in> {''monetaryPolicy'', ''mints'', ''sends'', ''receives''}"
    "dag_ResolveIntoToken ref_dag t p s = Ok tok"
  then show "\<exists>tok'. dag_ResolveIntoToken ref_dag t' p s' = Ok tok' \<and> tok_Balance tok' = tok_Balance tok"
    by (auto simp: ref_read_Ok_iff written_def split: goval.splits dest!: ref_write_OkD)
next
  fix t q s p
  assume "resolves ref_dag t q s GNil"
  then show "resolves ref_dag t (q @ p) s GNil" by (auto simp: ref_resolves_iff ref_look_below)
next
  fix t q s tok t' q' s'
  assume "resolves ref_dag t q s GNil" "dag_ResolveIntoToken ref_dag t q s = Ok tok"
  then show "tok_Balance tok = 0 \<and>
      (resolves ref_dag t' q' s' GNil \<longrightarrow> dag_ResolveIntoToken ref_dag t' q' s' = Ok tok)"
    by (auto simp: ref_resolves_iff ref_read_Ok_iff ref_token_missing)
next
  fix w t p v s
  assume "dag_writer ref_dag w"
  then show "\<exists>t' s'. w t p v s = (Ok t', s')" by (simp add: ref_writer ref_write_def)
qed (auto simp: ref_writer ref_resolves_iff ref_read_Ok_iff written_def independent_def ref_create_def
    ref_get_def ref_dec_receive_def ref_dec_send_def split: goval.splits dest!: ref_write_OkD)

end
