(* ===== verification/Ledger_Runs.thy ===== *)
theory Ledger_Runs
  imports Ref_Dag
begin

text \<open>
  Whole histories of ledger operations. An operation on one token leaves every other token
  of the tree as it was, whatever the outcome it never loses nodes of the store, and
  along any sequence of operations every token of the tree satisfies the invariant of the
  abstract ledger. The properties of the ledger methods are stated here for any DAG
  library with the laws of \<^verbatim>\<open>dag_laws\<close>, and applied to the reference library.
\<close>

section \<open>Stores only grow\<close>

definition ledger_ext :: "'s dag_lib \<Rightarrow> 's TreeLedger \<Rightarrow> 's TreeLedger \<Rightarrow> bool" where
  "ledger_ext D l l' \<longleftrightarrow> l_tokenName l' = l_tokenName l \<and> store_ext D (l_store l) (l_store l')"

lemma ledger_ext_order: "reflp (ledger_ext D)" "transp (ledger_ext D)"
  by (auto intro!: reflpI transpI simp: ledger_ext_def intro: store_ext_trans)

lemma keeps_on_store: "keeps (store_ext D) m \<Longrightarrow> keeps (ledger_ext D) (on_store m)"
  by (simp add: keeps_def on_store_def ledger_ext_def case_prod_beta)

lemma keeps_get_tree: "keeps (ledger_ext D) get_tree"
  by (simp add: keeps_def get_tree_def ledger_ext_def)

lemma keeps_set_tree: "keeps (ledger_ext D) (set_tree t)"
  by (simp add: keeps_def set_tree_def ledger_ext_def)

lemmas ledger_keeps = keeps_intros ledger_ext_order keeps_get_tree keeps_set_tree keeps_on_store

context dag_laws
begin

lemma keeps_dag:
  "keeps (store_ext D) (dag_Set D t p v)"
  "keeps (store_ext D) (dag_SetAsLink D t p v)"
  "keeps (store_ext D) (dag_CreateNode D v)"
  unfolding keeps_def using write_ext [of "dag_Set D"] write_ext [of "dag_SetAsLink D"] create_ext
  by (simp_all add: prod_eq_iff)

lemma run_op_ext: "keeps (ledger_ext D) (run_op D op)"
proof -
  have c: "keeps (ledger_ext D) (createToken D)"
    unfolding createToken_def by (intro ledger_keeps keeps_dag)
  have "keeps (ledger_ext D) (EstablishToken D pol)" for pol
    unfolding EstablishToken_def by (intro ledger_keeps keeps_dag c)
  moreover have "keeps (ledger_ext D) (MintToken D amount)" for amount
    unfolding MintToken_def by (intro ledger_keeps keeps_dag)
  moreover have "keeps (ledger_ext D) (SendToken D txId dest amount)" for txId dest amount
    unfolding SendToken_def by (intro ledger_keeps keeps_dag)
  moreover have "keeps (ledger_ext D) (ReceiveToken D sid amount)" for sid amount
    unfolding ReceiveToken_def by (intro ledger_keeps keeps_dag c)
  ultimately show ?thesis by (cases op) simp_all
qed

text \<open>What is left when an operation fails or succeeds: the old tree still reads the same.\<close>

lemma run_op_old_tree:
  assumes "run_op D op l = (r, l')" "tree_rel D (l_tree l) (l_store l) nm a"
  shows "tree_rel D (l_tree l) (l_store l') nm a"
  using keepsD [OF run_op_ext assms(1)] assms(2) by (auto simp: ledger_ext_def intro: tree_rel_ext)

lemma run_op_result:
  assumes "run_op D op l = (Ok t, l')"
  shows "l_tree l' = t" "l_tokenName l' = l_tokenName l"
  using assms keepsD [OF run_op_ext assms]
  by (cases op; auto simp: ledger_ext_def
      elim!: EstablishToken_OkE MintToken_OkE SendToken_OkE ReceiveToken_OkE)+

section \<open>Other tokens\<close>

lemma token_paths_independent:
  "TokenName_String nm \<noteq> TokenName_String nm' \<Longrightarrow> independent (tpath nm @ x) (tpath nm')"
  using independent_extend [of "tpath nm" "tpath nm'" x "[]"] by (simp add: tpath_def independent_def)

lemma other_write:
  assumes "TokenName_String nm \<noteq> TokenName_String nm'" "dag_writer D w"
    "w t (tpath nm @ x) v s = (Ok t', s')" "tree_rel D t s nm' a"
  shows "tree_rel D t' s' nm' a"
  using tree_rel_frame [OF assms(2,3) token_paths_independent [OF assms(1)] assms(4)] .

lemma other_create:
  assumes "TokenName_String (l_tokenName l) \<noteq> TokenName_String nm'"
    "createToken D l = (Ok t, l')" "tree_rel D (l_tree l) (l_store l) nm' a"
  shows "tree_rel D (l_tree l') (l_store l') nm' a \<and> l_tree l' = t \<and> l_tokenName l' = l_tokenName l"
  using assms(2)
proof (rule createToken_OkE)
  fix t1 s1 s2
  assume w1: "dag_SetAsLink D (l_tree l) (tpath (l_tokenName l)) (GToken zero_Token) (l_store l) = (Ok t1, s1)"
    and w2: "dag_Set D t1 (tpath (l_tokenName l) @ [TokenBalanceLabel]) (GUint64 0) s1 = (Ok t, s2)"
    and l': "l' = l\<lparr>l_store := s2, l_tree := t\<rparr>"
  have "tree_rel D t1 s1 nm' a"
    using other_write [OF assms(1) dag_writer_simps(2) _ assms(3), of "[]"] w1 by simp
  then have "tree_rel D t s2 nm' a" by (rule other_write [OF assms(1) dag_writer_simps(1) w2])
  with l' show ?thesis by simp
qed

lemma other_append:
  assumes "TokenName_String nm \<noteq> TokenName_String nm'" "tree_rel D t s nm' a"
    and c: "dag_CreateNode D v s = (Ok n, s1)"
    and w1: "dag_SetAsLink D t (tpath nm @ [lbl]) v1 s1 = (Ok t1, s2)"
    and w2: "dag_Set D t1 (tpath nm @ [lbl']) v2 s2 = (Ok t2, s3)"
  shows "tree_rel D t2 s3 nm' a"
  using tree_rel_ext [OF create_ext [OF c] assms(2)]
  by (rule other_write [OF assms(1) dag_writer_simps(2) w1,
        THEN other_write [OF assms(1) dag_writer_simps(1) w2]])

lemma run_op_other:
  assumes ne: "TokenName_String (l_tokenName l) \<noteq> TokenName_String nm'"
    and run: "run_op D op l = (Ok t, l')" and rel: "tree_rel D (l_tree l) (l_store l) nm' a"
  shows "tree_rel D (l_tree l') (l_store l') nm' a"
proof (cases op)
  case (OpEstablish pol)
  with run have "EstablishToken D pol l = (Ok t, l')" by simp
  then show ?thesis
  proof (rule EstablishToken_OkE)
    fix t1 s2 and l1 :: "'s TreeLedger"
    assume c: "createToken D l = (Ok t1, l1)"
      and w: "dag_SetAsLink D t1 (tpath (l_tokenName l1) @ [MonetaryPolicyLabel]) (GPolicy pol) (l_store l1)
        = (Ok t, s2)"
      and l': "l' = l1\<lparr>l_store := s2, l_tree := t\<rparr>"
    have "tree_rel D t1 (l_store l1) nm' a" "l_tokenName l1 = l_tokenName l"
      using other_create [OF ne c rel] by auto
    with other_write [OF ne dag_writer_simps(2) _ this(1)] w l' show ?thesis by simp
  qed
next
  case (OpMint amount)
  with run have "MintToken D amount l = (Ok t, l')" by simp
  then show ?thesis by (rule MintToken_OkE) (use other_append [OF ne rel] in auto)
next
  case (OpSend txId dest amount)
  with run have "SendToken D txId dest amount l = (Ok t, l')" by simp
  then show ?thesis by (rule SendToken_OkE) (use other_append [OF ne rel] in auto)
next
  case (OpReceive sid amount)
  with run have "ReceiveToken D sid amount l = (Ok t, l')" by simp
  then show ?thesis
  proof (rule ReceiveToken_OkE)
    fix x cids n s1 t1 s2 b s3 and l1 :: "'s TreeLedger"
    assume "x \<Longrightarrow> l1 = l" "\<not> x \<Longrightarrow> \<exists>t0. createToken D l = (Ok t0, l1)"
      and c: "dag_CreateNode D (GTokenReceive \<lparr>tr_SendTokenTransactionId = sid, tr_Amount = amount\<rparr>)
        (l_store l1) = (Ok n, s1)"
      and w1: "dag_SetAsLink D (l_tree l1) (tpath (l_tokenName l) @ [TokenReceiveLabel])
        (GCids (cids @ [node_Cid n])) s1 = (Ok t1, s2)"
      and w2: "dag_Set D t1 (tpath (l_tokenName l) @ [TokenBalanceLabel]) (GUint64 (b + amount)) s2
        = (Ok t, s3)"
      and l': "l' = l1\<lparr>l_store := s3, l_tree := t\<rparr>"
    then have "tree_rel D (l_tree l1) (l_store l1) nm' a"
      using rel other_create [OF ne _ rel] by (cases x) auto
    from other_append [OF ne this c w1 w2] l' show ?thesis by simp
  qed
qed

end

section \<open>Histories\<close>

text \<open>
  A history of a tree: operations are run on the current tree, a successful one replaces
  it, a failed one leaves it (the transaction layer drops the ledger object).
\<close>

inductive ledger_run :: "'s dag_lib \<Rightarrow> cid \<times> 's \<Rightarrow> cid \<times> 's \<Rightarrow> bool" for D x where
  start: "ledger_run D x x"
| applied: "ledger_run D x (t, s) \<Longrightarrow>
    run_op D op (NewTreeLedger t nm s) = (Ok t', l') \<Longrightarrow> ledger_run D x (t', l_store l')"
| refused: "ledger_run D x (t, s) \<Longrightarrow> run_op D op (NewTreeLedger t nm s) = (r, l') \<Longrightarrow>
    \<not> is_ok r \<Longrightarrow> ledger_run D x (t, l_store l')"

lemma NewTreeLedger_simps [simp]:
  "l_tree (NewTreeLedger t nm s) = t" "l_tokenName (NewTreeLedger t nm s) = nm"
  "l_store (NewTreeLedger t nm s) = s"
  by (simp_all add: NewTreeLedger_def)

text \<open>Every token of a tree, by its printed name.\<close>

definition tokens_rel ::
  "'s dag_lib \<Rightarrow> cid \<times> 's \<Rightarrow> (string \<Rightarrow> token_state option) \<Rightarrow> bool" where
  "tokens_rel D x A \<longleftrightarrow> (\<forall>nm. tree_rel D (fst x) (snd x) nm (A (TokenName_String nm)))"

lemma tree_rel_cong: "TokenName_String nm = TokenName_String nm' \<Longrightarrow>
    tree_rel D t s nm a = tree_rel D t s nm' a"
  by (cases a) (simp_all add: tree_rel_def token_rel_def tpath_def)

context dag_laws
begin

lemma ledger_at_rel: "ledger_rel D (NewTreeLedger t nm s) a \<longleftrightarrow> tree_rel D t s nm a"
  by (simp add: ledger_rel_def)

lemma run_op_tokens:
  assumes A: "tokens_rel D (t, s) A"
    and run: "run_op D op (NewTreeLedger t nm s) = (Ok t', l')"
  obtains k' where "spec_step op (A (TokenName_String nm)) k'"
    "tokens_rel D (t', l_store l') (A(TokenName_String nm \<mapsto> k'))"
proof -
  let ?l = "NewTreeLedger t nm s" and ?a = "A (TokenName_String nm)"
  have rel: "ledger_rel D ?l ?a" using A by (simp add: tokens_rel_def ledger_at_rel)
  from tree.step_refines [OF rel run]
  obtain k' where k': "spec_step op ?a k'" "ledger_rel D l' (Some k')" by blast
  have l': "l_tree l' = t'" "l_tokenName l' = nm" using run_op_result [OF run] by simp_all
  have "tree_rel D t' (l_store l') nm' ((A(TokenName_String nm \<mapsto> k')) (TokenName_String nm'))" for nm'
  proof (cases "TokenName_String nm = TokenName_String nm'")
    case True
    then show ?thesis
      using k'(2) l' by (simp add: ledger_rel_def tree_rel_cong [OF True])
  next
    case False
    then show ?thesis
      using run_op_other [OF _ run, of nm'] A l' by (simp add: tokens_rel_def)
  qed
  with k'(1) that show thesis by (simp add: tokens_rel_def)
qed

lemma ledger_run_tokens:
  assumes "ledger_run D x y" "tokens_rel D x A" "\<And>n k. A n = Some k \<Longrightarrow> ledger_inv k"
  shows "\<exists>B. tokens_rel D y B \<and> (\<forall>n k. B n = Some k \<longrightarrow> ledger_inv k)"
  using assms
proof (induction rule: ledger_run.induct)
  case start
  then show ?case by blast
next
  case (applied t s op nm t' l')
  then obtain B where B: "tokens_rel D (t, s) B" "\<And>n k. B n = Some k \<Longrightarrow> ledger_inv k" by blast
  from run_op_tokens [OF B(1) applied.hyps(2)]
  obtain k' where "spec_step op (B (TokenName_String nm)) k'"
    and rel: "tokens_rel D (t', l_store l') (B(TokenName_String nm \<mapsto> k'))" .
  then have "ledger_inv k'" using spec_step_inv B(2) by blast
  with B(2) have "\<forall>n k. (B(TokenName_String nm \<mapsto> k')) n = Some k \<longrightarrow> ledger_inv k" by simp
  with rel show ?case by blast
next
  case (refused t s op nm r l')
  then obtain B where B: "tokens_rel D (t, s) B" "\<And>n k. B n = Some k \<Longrightarrow> ledger_inv k" by blast
  then have "tokens_rel D (t, l_store l') B"
    using run_op_old_tree [OF refused.hyps(2)] by (simp add: tokens_rel_def)
  with B(2) show ?case by blast
qed

end

section \<open>What is allowed succeeds\<close>

lemmas run_defs = eff_defs on_store_def get_tree_def set_tree_def sumTokenTransactions_def

lemma mints_read:
  assumes "token_rel D (l_tree l) (l_store l) (l_tokenName l) k"
  obtains cs where "tokenTransactionCidsForType D TokenMintLabel l = Ok cs"
    "sum_loop D (l_store l) 0 cs = Ok (sum_list (a_mints k))"
proof -
  obtain cs where cs: "cid_list D (l_tree l) (tpath (l_tokenName l) @ [TokenMintLabel]) (l_store l) cs"
    "stored_nodes D (cbor_DecodeIntoReceive D) (l_store l) cs (map mint_record (a_mints k))"
    using assms by (auto simp: token_rel_def history_def)
  show thesis
    using that [OF tokenTransactionCids_read [OF cs(1)]] sum_loop_eq [OF cs(2)] by simp
qed

lemma receives_read:
  assumes "token_rel D (l_tree l) (l_store l) (l_tokenName l) k"
  obtains cs where "tokenTransactionCidsForType D TokenReceiveLabel l = Ok cs"
    "\<And>sid. check_receives D (l_store l) sid cs =
       (if sid \<in> set (received_ids k) then Fail already_received else Ok ())"
proof -
  obtain cs where cs: "cid_list D (l_tree l) (tpath (l_tokenName l) @ [TokenReceiveLabel]) (l_store l) cs"
    "stored_nodes D (cbor_DecodeIntoReceive D) (l_store l) cs (a_receives k)"
    using assms by (auto simp: token_rel_def history_def)
  show thesis
    using that [OF tokenTransactionCids_read [OF cs(1)]] check_receives_eq [OF cs(2)]
    by (simp add: received_ids_def)
qed

lemma sends_read:
  assumes "token_rel D (l_tree l) (l_store l) (l_tokenName l) k"
  obtains cs where "tokenTransactionCidsForType D TokenSendLabel l = Ok cs"
  using assms tokenTransactionCids_read [of D l TokenSendLabel]
  by (auto simp: token_rel_def history_def)

lemma token_rel_ext: "store_ext D s s' \<Longrightarrow> token_rel D t s nm k \<Longrightarrow> token_rel D t s' nm k"
  using tree_rel_ext [of D s s' t nm "Some k"] by (simp add: tree_rel_def)

lemma token_rel_Balance:
  "token_rel D (l_tree l) (l_store l) (l_tokenName l) k \<Longrightarrow> Balance D l = Ok (a_balance k)"
  by (simp add: token_rel_def Balance_read)

text \<open>The refusals: nothing has been written when they are reported.\<close>

lemma mint_refused:
  assumes "token_rel D (l_tree l) (l_store l) (l_tokenName l) k" "a_policy k = Some pol"
    "amount \<noteq> 0" "\<not> within_policy k amount"
  shows "MintToken D amount l = (Fail policy_violated, l)"
proof -
  have pol: "dag_ResolveIntoPolicy D (l_tree l) (tpath (l_tokenName l) @ [MonetaryPolicyLabel]) (l_store l) = Ok pol"
    using assms by (simp add: token_rel_def policy_at_def)
  from assms(2,4) have "0 < pol_Maximum pol" "pol_Maximum pol < sum_list (a_mints k) + amount"
    by (auto simp: within_policy_def word_gt_0)
  with assms(3) pol show ?thesis
    by (rule_tac mints_read [OF assms(1)]) (simp add: MintToken_def run_defs)
qed

lemma send_refused:
  assumes "token_rel D (l_tree l) (l_store l) (l_tokenName l) k" "a_balance k < amount"
  shows "SendToken D txId dest amount l = (Fail balance_too_low, l)"
  using assms token_rel_Balance [OF assms(1)] by (auto simp: SendToken_def run_defs)

context dag_total
begin

lemma appends_total:
  assumes "token_rel D t s nm k"
  obtains n s1 t1 s2 t2 s3 where "dag_CreateNode D v s = (Ok n, s1)"
    "dag_SetAsLink D t p (f n) s1 = (Ok t1, s2)" "dag_Set D t1 q v2 s2 = (Ok t2, s3)"
    "token_rel D t s1 nm k" "token_rel D t s2 nm k"
proof -
  obtain n s1 where c: "dag_CreateNode D v s = (Ok n, s1)" using create_total by blast
  obtain t1 s2 where w1: "dag_SetAsLink D t p (f n) s1 = (Ok t1, s2)"
    using write_total [OF dag_writer_simps(2)] by blast
  obtain t2 s3 where w2: "dag_Set D t1 q v2 s2 = (Ok t2, s3)"
    using write_total [OF dag_writer_simps(1)] by blast
  have "token_rel D t s1 nm k" using token_rel_ext [OF create_ext [OF c] assms] .
  with token_rel_ext [OF write_ext [OF dag_writer_simps(2) w1]] c w1 w2 that show thesis by blast
qed

lemma mint_total:
  assumes rel: "token_rel D (l_tree l) (l_store l) (l_tokenName l) k"
    and "a_policy k = Some pol" "amount \<noteq> 0" "within_policy k amount"
  shows "is_ok (fst (MintToken D amount l))"
proof -
  have pol: "dag_ResolveIntoPolicy D (l_tree l) (tpath (l_tokenName l) @ [MonetaryPolicyLabel]) (l_store l) = Ok pol"
    using assms by (simp add: token_rel_def policy_at_def)
  obtain cs where cs: "tokenTransactionCidsForType D TokenMintLabel l = Ok cs"
    "sum_loop D (l_store l) 0 cs = Ok (sum_list (a_mints k))"
    using mints_read [OF rel] .
  obtain n s1 t1 s2 t2 s3 where
    w: "dag_CreateNode D (GTokenMint \<lparr>tm_Amount = amount\<rparr>) (l_store l) = (Ok n, s1)"
    "dag_SetAsLink D (l_tree l) (tpath (l_tokenName l) @ [TokenMintLabel]) (GCids (cs @ [node_Cid n])) s1 = (Ok t1, s2)"
    "dag_Set D t1 (tpath (l_tokenName l) @ [TokenBalanceLabel]) (GUint64 (a_balance k + amount)) s2 = (Ok t2, s3)"
    and r: "token_rel D (l_tree l) s2 (l_tokenName l) k"
    using appends_total [OF rel, where f = "\<lambda>n. GCids (cs @ [node_Cid n])"] by metis
  have "Balance D (l\<lparr>l_store := s2\<rparr>) = Ok (a_balance k)" using r by (simp add: token_rel_Balance)
  then show ?thesis
    using assms(2-4) pol cs w by (auto simp: MintToken_def run_defs within_policy_def word_gt_0)
qed

lemma send_total:
  assumes rel: "token_rel D (l_tree l) (l_store l) (l_tokenName l) k"
    and "amount \<noteq> 0" "amount \<le> a_balance k"
  shows "is_ok (fst (SendToken D txId dest amount l))"
proof -
  let ?v = "GTokenSend \<lparr>ts_Id = txId, ts_Amount = amount, ts_Destination = dest\<rparr>"
  obtain n s1 where c: "dag_CreateNode D ?v (l_store l) = (Ok n, s1)" using create_total by blast
  have r1: "token_rel D (l_tree l) s1 (l_tokenName l) k" using token_rel_ext [OF create_ext [OF c] rel] .
  obtain cs where cs: "tokenTransactionCidsForType D TokenSendLabel (l\<lparr>l_store := s1\<rparr>) = Ok cs"
    using sends_read [of D "l\<lparr>l_store := s1\<rparr>" k] r1 by auto
  obtain t1 s2 where w1: "dag_SetAsLink D (l_tree l) (tpath (l_tokenName l) @ [TokenSendLabel])
      (GCids (cs @ [node_Cid n])) s1 = (Ok t1, s2)"
    using write_total [OF dag_writer_simps(2)] by blast
  obtain t2 s3 where w2: "dag_Set D t1 (tpath (l_tokenName l) @ [TokenBalanceLabel])
      (GUint64 (a_balance k - amount)) s2 = (Ok t2, s3)"
    using write_total [OF dag_writer_simps(1)] by blast
  show ?thesis
    using assms(2,3) token_rel_Balance [OF rel] c cs w1 w2
    by (auto simp: SendToken_def run_defs)
qed

lemma create_ok: obtains t l' where "createToken D l = (Ok t, l')"
proof -
  obtain t1 s1 where w1: "dag_SetAsLink D (l_tree l) (tpath (l_tokenName l)) (GToken zero_Token) (l_store l) = (Ok t1, s1)"
    using write_total [OF dag_writer_simps(2)] by blast
  obtain t2 s2 where w2: "dag_Set D t1 (tpath (l_tokenName l) @ [TokenBalanceLabel]) (GUint64 0) s1 = (Ok t2, s2)"
    using write_total [OF dag_writer_simps(1)] by blast
  show thesis using w1 w2 by (intro that) (simp add: createToken_def run_defs)
qed

lemma establish_total: "is_ok (fst (EstablishToken D pol l))"
proof -
  obtain t1 l1 where c: "createToken D l = (Ok t1, l1)" using create_ok .
  obtain t2 s2 where "dag_SetAsLink D t1 (tpath (l_tokenName l1) @ [MonetaryPolicyLabel]) (GPolicy pol) (l_store l1) = (Ok t2, s2)"
    using write_total [OF dag_writer_simps(2)] by blast
  with c show ?thesis by (simp add: EstablishToken_def run_defs)
qed

lemma receive_total:
  assumes rel: "ledger_rel D l a" and new: "\<And>k. a = Some k \<Longrightarrow> sid \<notin> set (received_ids k)"
  shows "is_ok (fst (ReceiveToken D sid amount l))"
proof -
  let ?k = "case a of None \<Rightarrow> fresh_token None | Some k \<Rightarrow> k"
  let ?create = "if a \<noteq> None then eret () else ebind (createToken D) set_tree"
  obtain l1 where l1: "?create l = (Ok (), l1)" "token_rel D (l_tree l1) (l_store l1) (l_tokenName l) ?k"
    "l_tokenName l1 = l_tokenName l"
  proof (cases a)
    case None
    obtain t1 l1 where c: "createToken D l = (Ok t1, l1)" using create_ok .
    have "l_tree l1 = t1 \<and> l_tokenName l1 = l_tokenName l" using c by (rule createToken_OkE) auto
    with create_refines [OF c] c None that [of l1] show thesis
      by (simp add: run_defs ledger_rel_def tree_rel_def)
  next
    case (Some k)
    with rel that [of l] show thesis by (simp add: run_defs ledger_rel_def tree_rel_def)
  qed
  have r1: "token_rel D (l_tree l1) (l_store l1) (l_tokenName l1) ?k" using l1(2,3) by simp
  have "sid \<notin> set (received_ids ?k)"
    using new by (cases a) (auto simp: fresh_token_def received_ids_def)
  then obtain cs where cs: "tokenTransactionCidsForType D TokenReceiveLabel l1 = Ok cs"
    "check_receives D (l_store l1) sid cs = Ok ()"
    using receives_read [OF r1] by metis
  obtain n s1 t1 s2 t2 s3 where
    w: "dag_CreateNode D (GTokenReceive \<lparr>tr_SendTokenTransactionId = sid, tr_Amount = amount\<rparr>) (l_store l1) = (Ok n, s1)"
    "dag_SetAsLink D (l_tree l1) (tpath (l_tokenName l) @ [TokenReceiveLabel]) (GCids (cs @ [node_Cid n])) s1 = (Ok t1, s2)"
    "dag_Set D t1 (tpath (l_tokenName l) @ [TokenBalanceLabel]) (GUint64 (a_balance ?k + amount)) s2 = (Ok t2, s3)"
    and r: "token_rel D (l_tree l1) s2 (l_tokenName l) ?k"
    using appends_total [OF l1(2), where f = "\<lambda>n. GCids (cs @ [node_Cid n])"] by metis
  have "Balance D (l1\<lparr>l_store := s2\<rparr>) = Ok (a_balance ?k)" using r l1(3) by (simp add: token_rel_Balance)
  then show ?thesis
    using TokenExists_read [OF rel] l1(1) cs w
    by (cases a) (auto simp: ReceiveToken_def run_defs split: prod.splits res.splits)
qed

lemma allowed_succeeds:
  assumes "ledger_rel D l a" "spec_step op a k'" "policy_known op a"
  shows "is_ok (fst (run_op D op l))"
  using assms(2)
proof (cases rule: spec_step.cases)
  case (mint amount k)
  then obtain pol where "a_policy k = Some pol" using assms(3) by auto
  with mint assms(1) show ?thesis by (auto simp: ledger_rel_def tree_rel_def intro: mint_total)
next
  case (send amount k txId dest)
  with assms(1) show ?thesis by (auto simp: ledger_rel_def tree_rel_def intro: send_total)
qed (use assms(1,3) in \<open>auto simp: establish_total intro: receive_total\<close>)

end

end
