(* ===== verification/Ledger_Properties.thy ===== *)
theory Ledger_Properties
  imports Ledger_Runs
begin

text \<open>
  The properties of \<^verbatim>\<open>src/consensus/tree_ledger.go\<close>, for every DAG library with the laws
  of \<^verbatim>\<open>dag_laws\<close> (or \<^verbatim>\<open>dag_total\<close>, when no write fails), each applied to a concrete run on
  the reference library.
\<close>

section \<open>A concrete run\<close>

definition cash :: TokenName where
  "cash = \<lparr>tn_ChainTreeDID = ''did:tupelo:a'', tn_LocalName = ''cash''\<rparr>"

definition ledger0 :: "ref_store TreeLedger" where
  "ledger0 = NewTreeLedger (ref_tip 0) cash ref_start"

definition ledger1 :: "ref_store TreeLedger" where
  "ledger1 = snd (EstablishToken ref_dag \<lparr>pol_Maximum = 100\<rparr> ledger0)"

definition ledger2 :: "ref_store TreeLedger" where
  "ledger2 = snd (MintToken ref_dag 60 ledger1)"

lemma ledger0_rel: "ledger_rel ref_dag ledger0 None"
  by (simp add: ledger_rel_def tree_rel_def ledger0_def ref_resolves_iff ref_tree_def ref_tip_def ref_start_def)

lemma ledger1_run: "EstablishToken ref_dag \<lparr>pol_Maximum = 100\<rparr> ledger0 = (Ok (ref_tip 3), ledger1)"
  by code_simp

lemma ledger1_rel: "ledger_rel ref_dag ledger1 (Some (fresh_token (Some \<lparr>pol_Maximum = 100\<rparr>)))"
  using ref.establish_refines [OF ledger1_run] .

lemma ledger2_run: "MintToken ref_dag 60 ledger1 = (Ok (ref_tip 5), ledger2)"
  by code_simp

definition cash_minted :: token_state where
  "cash_minted = add_mint 60 (fresh_token (Some \<lparr>pol_Maximum = 100\<rparr>))"

lemma ledger2_rel: "ledger_rel ref_dag ledger2 (Some cash_minted)"
  using ref.mint_refines [OF ledger1_rel ledger2_run refl] by (simp add: cash_minted_def)

theorem CanonicalTokenName_order_witness:
  "CanonicalTokenName ref_dag (ref_tip 5) ''did:tupelo:z'' ''cash'' True (l_store ledger2) = Ok cash"
proof -
  have "\<not> HasPrefix ''cash'' ''did:tupelo:''" by code_simp
  moreover have "dag_Resolve ref_dag (ref_tip 5) [''_tupelo'', ''tokens''] (l_store ledger2) =
    Ok (GMap [(''did:tupelo:a:cash'', GBool True)], [])"
    by code_simp
  moreover have "has_local_name ''cash'' ''did:tupelo:a:cash''"
    "TokenNameFromString ''did:tupelo:a:cash'' = cash"
    by code_simp+
  ultimately show ?thesis
    using CanonicalTokenName_order [of "''cash''" ref_dag "ref_tip 5" "l_store ledger2"
        "[(''did:tupelo:a:cash'', GBool True)]" "''did:tupelo:z''" True]
    by simp
qed

lemma ledger_result: "is_ok (fst x) \<Longrightarrow> \<exists>t l'. x = (Ok t, l')"
  by (cases x) (auto simp: is_ok_iff)

section \<open>What the interface gives for the tree ledger\<close>

context dag_laws
begin

lemma tree_refines:
  assumes "ledger_rel D l a" "run_op D op l = (Ok t, l')"
  shows "\<exists>k'. spec_step op a k' \<and> ledger_rel D l' (Some k') \<and> l_tree l' = t \<and>
           Balance D l' = Ok (a_balance k') \<and> TokenExists D l' = Ok True"
  using tree.step_refines [OF assms] tree.balance_reads tree.present_reads run_op_result(1) [OF assms(2)]
  by fastforce

lemmas tree_send_balance = tree.send_balance [of _ _ txId dest amount for txId dest amount, simplified]

lemmas tree_receive_once = tree.receive_once [of _ _ sid amount for sid amount, simplified]

lemma tree_frame:
  assumes "run_op D op (NewTreeLedger t nm s) = (r, l')" "tree_rel D t s nm' a"
  shows "tree_rel D t (l_store l') nm' a \<and>
     (TokenName_String nm' \<noteq> TokenName_String nm \<longrightarrow> is_ok r \<longrightarrow> tree_rel D (l_tree l') (l_store l') nm' a)"
  using run_op_old_tree [OF assms(1)] run_op_other [of "NewTreeLedger t nm s" nm' op _ l' a] assms
  by (auto simp: is_ok_iff)

end

section \<open>Refinement\<close>

text \<open>C1: the tree ledger refines the abstract one. When \<^verbatim>\<open>EstablishToken\<close>, \<^verbatim>\<open>MintToken\<close>,
  \<^verbatim>\<open>SendToken\<close> or \<^verbatim>\<open>ReceiveToken\<close> succeeds on a ledger whose tree represents an abstract
  token, the operation was one the specification allows in that state, the ledger's new
  tree represents the specified new token, and \<^verbatim>\<open>Balance\<close> and \<^verbatim>\<open>TokenExists\<close> read it.\<close>

theorem ledger_refines:
  assumes "dag_laws D" "ledger_rel D l a" "run_op D op l = (Ok t, l')"
  shows "\<exists>k'. spec_step op a k' \<and> ledger_rel D l' (Some k') \<and> l_tree l' = t \<and>
           Balance D l' = Ok (a_balance k') \<and> TokenExists D l' = Ok True"
  using dag_laws.tree_refines [OF assms] .

theorem ledger_refines_witness:
  "\<exists>k'. spec_step (OpMint 60) (Some (fresh_token (Some \<lparr>pol_Maximum = 100\<rparr>))) k' \<and>
     ledger_rel ref_dag ledger2 (Some k') \<and> l_tree ledger2 = ref_tip 5 \<and>
     Balance ref_dag ledger2 = Ok (a_balance k') \<and> TokenExists ref_dag ledger2 = Ok True"
  using ledger_refines [OF ref.dag_laws_axioms ledger1_rel, of "OpMint 60"] ledger2_run by simp

text \<open>C5: and it is complete where no write fails. Every operation the specification allows
  succeeds, except a mint of a token that has no policy node (one only ever received, or none at all).\<close>

theorem ledger_complete:
  assumes "dag_total D" "ledger_rel D l a" "spec_step op a k'" "policy_known op a"
  shows "is_ok (fst (run_op D op l))"
  using dag_total.allowed_succeeds [OF assms] .

theorem ledger_complete_witness:
  "is_ok (fst (run_op ref_dag (OpSend ''tx'' ''did:tupelo:b'' 60) ledger2))"
proof (rule ledger_complete [OF ref.dag_total_axioms ledger2_rel])
  show "spec_step (OpSend ''tx'' ''did:tupelo:b'' 60) (Some cash_minted)
    (add_send ''tx'' ''did:tupelo:b'' 60 cash_minted)"
    by (rule spec_step.send) (simp_all add: cash_minted_def spec_defs)
qed simp

section \<open>Refusals\<close>

text \<open>C6: every refusal of the ledger is the error the code names for it, and is reported before
  anything is written, so the ledger object is unchanged: minting or sending nothing,
  whatever the tree; and on any token, established or only received: a mint that would
  take the (wrapping) total over the maximum of the token's policy, where it has one; a
  send of more than the balance; a receive of a send that was received before.\<close>

theorem ledger_refusals:
  assumes "ledger_rel D l (Some k)"
  shows "MintToken D 0 l = (Fail (Errorf ''error, must mint amount greater than 0'' []), l) \<and>
    SendToken D txId dest 0 l = (Fail (Errorf ''error, must send an amount greater than 0'' []), l) \<and>
    (\<forall>pol. a_policy k = Some pol \<longrightarrow> amount \<noteq> 0 \<longrightarrow> 0 < pol_Maximum pol \<longrightarrow>
       pol_Maximum pol < sum_list (a_mints k) + amount \<longrightarrow>
       MintToken D amount l = (Fail policy_violated, l)) \<and>
    (a_balance k < amount \<longrightarrow> SendToken D txId dest amount l = (Fail balance_too_low, l)) \<and>
    (sid \<in> set (received_ids k) \<longrightarrow> ReceiveToken D sid amount l = (Fail already_received, l))"
proof -
  have tr: "token_rel D (l_tree l) (l_store l) (l_tokenName l) k"
    using assms by (simp add: ledger_rel_def tree_rel_def)
  then show ?thesis
    using mint_refused [OF tr] send_refused [OF tr] receive_refused [OF assms]
    by (simp add: MintToken_def SendToken_def eff_defs within_policy_def word_gt_0 not_le)
qed

definition received_ledger :: "ref_store TreeLedger" where
  "received_ledger = snd (ReceiveToken ref_dag ''tx'' 9 ledger0)"

theorem ledger_refusals_witness:
  "MintToken ref_dag 41 ledger2 = (Fail policy_violated, ledger2) \<and>
   SendToken ref_dag ''tx'' ''did:tupelo:b'' 10 received_ledger = (Fail balance_too_low, received_ledger) \<and>
   ReceiveToken ref_dag ''tx'' 9 received_ledger = (Fail already_received, received_ledger)"
proof -
  let ?k = "add_receive ''tx'' 9 (fresh_token None)"
  obtain t l' where "ReceiveToken ref_dag ''tx'' 9 ledger0 = (Ok t, l')"
    using ledger_result [OF ref.receive_total [OF ledger0_rel, of "''tx''" 9]] by blast
  then have "\<exists>k'. spec_step (OpReceive ''tx'' 9) None k' \<and> ledger_rel ref_dag received_ledger (Some k')"
    using ref.receive_refines [OF ledger0_rel] by (auto simp: received_ledger_def)
  then have rel: "ledger_rel ref_dag received_ledger (Some ?k)" by (auto simp: spec_step_simps)
  show ?thesis
    using ledger_refusals [OF ledger2_rel, of _ _ 41]
      ledger_refusals [OF rel, of "''tx''" "''did:tupelo:b''" 10 "''tx''"]
      ledger_refusals [OF rel, of _ _ 9 "''tx''"]
    by (simp add: cash_minted_def spec_defs)
qed

section \<open>Balances\<close>

text \<open>C4: a successful \<^verbatim>\<open>SendToken\<close> takes exactly the amount off the balance, in the integers: the
  amount was positive and covered, and nothing wraps.\<close>

theorem SendToken_balance:
  assumes "dag_laws D" "ledger_rel D l (Some k)" "SendToken D txId dest amount l = (Ok t, l')"
  shows "\<exists>b b'. Balance D l = Ok b \<and> Balance D l' = Ok b' \<and> amount \<noteq> 0 \<and> amount \<le> b \<and>
           unat b' + unat amount = unat b"
  using dag_laws.tree_send_balance [OF assms] by blast

theorem SendToken_balance_witness:
  "\<exists>t l' b'. SendToken ref_dag ''tx'' ''did:tupelo:b'' 25 ledger2 = (Ok t, l') \<and>
     Balance ref_dag l' = Ok b' \<and> unat b' = 35"
proof -
  have "is_ok (fst (SendToken ref_dag ''tx'' ''did:tupelo:b'' 25 ledger2))"
    using ledger2_rel
    by (intro ref.send_total [where k = cash_minted])
      (simp_all add: ledger_rel_def tree_rel_def cash_minted_def spec_defs)
  then obtain t l' where run: "SendToken ref_dag ''tx'' ''did:tupelo:b'' 25 ledger2 = (Ok t, l')"
    using ledger_result by blast
  have "Balance ref_dag ledger2 = Ok 60"
    using ref.tree.balance_reads [OF ledger2_rel] by (simp add: cash_minted_def spec_defs)
  with SendToken_balance [OF ref.dag_laws_axioms ledger2_rel run] run show ?thesis by auto
qed

text \<open>C3: once a send has been received, receiving it again is refused whatever the amount,
  and the refusal changes nothing: no send is credited twice.\<close>

theorem ReceiveToken_once:
  assumes "dag_laws D" "ledger_rel D l a" "ReceiveToken D sid amount l = (Ok t, l')"
  shows "ReceiveToken D sid amount' l' = (Fail already_received, l')"
  using dag_laws.tree_receive_once [OF assms] .

theorem ReceiveToken_once_witness:
  "\<exists>t l'. ReceiveToken ref_dag ''tx'' 9 ledger0 = (Ok t, l') \<and>
     ReceiveToken ref_dag ''tx'' 7 l' = (Fail already_received, l')"
proof -
  obtain t l' where run: "ReceiveToken ref_dag ''tx'' 9 ledger0 = (Ok t, l')"
    using ledger_result [OF ref.receive_total [OF ledger0_rel, of "''tx''" 9]] by blast
  with ReceiveToken_once [OF ref.dag_laws_axioms ledger0_rel run] show ?thesis by blast
qed

section \<open>Frames\<close>

text \<open>C7: an operation on one token touches no other. Whatever the outcome, every token of the
  old tree still reads the same from the old tree (nothing is overwritten in the store);
  and in the new tree of a successful operation every token with another name is what it
  was.\<close>

theorem ledger_frame:
  assumes "dag_laws D" "run_op D op (NewTreeLedger t nm s) = (r, l')" "tree_rel D t s nm' a"
  shows "tree_rel D t (l_store l') nm' a \<and>
     (TokenName_String nm' \<noteq> TokenName_String nm \<longrightarrow> is_ok r \<longrightarrow>
        tree_rel D (l_tree l') (l_store l') nm' a)"
  using dag_laws.tree_frame [OF assms] .

definition coin :: TokenName where
  "coin = \<lparr>tn_ChainTreeDID = ''did:tupelo:b'', tn_LocalName = ''coin''\<rparr>"

lemma no_token_at_start: "tree_rel ref_dag (ref_tip 0) ref_start nm None"
  by (simp add: tree_rel_def ref_resolves_iff ref_tree_def ref_tip_def ref_start_def)

theorem ledger_frame_witness:
  "tree_rel ref_dag (ref_tip 0) (l_store ledger1) cash None \<and>
   tree_rel ref_dag (l_tree ledger1) (l_store ledger1) coin None"
proof -
  have run: "run_op ref_dag (OpEstablish \<lparr>pol_Maximum = 100\<rparr>) (NewTreeLedger (ref_tip 0) cash ref_start)
    = (Ok (ref_tip 3), ledger1)"
    using ledger1_run by (simp add: ledger0_def)
  have "TokenName_String coin \<noteq> TokenName_String cash"
    by (simp add: cash_def coin_def TokenName_String_def)
  with ledger_frame [OF ref.dag_laws_axioms run no_token_at_start] show ?thesis by simp
qed

section \<open>Histories\<close>



section \<open>The maximum and overflow\<close>

text \<open>C8: the cap on mints is checked on a sum that wraps: once anything has been minted, a mint
  of the complement of what was minted succeeds although the true total of the mints is
  then above any maximum (it is at least 2 to the 64).\<close>

theorem mint_cap_wraps:
  assumes "dag_total D" "ledger_rel D l (Some k)" "a_policy k = Some pol"
    "sum_list (a_mints k) \<noteq> 0"
  shows "\<exists>t l' k'. MintToken D (- sum_list (a_mints k)) l = (Ok t, l') \<and> ledger_rel D l' (Some k') \<and>
    a_policy k' = Some pol \<and> unat (pol_Maximum pol) < 2 ^ 64 \<and> 2 ^ 64 \<le> utotal (a_mints k')"
proof -
  let ?m = "sum_list (a_mints k)"
  have "is_ok (fst (MintToken D (- ?m) l))"
    using assms by (intro dag_total.mint_total [OF assms(1)])
      (auto simp: ledger_rel_def tree_rel_def within_policy_def)
  then obtain t l' where run: "MintToken D (- ?m) l = (Ok t, l')" using ledger_result by blast
  have "dag_laws D" using assms(1) by (rule dag_total.axioms)
  then have "ledger_rel D l' (Some (add_mint (- ?m) k))"
    using dag_laws.mint_refines [OF _ assms(2) run] by simp
  moreover have "2 ^ 64 \<le> utotal (a_mints k @ [- ?m])"
  proof (rule dvd_imp_le)
    show "2 ^ 64 dvd utotal (a_mints k @ [- ?m])"
      using unat_sum_list [of "a_mints k @ [- ?m]"] by (simp add: dvd_eq_mod_eq_0)
    have "sum_list (a_mints k) = 0" if "utotal (a_mints k) = 0"
      using that by (simp add: sum_list_of_nat_utotal)
    with assms(4) have "utotal (a_mints k) \<noteq> 0" by blast
    then show "0 < utotal (a_mints k @ [- ?m])" by simp
  qed
  moreover have "unat (pol_Maximum pol) < 2 ^ 64" using unsigned_less [of "pol_Maximum pol"] by simp
  ultimately show ?thesis
    using run assms(3) by (intro exI [of _ t] exI [of _ l'] exI [of _ "add_mint (- ?m) k"])
      (simp add: add_mint_def)
qed

theorem mint_cap_wraps_witness:
  "\<exists>t l' k'. MintToken ref_dag (- 60) ledger2 = (Ok t, l') \<and> ledger_rel ref_dag l' (Some k') \<and>
     a_policy k' = Some \<lparr>pol_Maximum = 100\<rparr> \<and> 2 ^ 64 \<le> utotal (a_mints k')"
  using mint_cap_wraps [OF ref.dag_total_axioms ledger2_rel, of "\<lparr>pol_Maximum = 100\<rparr>"]
  by (auto simp: cash_minted_def spec_defs)

end
