(* ===== verification/Transaction_Runs.thy ===== *)
theory Transaction_Runs
  imports Transactions Ledger_Properties
begin

text \<open>
  Transactions over the ledger: what a successful transactor did, the frame of the
  transactors that do not touch tokens, and histories of transactions. Along them every
  token keeps its policy, its lists of mints, sends and receives only grow, and the
  ledger's invariant holds.
\<close>

section \<open>What a successful transactor did\<close>

lemma EstablishTokenTransaction_OkE:
  assumes "EstablishTokenTransaction D E did t txn s = (Ok t', s')"
  obtains nm pol l' where
    "TokenExists D (NewTreeLedger t nm s) = Ok False"
    "run_op D (OpEstablish pol) (NewTreeLedger t nm s) = (Ok t', l')" "s' = l_store l'"
  using assms
  by (auto simp: EstablishTokenTransaction_def Let_def go_ok intro: that split: if_splits)

lemma MintTokenTransaction_OkE:
  assumes "MintTokenTransaction D E did t txn s = (Ok t', s')"
  obtains p nm l' where
    "EnsureMintTokenPayload E txn = Ok p" "CanonicalTokenName D t did (mtp_Name p) True s = Ok nm"
    "run_op D (OpMint (mtp_Amount p)) (NewTreeLedger t nm s) = (Ok t', l')" "s' = l_store l'"
  using assms by (auto simp: MintTokenTransaction_def go_ok intro: that)

lemma SendTokenTransaction_OkE:
  assumes "SendTokenTransaction D E did t txn s = (Ok t', s')"
  obtains p nm l' where
    "EnsureSendTokenPayload E txn = Ok p" "CanonicalTokenName D t did (stp_Name p) False s = Ok nm"
    "run_op D (OpSend (stp_Id p) (stp_Destination p) (stp_Amount p)) (NewTreeLedger t nm s) = (Ok t', l')"
    "s' = l_store l'"
  using assms by (auto simp: SendTokenTransaction_def go_ok intro: that)

lemma ReceiveTokenTransaction_OkE:
  assumes "ReceiveTokenTransaction D E visit did t txn s = (Ok t', s')"
  obtains p sd nm snd l' where
    "EnsureReceiveTokenPayload E txn = Ok p" "cid_Cast D (rtp_Tip p) = Ok (fst sd)"
    "GetSenderDagFromReceive D p = Ok sd" "GetTokenNameFromReceive D visit sd = Ok nm"
    "GetSendTokenFromReceive D visit sd nm = Ok snd"
    "run_op D (OpReceive (rtp_SendTokenTransactionId p) (ts_Amount snd)) (NewTreeLedger t nm s) = (Ok t', l')"
    "s' = l_store l'"
  using assms by (auto simp: ReceiveTokenTransaction_def go_ok intro: that split: if_splits)

lemma SetDataTransaction_OkE:
  assumes "SetDataTransaction D E did t txn s = (Ok t', s')"
  obtains p path val w where "EnsureSetDataPayload E txn = Ok p" "DecodePath (sdp_Path p) = Ok path"
    "cbor_DecodeInto D (sdp_Value p) = Ok val" "dag_writer D w"
    "w t (''data'' # path) val s = (Ok t', s')"
  using assms
  by (auto simp: SetDataTransaction_def Let_def go_ok split: if_splits
      intro: that [OF _ _ _ dag_writer_simps(1)] that [OF _ _ _ dag_writer_simps(2)])

text \<open>The writes of the transactors that leave tokens alone.\<close>

lemma plain_transaction_OkE:
  assumes "tr \<in> {SetDataTransaction D E, SetOwnershipTransaction D E, StakeTransaction D E}"
    "tr did t txn s = (Ok t', s')"
  obtains w p v where "dag_writer D w" "w t p v s = (Ok t', s')"
    "\<And>nm. independent p (tpath nm)"
proof -
  have i: "independent (''data'' # x) (tpath nm)"
    "independent [''_tupelo'', ''authentications''] (tpath nm)"
    "independent [''_tupelo'', ''stake''] (tpath nm)" for x nm
    by (auto simp: tpath_def independent_def)
  show thesis
    using assms
    by (auto simp: SetDataTransaction_def SetOwnershipTransaction_def StakeTransaction_def Let_def go_ok
        split: if_splits
        intro: that [OF dag_writer_simps(1) _ i(1)] that [OF dag_writer_simps(2) _ i(1)]
          that [OF dag_writer_simps(2) _ i(2)] that [OF dag_writer_simps(2) _ i(3)])
qed

section \<open>Histories of transactions\<close>

inductive txn_run ::
  "'s dag_lib \<Rightarrow> txn_lib \<Rightarrow> visit_order \<Rightarrow> string \<Rightarrow> cid \<times> 's \<Rightarrow> cid \<times> 's \<Rightarrow> bool"
  for D E visit did x where
  start: "txn_run D E visit did x x"
| applied: "txn_run D E visit did x (t, s) \<Longrightarrow>
    DefaultTransactors D E visit (txn_Type txn) = Some tr \<Longrightarrow>
    tr did t txn s = (Ok t', s') \<Longrightarrow>
    txn_run D E visit did x (t', s')"
| refused: "txn_run D E visit did x (t, s) \<Longrightarrow>
    DefaultTransactors D E visit (txn_Type txn) = Some tr \<Longrightarrow>
    tr did t txn s = (r, s') \<Longrightarrow> \<not> is_ok r \<Longrightarrow> txn_run D E visit did x (t, s')"

text \<open>The lists of a token only grow and its policy stays.\<close>

definition grows :: "token_state \<Rightarrow> token_state \<Rightarrow> bool" where
  "grows k k' \<longleftrightarrow> a_policy k' = a_policy k \<and> prefix (a_mints k) (a_mints k') \<and>
     prefix (a_sends k) (a_sends k') \<and> prefix (a_receives k) (a_receives k')"

lemma grows_refl [simp]: "grows k k"
  by (simp add: grows_def)

lemma grows_trans: "grows a b \<Longrightarrow> grows b c \<Longrightarrow> grows a c"
  by (auto simp: grows_def)

lemma spec_step_grows:
  "spec_step op (Some k) k' \<Longrightarrow> (\<And>pol. op \<noteq> OpEstablish pol) \<Longrightarrow> grows k k'"
  by (erule spec_stepE) (auto simp: grows_def spec_defs)

definition tokens_grow ::
  "(string \<Rightarrow> token_state option) \<Rightarrow> (string \<Rightarrow> token_state option) \<Rightarrow> bool" where
  "tokens_grow A B \<longleftrightarrow> (\<forall>n k. A n = Some k \<longrightarrow> (\<exists>k'. B n = Some k' \<and> grows k k'))"

definition tokens_inv :: "(string \<Rightarrow> token_state option) \<Rightarrow> bool" where
  "tokens_inv A \<longleftrightarrow> (\<forall>n k. A n = Some k \<longrightarrow> ledger_inv k)"

lemma tokens_grow_refl [simp]: "tokens_grow A A"
  by (auto simp: tokens_grow_def)

lemma tokens_grow_trans: "tokens_grow A B \<Longrightarrow> tokens_grow B C \<Longrightarrow> tokens_grow A C"
  unfolding tokens_grow_def by (meson grows_trans)

lemma tokens_grow_upd:
  "spec_step op (A n) k' \<Longrightarrow> (\<And>pol. op = OpEstablish pol \<Longrightarrow> A n = None) \<Longrightarrow>
     tokens_grow A (A(n \<mapsto> k'))"
  unfolding tokens_grow_def by (auto intro: spec_step_grows)

lemma tokens_inv_upd: "spec_step op (A n) k' \<Longrightarrow> tokens_inv A \<Longrightarrow> tokens_inv (A(n \<mapsto> k'))"
  unfolding tokens_inv_def by (auto intro: spec_step_inv)

context dag_laws
begin

lemma transactor_ext:
  assumes "DefaultTransactors D E visit ty = Some tr"
  shows "keeps (store_ext D) (tr did t txn)"
proof -
  have l: "keeps (store_ext D) (with_ledger t nm m)" if "keeps (ledger_ext D) m" for nm and m :: "('s TreeLedger, 'x) eff"
    using that by (auto simp: keeps_def with_ledger_def ledger_ext_def case_prod_beta) (metis NewTreeLedger_simps(3))
  have op: "keeps (ledger_ext D) (EstablishToken D pol)" "keeps (ledger_ext D) (MintToken D a)"
    "keeps (ledger_ext D) (SendToken D i d a)" "keeps (ledger_ext D) (ReceiveToken D i a)" for pol a i d
    using run_op_ext [of "OpEstablish pol"] run_op_ext [of "OpMint a"] run_op_ext [of "OpSend i d a"]
      run_op_ext [of "OpReceive i a"] by simp_all
  note rules = keeps_intros store_ext_order ledger_ext_order keeps_dag l op
  show ?thesis
    using assms
    by (cases ty)
      (auto simp: EstablishTokenTransaction_def MintTokenTransaction_def SendTokenTransaction_def
        ReceiveTokenTransaction_def SetDataTransaction_def SetOwnershipTransaction_def
        StakeTransaction_def Let_def intro!: rules)
qed

definition progresses :: "(string \<Rightarrow> token_state option) \<Rightarrow> cid \<times> 's \<Rightarrow> bool" where
  "progresses A y \<longleftrightarrow> (\<exists>B. tokens_rel D y B \<and> tokens_grow A B \<and> (tokens_inv A \<longrightarrow> tokens_inv B))"

lemma op_progresses:
  assumes A: "tokens_rel D (t, s) A"
    and run: "run_op D op (NewTreeLedger t nm s) = (Ok t', l')"
    and est: "\<And>pol. op = OpEstablish pol \<Longrightarrow> TokenExists D (NewTreeLedger t nm s) = Ok False"
  shows "progresses A (t', l_store l')"
proof -
  obtain k' where k': "spec_step op (A (TokenName_String nm)) k'"
    and rel: "tokens_rel D (t', l_store l') (A(TokenName_String nm \<mapsto> k'))"
    using run_op_tokens [OF A run] .
  have "ledger_rel D (NewTreeLedger t nm s) (A (TokenName_String nm))"
    using A by (simp add: tokens_rel_def ledger_at_rel)
  from TokenExists_read [OF this] est have "A (TokenName_String nm) = None" if "op = OpEstablish pol" for pol
    using that by fastforce
  then show ?thesis
    unfolding progresses_def
    using rel k' tokens_grow_upd [of op A "TokenName_String nm" k']
      tokens_inv_upd [of op A "TokenName_String nm" k'] by blast
qed

lemma transactor_progresses:
  assumes A: "tokens_rel D (t, s) A"
    and tr: "DefaultTransactors D E visit (txn_Type txn) = Some tr"
    and run: "tr did t txn s = (Ok t', s')"
  shows "progresses A (t', s')"
proof -
  have plain: "progresses A (t', s')"
    if "tr \<in> {SetDataTransaction D E, SetOwnershipTransaction D E, StakeTransaction D E}"
    using that run
  proof (rule plain_transaction_OkE)
    fix w p v assume "dag_writer D w" "w t p v s = (Ok t', s')" "\<And>nm. independent p (tpath nm)"
    from tree_rel_frame [OF this] A have "tokens_rel D (t', s') A" by (simp add: tokens_rel_def)
    then show "progresses A (t', s')" unfolding progresses_def by auto
  qed
  show ?thesis
  proof (cases "txn_Type txn")
    case ESTABLISHTOKEN
    with tr run have "EstablishTokenTransaction D E did t txn s = (Ok t', s')" by auto
    then show ?thesis
    proof (rule EstablishTokenTransaction_OkE)
      fix nm pol l'
      assume "TokenExists D (NewTreeLedger t nm s) = Ok False" "s' = l_store l'"
        and op: "run_op D (OpEstablish pol) (NewTreeLedger t nm s) = (Ok t', l')"
      then show ?thesis using op_progresses [OF A op] by simp
    qed
  next
    case MINTTOKEN
    with tr run have "MintTokenTransaction D E did t txn s = (Ok t', s')" by auto
    then show ?thesis
      by (rule MintTokenTransaction_OkE)
        (auto simp del: run_op.simps intro: op_progresses [OF A])
  next
    case SENDTOKEN
    with tr run have "SendTokenTransaction D E did t txn s = (Ok t', s')" by auto
    then show ?thesis
      by (rule SendTokenTransaction_OkE)
        (auto simp del: run_op.simps intro: op_progresses [OF A])
  next
    case RECEIVETOKEN
    with tr run have "ReceiveTokenTransaction D E visit did t txn s = (Ok t', s')" by auto
    then show ?thesis by (rule ReceiveTokenTransaction_OkE) (auto simp del: run_op.simps intro: op_progresses [OF A])
  qed (use tr plain in auto)
qed

lemma txn_run_progresses:
  assumes "txn_run D E visit did x y" "tokens_rel D x A"
  shows "progresses A y"
  using assms
proof (induction rule: txn_run.induct)
  case start
  then show ?case by (auto simp: progresses_def)
next
  case (applied t s txn tr t' s')
  then obtain B where B: "tokens_rel D (t, s) B" "tokens_grow A B" "tokens_inv A \<longrightarrow> tokens_inv B"
    by (auto simp: progresses_def)
  from transactor_progresses [OF B(1) applied.hyps(2,3)] B(2,3) show ?case
    unfolding progresses_def by (blast intro: tokens_grow_trans)
next
  case (refused t s txn tr r s')
  then obtain B where B: "tokens_rel D (t, s) B" "tokens_grow A B" "tokens_inv A \<longrightarrow> tokens_inv B"
    by (auto simp: progresses_def)
  have "store_ext D s s'" using keepsD [OF transactor_ext [OF refused.hyps(2)] refused.hyps(3)] .
  then have "tokens_rel D (t, s') B" using B(1) by (auto simp: tokens_rel_def intro: tree_rel_ext)
  with B(2,3) show ?case unfolding progresses_def by blast
qed

end

section \<open>Concrete transactions\<close>

definition empty_txn :: "Transaction_Type \<Rightarrow> Transaction" where
  "empty_txn ty = \<lparr>txn_Type = ty, txn_EstablishTokenPayload = None, txn_MintTokenPayload = None,
     txn_SendTokenPayload = None, txn_ReceiveTokenPayload = None, txn_SetDataPayload = None,
     txn_SetOwnershipPayload = None, txn_StakePayload = None\<rparr>"

definition establish_cash :: Transaction where
  "establish_cash = (empty_txn ESTABLISHTOKEN)\<lparr>txn_EstablishTokenPayload :=
     Some \<lparr>etp_Name = ''cash'', etp_MonetaryPolicy = Some \<lparr>pol_Maximum = 100\<rparr>\<rparr>\<rparr>"

lemma establish_cash_run:
  "EstablishTokenTransaction ref_dag ref_txns ''did:tupelo:a'' (ref_tip 0) establish_cash ref_start =
     (Ok (ref_tip 3), l_store ledger1)"
  by code_simp

section \<open>Properties\<close>

text \<open>C10: histories of transactions of any type and payload. In a tree that starts with tokens
  represented by \<^verbatim>\<open>A\<close>, however many transactions are applied or refused (mints and sends
  of tokens that are not there included), every token that existed still exists with the same monetary policy, its lists of mints, sends and
  receives have only been appended to, and if every token was conserved, capped and
  received once at the start, every token is at the end: no transaction of one type can
  undo what the ledger guarantees.\<close>

theorem txn_history:
  assumes "dag_laws D" "txn_run D E visit did x y" "tokens_rel D x A"
  shows "\<exists>B. tokens_rel D y B \<and>
    (\<forall>n k. A n = Some k \<longrightarrow> (\<exists>k'. B n = Some k' \<and> a_policy k' = a_policy k \<and>
       prefix (a_mints k) (a_mints k') \<and> prefix (a_sends k) (a_sends k') \<and>
       prefix (a_receives k) (a_receives k'))) \<and>
    ((\<forall>n k. A n = Some k \<longrightarrow> ledger_inv k) \<longrightarrow> (\<forall>n k. B n = Some k \<longrightarrow> ledger_inv k))"
  using dag_laws.txn_run_progresses [OF assms] dag_laws.progresses_def [OF assms(1)]
  unfolding tokens_grow_def tokens_inv_def grows_def by auto

theorem txn_history_witness:
  "\<exists>B. tokens_rel ref_dag (ref_tip 3, l_store ledger1) B \<and> (\<forall>n k. B n = Some k \<longrightarrow> ledger_inv k)"
proof -
  have "txn_run ref_dag ref_txns id ''did:tupelo:a'' (ref_tip 0, ref_start) (ref_tip 3, l_store ledger1)"
    using establish_cash_run
    by (intro txn_run.applied [OF txn_run.start, where txn = establish_cash
          and tr = "EstablishTokenTransaction ref_dag ref_txns"])
      (simp_all add: establish_cash_def empty_txn_def)
  moreover have "tokens_rel ref_dag (ref_tip 0, ref_start) (\<lambda>_. None)"
    using no_token_at_start by (simp add: tokens_rel_def)
  ultimately show ?thesis
    using txn_history [OF ref.dag_laws_axioms, of ref_txns id "''did:tupelo:a''" "(ref_tip 0, ref_start)"
        "(ref_tip 3, l_store ledger1)" "\<lambda>_. None"] by simp
qed

text \<open>C12: a set-data transaction stays inside \<^verbatim>\<open>data\<close>. Whatever path its payload names (also one
  that spells \<^verbatim>\<open>_tupelo/...\<close>), a successful one writes the decoded value at that path below
  \<^verbatim>\<open>data\<close>, so that path then resolves to something unless the value is nil, and every
  path outside \<^verbatim>\<open>data\<close> (ownership, tokens, stake) resolves as before. A malformed path is
  refused with its coded error and nothing is written.\<close>

theorem SetData_confined:
  assumes "dag_laws D" "EnsureSetDataPayload E txn = Ok p"
  shows "(SetDataTransaction D E did t txn s = (Ok t', s') \<longrightarrow>
      (\<exists>path val. DecodePath (sdp_Path p) = Ok path \<and> cbor_DecodeInto D (sdp_Value p) = Ok val \<and>
        (val \<noteq> GNil \<longrightarrow> (\<exists>v. resolves D t' (''data'' # path) s' v \<and> v \<noteq> GNil)) \<and>
        (\<forall>q v. q \<noteq> [] \<longrightarrow> hd q \<noteq> ''data'' \<longrightarrow> resolves D t q s v \<longrightarrow> resolves D t' q s' v))) \<and>
    (\<not> is_ok (DecodePath (sdp_Path p)) \<longrightarrow>
      SetDataTransaction D E did t txn s =
        (Fail (ErrorCode ErrUnknown ''error decoding path: %v'' [repeated_separator]), s))"
proof (intro conjI impI)
  assume run: "SetDataTransaction D E did t txn s = (Ok t', s')"
  then obtain path val w where w: "DecodePath (sdp_Path p) = Ok path" "cbor_DecodeInto D (sdp_Value p) = Ok val"
    "dag_writer D w" "w t (''data'' # path) val s = (Ok t', s')"
    using assms(2) by (auto elim: SetDataTransaction_OkE)
  have "resolves D t' q s' v" if "q \<noteq> []" "hd q \<noteq> ''data''" "resolves D t q s v" for q v
    using dag_laws.frame_resolve [OF assms(1) w(3,4) _ that(3)] that(1,2)
    by (cases q) (auto simp: independent_def)
  moreover have "\<exists>v. resolves D t' (''data'' # path) s' v \<and> v \<noteq> GNil" if "val \<noteq> GNil"
    using dag_laws.write_ancestor [OF assms(1) w(3), of t "''data'' # path" "[]"] w(4) that by simp
  ultimately show "\<exists>path val. DecodePath (sdp_Path p) = Ok path \<and> cbor_DecodeInto D (sdp_Value p) = Ok val \<and>
        (val \<noteq> GNil \<longrightarrow> (\<exists>v. resolves D t' (''data'' # path) s' v \<and> v \<noteq> GNil)) \<and>
        (\<forall>q v. q \<noteq> [] \<longrightarrow> hd q \<noteq> ''data'' \<longrightarrow> resolves D t q s v \<longrightarrow> resolves D t' q s' v)"
    using w(1,2) by blast
qed (use assms(2) DecodePath_Fail [of "sdp_Path p"] in \<open>simp add: SetDataTransaction_def eff_defs\<close>)

definition set_greeting :: "string \<Rightarrow> Transaction" where
  "set_greeting p = (empty_txn SETDATA)\<lparr>txn_SetDataPayload := Some \<lparr>sdp_Path = p, sdp_Value = [7]\<rparr>\<rparr>"

theorem SetData_confined_witness:
  "(\<exists>v. resolves ref_dag (ref_tip 1) [''data'', ''_tupelo'', ''tokens'']
      (snd (SetDataTransaction ref_dag ref_txns ''did:tupelo:a'' (ref_tip 0) (set_greeting ''/_tupelo/tokens'') ref_start)) v \<and> v \<noteq> GNil) \<and>
   SetDataTransaction ref_dag ref_txns ''did:tupelo:a'' (ref_tip 0) (set_greeting ''a//b'') ref_start =
     (Fail (ErrorCode ErrUnknown ''error decoding path: %v'' [repeated_separator]), ref_start)"
proof -
  have e: "EnsureSetDataPayload ref_txns (set_greeting p) = Ok \<lparr>sdp_Path = p, sdp_Value = [7]\<rparr>" for p
    by (simp add: ref_txns_def ensured_def set_greeting_def)
  have p: "DecodePath ''/_tupelo/tokens'' = Ok [''_tupelo'', ''tokens'']" by code_simp
  have bad: "\<not> is_ok (DecodePath ''a//b'')" by code_simp
  have "fst (SetDataTransaction ref_dag ref_txns ''did:tupelo:a'' (ref_tip 0) (set_greeting ''/_tupelo/tokens'') ref_start) = Ok (ref_tip 1)"
    using e p by (simp add: SetDataTransaction_def eff_defs ref_dag_def ref_write_def ref_start_def)
  then have run: "SetDataTransaction ref_dag ref_txns ''did:tupelo:a'' (ref_tip 0) (set_greeting ''/_tupelo/tokens'') ref_start =
    (Ok (ref_tip 1), snd (SetDataTransaction ref_dag ref_txns ''did:tupelo:a'' (ref_tip 0) (set_greeting ''/_tupelo/tokens'') ref_start))"
    by (simp add: prod_eq_iff)
  show ?thesis
    using SetData_confined [OF ref.dag_laws_axioms e, THEN conjunct1, rule_format, OF run] p
      SetData_confined [OF ref.dag_laws_axioms e, THEN conjunct2, rule_format] bad
    by (auto simp: ref_dag_def)
qed

section \<open>Receiving what was sent\<close>

lemma findFirstLinkedNode_OkD:
  "findFirstLinkedNode D s kvs = Ok (k, n) \<Longrightarrow> \<exists>c. (k, GCid c) \<in> set kvs \<and> dag_Get D c s = Ok n"
proof (induction kvs)
  case (Cons kv kvs)
  then show ?case
    by (cases kv; cases "snd kv") (auto split: res.splits)
qed simp

lemma map_set_entries: "(k, v) \<in> set (map_set k' v' m) \<Longrightarrow> v = v' \<or> (k, v) \<in> set m"
  by (induction m) (auto split: if_splits)

lemma index_map_entries: "(k, v) \<in> set (index_map i xs m) \<Longrightarrow> v \<in> set xs \<or> (k, v) \<in> set m"
  by (induction xs arbitrary: i m) (auto dest: map_set_entries)

lemma GetSendTokenFromReceive_OkD:
  assumes "GetSendTokenFromReceive D visit sd nm = Ok snt" "\<And>m. set (visit m) = set m"
  shows "\<exists>sends c n. dag_Resolve D (fst sd) [''tree'', ''_tupelo'', ''tokens'', TokenName_String nm, ''sends''] (snd sd)
      = Ok (GList sends, []) \<and> GCid c \<in> set sends \<and> dag_Get D c (snd sd) = Ok n \<and>
      cbor_DecodeIntoSend D (node_RawData n) = Ok snt"
proof -
  obtain sends k n where sends: "dag_Resolve D (fst sd)
      [''tree'', ''_tupelo'', ''tokens'', TokenName_String nm, ''sends''] (snd sd) = Ok (GList sends, [])"
    and n: "findFirstLinkedNode D (snd sd) (visit (index_map 0 sends [])) = Ok (k, n)"
    "cbor_DecodeIntoSend D (node_RawData n) = Ok snt"
    using assms(1)
    by (auto simp: GetSendTokenFromReceive_def Let_def go_ok label_consts split: if_splits goval.splits)
  from findFirstLinkedNode_OkD [OF n(1)] obtain c where
    "(k, GCid c) \<in> set (index_map 0 sends [])" "dag_Get D c (snd sd) = Ok n" using assms(2) by auto
  with index_map_entries [of k "GCid c"] sends n(2) show ?thesis by fastforce
qed

text \<open>C11: what a receive-token transaction credits was sent. If it succeeds, the payload's tip is
  the root of the DAG rebuilt from its leaves; that DAG holds, in the list of sends of the
  token it names, a link to a node it contains that decodes to a send; exactly that
  send's amount is added to the token's balance in the receiving tree (a token received
  for the first time is created), the send's transaction id was not among the receives,
  and no other token changes. This holds in whatever order Go visits the maps.\<close>

theorem ReceiveToken_credits_send:
  assumes "dag_laws D" "\<forall>m. set (visit m) = set m" "tokens_rel D (t, s) A"
    "ReceiveTokenTransaction D E visit did t txn s = (Ok t', s')"
  shows "\<exists>p tip sds nm sends c n snt. EnsureReceiveTokenPayload E txn = Ok p \<and>
    cid_Cast D (rtp_Tip p) = Ok tip \<and> GetSenderDagFromReceive D p = Ok (tip, sds) \<and>
    dag_Resolve D tip [''tree'', ''_tupelo'', ''tokens'', TokenName_String nm, ''sends''] sds = Ok (GList sends, []) \<and>
    GCid c \<in> set sends \<and> dag_Get D c sds = Ok n \<and> cbor_DecodeIntoSend D (node_RawData n) = Ok snt \<and>
    (let k = (case A (TokenName_String nm) of None \<Rightarrow> fresh_token None | Some k \<Rightarrow> k) in
       rtp_SendTokenTransactionId p \<notin> set (received_ids k) \<and>
       tokens_rel D (t', s') (A(TokenName_String nm \<mapsto>
         add_receive (rtp_SendTokenTransactionId p) (ts_Amount snt) k)))"
  using assms(4)
proof (rule ReceiveTokenTransaction_OkE)
  fix p sd nm snt l'
  assume p: "EnsureReceiveTokenPayload E txn = Ok p" "cid_Cast D (rtp_Tip p) = Ok (fst sd)"
      "GetSenderDagFromReceive D p = Ok sd" and nm: "GetTokenNameFromReceive D visit sd = Ok nm"
    and snt: "GetSendTokenFromReceive D visit sd nm = Ok snt"
    and op: "run_op D (OpReceive (rtp_SendTokenTransactionId p) (ts_Amount snt)) (NewTreeLedger t nm s) = (Ok t', l')"
    and s': "s' = l_store l'"
  obtain sends c n where "dag_Resolve D (fst sd) [''tree'', ''_tupelo'', ''tokens'', TokenName_String nm, ''sends''] (snd sd)
      = Ok (GList sends, []) \<and> GCid c \<in> set sends \<and> dag_Get D c (snd sd) = Ok n \<and>
      cbor_DecodeIntoSend D (node_RawData n) = Ok snt"
    using GetSendTokenFromReceive_OkD [OF snt] assms(2) by blast
  moreover obtain k' where "spec_step (OpReceive (rtp_SendTokenTransactionId p) (ts_Amount snt)) (A (TokenName_String nm)) k'"
    "tokens_rel D (t', l_store l') (A(TokenName_String nm \<mapsto> k'))"
    using dag_laws.run_op_tokens [OF assms(1,3) op] by auto
  ultimately show ?thesis
    using p s' by (intro exI [of _ p] exI [of _ "fst sd"] exI [of _ "snd sd"] exI [of _ nm] exI [of _ sends]
        exI [of _ c] exI [of _ n] exI [of _ snt])
      (auto simp: spec_step_simps Let_def received_ids_def fresh_token_def)
qed

definition coin_sent :: TokenSend where
  "coin_sent = \<lparr>ts_Id = ''tx'', ts_Amount = 9, ts_Destination = ''did:tupelo:a''\<rparr>"

definition sender_store :: ref_store where
  "sender_store = \<lparr>
     rs_trees = [[([''tree'', ''_tupelo'', ''tokens'', ''did:tupelo:b:coin'', ''sends''],
          GCids [Cid (1 # ref_enc (GTokenSend coin_sent))]),
        ([''tree'', ''_tupelo'', ''tokens''], GMap [(''did:tupelo:b:coin'', GCid (Cid [1, 3]))])]],
     rs_nodes = [[3], ref_enc (GTokenSend coin_sent)]\<rparr>"

definition receiving_dag :: "ref_store dag_lib" where
  "receiving_dag = ref_dag\<lparr>dag_NewDagWithNodes := \<lambda>_. Ok (ref_tip 0, sender_store)\<rparr>"

definition receive_coin :: ReceiveTokenPayload where
  "receive_coin = \<lparr>rtp_SendTokenTransactionId = ''tx'', rtp_Tip = [0], rtp_Proof = None, rtp_Leaves = [[3]]\<rparr>"

definition receive_coin_txn :: Transaction where
  "receive_coin_txn = (empty_txn RECEIVETOKEN)\<lparr>txn_ReceiveTokenPayload := Some receive_coin\<rparr>"

lemma receiving_dag_total: "dag_total receiving_dag"
  unfolding receiving_dag_def by (rule dag_total_NewDag [OF ref.dag_total_axioms])

lemma receiving_steps:
  "EnsureReceiveTokenPayload ref_txns receive_coin_txn = Ok receive_coin"
  "cid_Cast receiving_dag (rtp_Tip receive_coin) = Ok (ref_tip 0)"
  "GetSenderDagFromReceive receiving_dag receive_coin = Ok (ref_tip 0, sender_store)"
  "GetTokenNameFromReceive receiving_dag id (ref_tip 0, sender_store) = Ok coin"
  "GetSendTokenFromReceive receiving_dag id (ref_tip 0, sender_store) coin = Ok coin_sent"
proof -
  let ?R = "dag_Resolve receiving_dag (ref_tip 0)"
  have d: "cbor_DecodeIntoSend receiving_dag (ref_enc (GTokenSend coin_sent)) = Ok coin_sent"
    by (simp add: receiving_dag_def ref_dec_send_def)
  have tok: "?R [''tree'', ''_tupelo'', ''tokens''] sender_store =
      Ok (GMap [(''did:tupelo:b:coin'', GCid (Cid [1, 3]))], [])"
    and snds: "?R [''tree'', ''_tupelo'', ''tokens'', ''did:tupelo:b:coin'', ''sends''] sender_store =
      Ok (GList [GCid (Cid (1 # ref_enc (GTokenSend coin_sent)))], [])"
    by (simp_all add: receiving_dag_def ref_dag_def ref_read_def ref_tree_def ref_tip_def sender_store_def
        ref_resolve_def)
  have g: "dag_Get receiving_dag (Cid [1, 3]) sender_store = Ok \<lparr>node_Cid = Cid [1, 3], node_RawData = [3]\<rparr>"
    "dag_Get receiving_dag (Cid (1 # ref_enc (GTokenSend coin_sent))) sender_store =
       Ok \<lparr>node_Cid = Cid (1 # ref_enc (GTokenSend coin_sent)), node_RawData = ref_enc (GTokenSend coin_sent)\<rparr>"
    by (simp_all add: receiving_dag_def ref_get_def sender_store_def)
  have n: "TokenNameFromString ''did:tupelo:b:coin'' = coin" "TokenName_String coin = ''did:tupelo:b:coin''"
    by code_simp+
  show "EnsureReceiveTokenPayload ref_txns receive_coin_txn = Ok receive_coin"
    by (simp add: ref_txns_def ensured_def receive_coin_txn_def)
  show "cid_Cast receiving_dag (rtp_Tip receive_coin) = Ok (ref_tip 0)"
    by (simp add: receiving_dag_def ref_dag_def receive_coin_def ref_tip_def)
  show "GetSenderDagFromReceive receiving_dag receive_coin = Ok (ref_tip 0, sender_store)"
    by (simp add: GetSenderDagFromReceive_def receiving_dag_def ref_dag_def receive_coin_def)
  show "GetTokenNameFromReceive receiving_dag id (ref_tip 0, sender_store) = Ok coin"
    using tok g n by (simp add: GetTokenNameFromReceive_def)
  show "GetSendTokenFromReceive receiving_dag id (ref_tip 0, sender_store) coin = Ok coin_sent"
    using snds g n d by (simp add: GetSendTokenFromReceive_def label_consts)
qed

theorem ReceiveToken_credits_send_witness:
  "\<exists>t' s' nm. \<exists>snt :: TokenSend. ReceiveTokenTransaction receiving_dag ref_txns id ''did:tupelo:a'' (ref_tip 0) receive_coin_txn ref_start
       = (Ok t', s') \<and>
     tokens_rel receiving_dag (t', s') [TokenName_String nm \<mapsto> add_receive ''tx'' (ts_Amount snt) (fresh_token None)]"
proof -
  have start: "tokens_rel receiving_dag (ref_tip 0, ref_start) (\<lambda>_. None)"
    using no_token_at_start by (simp add: tokens_rel_def tree_rel_def resolves_def receiving_dag_def)
  then have "ledger_rel receiving_dag (NewTreeLedger (ref_tip 0) coin ref_start) None"
    by (simp add: tokens_rel_def ledger_rel_def)
  from ledger_result [OF dag_total.receive_total [OF receiving_dag_total this, of "''tx''" 9]]
  obtain t' l' where "ReceiveToken receiving_dag ''tx'' 9 (NewTreeLedger (ref_tip 0) coin ref_start) = (Ok t', l')"
    by auto
  then have run: "ReceiveTokenTransaction receiving_dag ref_txns id ''did:tupelo:a'' (ref_tip 0) receive_coin_txn ref_start
      = (Ok t', l_store l')"
    using receiving_steps
    by (simp add: ReceiveTokenTransaction_def eff_defs with_ledger_def receive_coin_def coin_sent_def)
  have "dag_laws receiving_dag" using receiving_dag_total by (rule dag_total.axioms)
  from ReceiveToken_credits_send [OF this _ start run] receiving_steps(1) run show ?thesis
    by (auto simp: Let_def receive_coin_def)
qed

end
