(* ===== verification/Bls.thy ===== *)
theory Bls
  imports Messages "HOL-Library.Multiset"
begin

text \<open>
  \<^verbatim>\<open>src/bls/bls.go\<close>: sign keys, verification keys, and the sums of signatures and keys. The
  pairing library (\<^verbatim>\<open>go.dedis.ch/kyber/v3\<close>) is the parameter \<^verbatim>\<open>kyber\<close>; the locale
  \<^verbatim>\<open>bls_scheme\<close> states what the sources rely on: points survive marshalling, sums of keys
  do not depend on order, sums of sums are sums, a signature verifies against its key, and
  the sum of signatures that verify over one message verifies against the sum of their keys.
\<close>

section \<open>The library\<close>

record ('k, 'p) kyber =
  Scalar_UnmarshalBinary :: "bytes \<Rightarrow> 'k res"
  Scalar_MarshalBinary :: "'k \<Rightarrow> bytes res"
  Point_Mul :: "'k \<Rightarrow> 'p"
  Point_UnmarshalBinary :: "bytes \<Rightarrow> 'p res"
  Point_MarshalBinary :: "'p \<Rightarrow> bytes res"
  dedis_Sign :: "'k \<Rightarrow> bytes \<Rightarrow> bytes res"
  dedis_Verify :: "'p \<Rightarrow> bytes \<Rightarrow> bytes \<Rightarrow> unit res"
  dedis_AggregateSignatures :: "bytes list \<Rightarrow> bytes res"
  dedis_AggregatePublicKeys :: "'p list \<Rightarrow> 'p"

section \<open>Keys\<close>

record 'p VerKey =
  vk_value :: bytes
  vk_public :: 'p

record ('k, 'p) SignKey =
  sk_private :: 'k
  sk_verKey :: "'p VerKey"
  sk_value :: bytes

text \<open>\<^verbatim>\<open>verKeyBytes, _ := public.MarshalBinary()\<close>: an error leaves the nil slice.\<close>

definition bytes_or_nil :: "bytes res \<Rightarrow> bytes" where
  "bytes_or_nil r = (case r of Ok b \<Rightarrow> b | _ \<Rightarrow> [])"

definition BytesToSignKey :: "('k, 'p) kyber \<Rightarrow> bytes \<Rightarrow> ('k, 'p) SignKey res" where
  "BytesToSignKey K keyBytes =
     (case Scalar_UnmarshalBinary K keyBytes of
        Ok scalar \<Rightarrow>
          let public = Point_Mul K scalar; verKeyBytes = bytes_or_nil (Point_MarshalBinary K public) in
          Ok \<lparr>sk_private = scalar, sk_verKey = \<lparr>vk_value = verKeyBytes, vk_public = public\<rparr>, sk_value = keyBytes\<rparr>
      | _ \<Rightarrow> Panic ''invalid sign key: %v'')"

definition BytesToVerKey :: "('k, 'p) kyber \<Rightarrow> bytes \<Rightarrow> 'p VerKey res" where
  "BytesToVerKey K keyBytes =
     (case Point_UnmarshalBinary K keyBytes of
        Ok point \<Rightarrow> Ok \<lparr>vk_value = keyBytes, vk_public = point\<rparr>
      | _ \<Rightarrow> Panic ''invalid verkey bytes: %v'')"

text \<open>The random key pair is an argument.\<close>

definition NewSignKey :: "('k, 'p) kyber \<Rightarrow> 'k \<times> 'p \<Rightarrow> ('k, 'p) SignKey res" where
  "NewSignKey K pair =
     (case pair of (private, public) \<Rightarrow>
       rbind (wrapf ''error marshaling: %v'' (Scalar_MarshalBinary K private)) (\<lambda>privBytes.
       rbind (wrapf ''error marshaling: %v'' (Point_MarshalBinary K public)) (\<lambda>pubBytes.
       Ok \<lparr>sk_private = private, sk_verKey = \<lparr>vk_value = pubBytes, vk_public = public\<rparr>, sk_value = privBytes\<rparr>)))"

definition MustNewSignKey :: "('k, 'p) kyber \<Rightarrow> 'k \<times> 'p \<Rightarrow> ('k, 'p) SignKey res" where
  "MustNewSignKey K pair =
     (case NewSignKey K pair of Ok key \<Rightarrow> Ok key | _ \<Rightarrow> Panic ''error generating key: %v'')"

definition SignKey_Bytes :: "('k, 'p) SignKey \<Rightarrow> bytes" where
  "SignKey_Bytes sk = sk_value sk"

definition SignKey_Sign :: "('k, 'p) kyber \<Rightarrow> ('k, 'p) SignKey \<Rightarrow> bytes \<Rightarrow> bytes res" where
  "SignKey_Sign K sk msg = dedis_Sign K (sk_private sk) msg"

definition SignKey_VerKey :: "('k, 'p) SignKey \<Rightarrow> 'p VerKey res" where
  "SignKey_VerKey sk = Ok (sk_verKey sk)"

definition MustVerKey :: "('k, 'p) SignKey \<Rightarrow> 'p VerKey res" where
  "MustVerKey sk = (case SignKey_VerKey sk of Ok v \<Rightarrow> Ok v | _ \<Rightarrow> Panic ''error getting verKey: %v'')"

definition VerKey_Bytes :: "'p VerKey \<Rightarrow> bytes" where
  "VerKey_Bytes vk = vk_value vk"

definition VerKey_Verify :: "('k, 'p) kyber \<Rightarrow> 'p VerKey \<Rightarrow> bytes \<Rightarrow> bytes \<Rightarrow> bool res" where
  "VerKey_Verify K vk sig msg =
     (case dedis_Verify K (vk_public vk) msg sig of
        Ok _ \<Rightarrow> Ok True | Fail _ \<Rightarrow> Ok False | Panic p \<Rightarrow> Panic p)"

section \<open>Sums\<close>

definition SumSignatures :: "('k, 'p) kyber \<Rightarrow> bytes list \<Rightarrow> bytes res" where
  "SumSignatures K sigs = dedis_AggregateSignatures K sigs"

definition SumVerKeys :: "('k, 'p) kyber \<Rightarrow> 'p VerKey list \<Rightarrow> 'p VerKey res" where
  "SumVerKeys K verKeys =
     (let points = map vk_public verKeys;
          aggregatedPublic = dedis_AggregatePublicKeys K points in
      rbind (wrapf ''error marshaling: %v'' (Point_MarshalBinary K aggregatedPublic)) (\<lambda>pubBytes.
      Ok \<lparr>vk_value = pubBytes, vk_public = aggregatedPublic\<rparr>))"

fun unmarshal_points :: "('k, 'p) kyber \<Rightarrow> bytes list \<Rightarrow> 'p list res" where
  "unmarshal_points K [] = Ok []"
| "unmarshal_points K (verKeyBytes # verKeys) =
     rbind (wrapf ''error unmarshaling: %v'' (Point_UnmarshalBinary K verKeyBytes)) (\<lambda>p.
     rbind (unmarshal_points K verKeys) (\<lambda>points. Ok (p # points)))"

definition VerifyMultiSig :: "('k, 'p) kyber \<Rightarrow> bytes \<Rightarrow> bytes \<Rightarrow> bytes list \<Rightarrow> bool res" where
  "VerifyMultiSig K sig msg verKeys =
     rbind (unmarshal_points K verKeys) (\<lambda>points.
     let aggregatedPublic = dedis_AggregatePublicKeys K points in
     case dedis_Verify K aggregatedPublic msg sig of
       Ok _ \<Rightarrow> Ok True | Fail _ \<Rightarrow> Ok False | Panic p \<Rightarrow> Panic p)"

section \<open>The laws\<close>

text \<open>\<^verbatim>\<open>verifies K m p s\<close>: the library accepts \<^verbatim>\<open>s\<close> as a signature over \<^verbatim>\<open>m\<close> by the key \<^verbatim>\<open>p\<close>.\<close>

definition verifies :: "('k, 'p) kyber \<Rightarrow> bytes \<Rightarrow> 'p \<Rightarrow> bytes \<Rightarrow> bool" where
  "verifies K m p s \<longleftrightarrow> dedis_Verify K p m s = Ok ()"

locale bls_scheme =
  fixes K :: "('k, 'p) kyber"
  assumes marshal_total: "\<exists>b. Point_MarshalBinary K p = Ok b \<and> b \<noteq> []"
    and unmarshal_marshal: "Point_MarshalBinary K p = Ok b \<Longrightarrow> Point_UnmarshalBinary K b = Ok p"
    and sign_total: "\<exists>s. dedis_Sign K k m = Ok s"
    and verify_sign: "dedis_Sign K k m = Ok s \<Longrightarrow> verifies K m (Point_Mul K k) s"
    and aggregate_total: "list_all2 (verifies K m) ps ss \<Longrightarrow> ss \<noteq> [] \<Longrightarrow>
      \<exists>s. dedis_AggregateSignatures K ss = Ok s"
    and verify_sum: "list_all2 (verifies K m) ps ss \<Longrightarrow> ss \<noteq> [] \<Longrightarrow>
      dedis_AggregateSignatures K ss = Ok s \<Longrightarrow> verifies K m (dedis_AggregatePublicKeys K ps) s"
    and sum_perm: "mset ps = mset qs \<Longrightarrow> dedis_AggregatePublicKeys K ps = dedis_AggregatePublicKeys K qs"
    and sum_flat: "dedis_AggregatePublicKeys K (map (dedis_AggregatePublicKeys K) pss) =
      dedis_AggregatePublicKeys K (concat pss)"
    and sum_one: "dedis_AggregatePublicKeys K [p] = p"
begin

definition key_bytes :: "'p \<Rightarrow> bytes" where
  "key_bytes p = bytes_or_nil (Point_MarshalBinary K p)"

lemma marshal_key_bytes [simp]: "Point_MarshalBinary K p = Ok (key_bytes p)"
  using marshal_total [of p] by (auto simp: key_bytes_def bytes_or_nil_def)

lemma key_bytes_ne [simp]: "key_bytes p \<noteq> []"
  using marshal_total [of p] by auto

lemma unmarshal_key_bytes [simp]: "Point_UnmarshalBinary K (key_bytes p) = Ok p"
  by (rule unmarshal_marshal) simp

lemma BytesToVerKey_key_bytes [simp]:
  "BytesToVerKey K (key_bytes p) = Ok \<lparr>vk_value = key_bytes p, vk_public = p\<rparr>"
  by (simp add: BytesToVerKey_def)

lemma SumVerKeys_eq [simp]:
  "SumVerKeys K vks = Ok \<lparr>vk_value = key_bytes (dedis_AggregatePublicKeys K (map vk_public vks)),
     vk_public = dedis_AggregatePublicKeys K (map vk_public vks)\<rparr>"
  by (simp add: SumVerKeys_def Let_def)

lemma sum_perm_flat:
  assumes "mset (concat pss) = mset qs"
  shows "dedis_AggregatePublicKeys K (map (dedis_AggregatePublicKeys K) pss) =
    dedis_AggregatePublicKeys K qs"
  using sum_perm [OF assms] by (simp add: sum_flat)

lemma sum_cong:
  assumes "list_all2 (\<lambda>p qs. p = dedis_AggregatePublicKeys K qs) ps pss"
    "mset (concat pss) = mset qs"
  shows "dedis_AggregatePublicKeys K ps = dedis_AggregatePublicKeys K qs"
proof -
  have "ps = map (dedis_AggregatePublicKeys K) pss"
    using assms(1) by (induction rule: list_all2_induct) auto
  then show ?thesis using sum_perm_flat [OF assms(2)] by simp
qed

end

end
