(* ===== verification/Signatures.thy ===== *)
theory Signatures
  imports Bls
begin

text \<open>
  \<^verbatim>\<open>src/signatures/signature.go\<close>: addresses of owners, recovery of public keys, validity of
  signatures and their conditions, signing, and aggregation of BLS signatures with the
  counts of their signers. \<^verbatim>\<open>go-ethereum/crypto\<close> and the script interpreter \<^verbatim>\<open>parens\<close> are
  the parameter \<^verbatim>\<open>crypto_lib\<close>. Messages are passed by pointer in Go; the functions that
  change one return it changed, and pointers inside messages are taken to be set.
\<close>

section \<open>The libraries\<close>

type_synonym address = bytes

text \<open>
  \<^verbatim>\<open>ExecuteStr\<close> returns whether the script's value is the boolean true (\<^verbatim>\<open>res == true\<close>).
\<close>

record ('e, 'd, 'sc) crypto_lib =
  Keccak256 :: "bytes \<Rightarrow> bytes"
  Keccak256Hash_String :: "bytes \<Rightarrow> string"
  BytesToAddress :: "bytes \<Rightarrow> address"
  Address_String :: "address \<Rightarrow> string"
  UnmarshalPubkey :: "bytes \<Rightarrow> 'e res"
  FromECDSAPub :: "'e \<Rightarrow> bytes"
  PubkeyToAddress :: "'e \<Rightarrow> address"
  ecdsa_Public :: "'d \<Rightarrow> 'e"
  SigToPub :: "bytes \<Rightarrow> bytes \<Rightarrow> 'e res"
  VerifySignature :: "bytes \<Rightarrow> bytes \<Rightarrow> bytes \<Rightarrow> bool"
  crypto_Sign :: "bytes \<Rightarrow> 'd \<Rightarrow> bytes res"
  NewDefaultScope :: 'sc
  scope_Bind :: "'sc \<Rightarrow> string \<Rightarrow> string \<Rightarrow> 'sc res"
  ExecuteStr :: "string \<Rightarrow> 'sc \<Rightarrow> bool res"

section \<open>Addresses\<close>

definition bytesToAddress :: "('e, 'd, 'sc) crypto_lib \<Rightarrow> bytes \<Rightarrow> address" where
  "bytesToAddress C bits = BytesToAddress C (Keccak256 C bits)"

definition Address :: "('e, 'd, 'sc) crypto_lib \<Rightarrow> Ownership \<Rightarrow> address res" where
  "Address C ow =
     (if own_Conditions ow \<noteq> []
      then Ok (bytesToAddress C (pk_PublicKey (own_PublicKey ow) @ bytes_of (own_Conditions ow)))
      else (case pk_Type (own_PublicKey ow) of
          KeyTypeSecp256k1 \<Rightarrow>
            rbind (wrapf ''error unmarshaling public key: %w'' (UnmarshalPubkey C (pk_PublicKey (own_PublicKey ow))))
              (\<lambda>key. Ok (PubkeyToAddress C key))
        | KeyTypeBLSGroupSig \<Rightarrow> Ok (bytesToAddress C (pk_PublicKey (own_PublicKey ow)))
        | KeyTypeOther i \<Rightarrow> Fail (Errorf ''unknown keytype: %s'' [])))"

section \<open>Restoring public keys\<close>

definition set_PublicKey :: "bytes \<Rightarrow> Signature \<Rightarrow> Signature" where
  "set_PublicKey b s = s\<lparr>sig_Ownership := (sig_Ownership s)\<lparr>own_PublicKey :=
     (own_PublicKey (sig_Ownership s))\<lparr>pk_PublicKey := b\<rparr>\<rparr>\<rparr>"

definition RestoreEcdsaPublicKey ::
  "('e, 'd, 'sc) crypto_lib \<Rightarrow> Signature \<Rightarrow> bytes \<Rightarrow> Signature res" where
  "RestoreEcdsaPublicKey C s hsh =
     (if pk_Type (own_PublicKey (sig_Ownership s)) \<noteq> KeyTypeSecp256k1
      then Fail (Errorf ''error only KeyTypeSecp256k1 supports key recovery'' [])
      else rbind (wrapf ''error recovering signature: %w'' (SigToPub C hsh (sig_Signature s))) (\<lambda>recoveredPub.
           Ok (set_PublicKey (FromECDSAPub C recoveredPub) s)))"

text \<open>The loop over the signer counts: each key as often as it signed.\<close>

fun gather_keys :: "'p VerKey list \<Rightarrow> u32 list \<Rightarrow> 'p VerKey list \<Rightarrow> 'p VerKey list" where
  "gather_keys (verKey # knownVerKeys) (cnt # signers) verKeys =
     gather_keys knownVerKeys signers
       (if cnt > 0 then verKeys @ replicate (unat cnt) verKey else verKeys)"
| "gather_keys knownVerKeys signers verKeys = verKeys"

definition signers_mismatch :: goerr where
  "signers_mismatch = Errorf ''error known verkeys length did not match signers length: %d != %d'' []"

definition RestoreBLSPublicKey ::
  "('k, 'p) kyber \<Rightarrow> Signature \<Rightarrow> 'p VerKey list \<Rightarrow> Signature res" where
  "RestoreBLSPublicKey K s knownVerKeys =
     (if length knownVerKeys \<noteq> length (sig_Signers s) then Fail signers_mismatch
      else
        let verKeys = gather_keys knownVerKeys (sig_Signers s) [] in
        rbind (wrapf ''error summing keys: %w'' (SumVerKeys K verKeys)) (\<lambda>key.
        Ok (s\<lparr>sig_Ownership := (sig_Ownership s)\<lparr>own_PublicKey :=
          \<lparr>pk_Type = KeyTypeBLSGroupSig, pk_PublicKey = VerKey_Bytes key\<rparr>\<rparr>\<rparr>)))"

section \<open>Validity\<close>

definition validConditions ::
  "('e, 'd, 'sc) crypto_lib \<Rightarrow> Signature \<Rightarrow> 'sc option \<Rightarrow> bool res" where
  "validConditions C s scope =
     (if own_Conditions (sig_Ownership s) = [] then Ok True
      else
        let scope = (case scope of None \<Rightarrow> NewDefaultScope C | Some sc \<Rightarrow> sc) in
        rbind (wrapf ''error binding: %w''
          (scope_Bind C scope ''hashed-preimage'' (Keccak256Hash_String C (bytes_of (sig_PreImage s))))) (\<lambda>scope.
        rbind (wrapf ''error executing script: %w''
          (ExecuteStr C (own_Conditions (sig_Ownership s)) scope)) (\<lambda>res.
        Ok res)))"

definition no_public_key :: goerr where
  "no_public_key = Errorf ''public key was 0, perhaps you forgot to restore it from sig?'' []"

definition Valid ::
  "('e, 'd, 'sc) crypto_lib \<Rightarrow> ('k, 'p) kyber \<Rightarrow> Signature \<Rightarrow> bytes \<Rightarrow> 'sc option \<Rightarrow> bool res" where
  "Valid C K s hsh scope =
     (if length (pk_PublicKey (own_PublicKey (sig_Ownership s))) = 0 then Fail no_public_key
      else
      rbind (wrapf ''error validating conditions: %w'' (validConditions C s scope)) (\<lambda>conditionsValid.
      if \<not> conditionsValid then Ok False
      else (case pk_Type (own_PublicKey (sig_Ownership s)) of
          KeyTypeSecp256k1 \<Rightarrow>
            if sig_Signature s = [] then Panic ''slice bounds out of range [:-1]''
            else Ok (VerifySignature C (pk_PublicKey (own_PublicKey (sig_Ownership s))) hsh
                   (take (length (sig_Signature s) - 1) (sig_Signature s)))
        | KeyTypeBLSGroupSig \<Rightarrow>
            rbind (BytesToVerKey K (pk_PublicKey (own_PublicKey (sig_Ownership s)))) (\<lambda>verKey.
            rbind (wrapf ''error verifying: %w'' (VerKey_Verify K verKey (sig_Signature s) hsh)) (\<lambda>verified.
            Ok verified))
        | KeyTypeOther i \<Rightarrow> Fail (Errorf ''Unknown key type %s'' []))))"

section \<open>Owners and signing\<close>

definition EcdsaToOwnership :: "('e, 'd, 'sc) crypto_lib \<Rightarrow> 'e \<Rightarrow> Ownership" where
  "EcdsaToOwnership C key = \<lparr>own_PublicKey = \<lparr>pk_Type = KeyTypeSecp256k1, pk_PublicKey = FromECDSAPub C key\<rparr>,
     own_Conditions = []\<rparr>"

definition BLSToOwnership :: "'p VerKey \<Rightarrow> Ownership" where
  "BLSToOwnership key = \<lparr>own_PublicKey = \<lparr>pk_Type = KeyTypeBLSGroupSig, pk_PublicKey = VerKey_Bytes key\<rparr>,
     own_Conditions = []\<rparr>"

fun SignerCount_loop :: "nat \<Rightarrow> u32 list \<Rightarrow> nat" where
  "SignerCount_loop signerCount [] = signerCount"
| "SignerCount_loop signerCount (sigCount # signers) =
     SignerCount_loop (if sigCount > 0 then signerCount + 1 else signerCount) signers"

definition SignerCount :: "Signature \<Rightarrow> nat" where
  "SignerCount sig = SignerCount_loop 0 (sig_Signers sig)"

definition BLSSign ::
  "('k, 'p) kyber \<Rightarrow> ('k, 'p) SignKey \<Rightarrow> bytes \<Rightarrow> int \<Rightarrow> int \<Rightarrow> Signature res" where
  "BLSSign K key hsh signerLen signerIndex =
     (if signerIndex \<ge> signerLen
      then Fail (Errorf ''signer index must be less than signer length i: %d, l: %d'' [])
      else
      rbind (wrapf ''error getting verkey: %w'' (SignKey_VerKey key)) (\<lambda>verKey.
      rbind (wrapf ''Error signing: %w'' (SignKey_Sign K key hsh)) (\<lambda>sig.
      if signerLen < 0 then Panic ''makeslice: len out of range''
      else if signerIndex < 0 then Panic ''index out of range''
      else Ok \<lparr>sig_Ownership = BLSToOwnership verKey,
               sig_Signers = (replicate (nat signerLen) 0)[nat signerIndex := 1],
               sig_Signature = sig, sig_PreImage = []\<rparr>)))"

definition EcdsaSign :: "('e, 'd, 'sc) crypto_lib \<Rightarrow> 'd \<Rightarrow> bytes \<Rightarrow> Signature res" where
  "EcdsaSign C key hsh =
     rbind (wrapf ''error signing: %v'' (crypto_Sign C hsh key)) (\<lambda>sigBytes.
     Ok \<lparr>sig_Ownership = \<lparr>own_PublicKey = \<lparr>pk_Type = KeyTypeSecp256k1, pk_PublicKey = []\<rparr>, own_Conditions = []\<rparr>,
         sig_Signers = [], sig_Signature = sigBytes, sig_PreImage = []\<rparr>)"

section \<open>Aggregation\<close>

definition MaxUint32 :: u32 where
  "MaxUint32 = 0xFFFFFFFF"

definition would_overflow :: goerr where
  "would_overflow = Errorf ''error would overflow: %d %d'' []"

text \<open>The inner loop: \<^verbatim>\<open>newSig.Signers[i] += cnt\<close> with the guard against wrap-around.\<close>

fun add_signers :: "u32 list \<Rightarrow> u32 list \<Rightarrow> u32 list res" where
  "add_signers (existing # rest) (cnt # signers) =
     (if cnt > MaxUint32 - existing \<or> existing > MaxUint32 - cnt then Fail would_overflow
      else rbind (add_signers rest signers) (\<lambda>rest'. Ok ((existing + cnt) # rest')))"
| "add_signers existing signers = Ok existing"

fun aggregate_loop ::
  "('k, 'p) kyber \<Rightarrow> nat \<Rightarrow> u32 list \<Rightarrow> bytes list \<Rightarrow> 'p VerKey list \<Rightarrow> Signature list
     \<Rightarrow> (u32 list \<times> bytes list \<times> 'p VerKey list) res" where
  "aggregate_loop K signerCount newSigners sigsToAggregate pubKeysToAggregate [] =
     Ok (newSigners, sigsToAggregate, pubKeysToAggregate)"
| "aggregate_loop K signerCount newSigners sigsToAggregate pubKeysToAggregate (sig # sigs) =
     (if pk_Type (own_PublicKey (sig_Ownership sig)) \<noteq> KeyTypeBLSGroupSig
      then Fail (Errorf ''wrong signature type, can only aggregate BLS signatures'' [])
      else if length (sig_Signers sig) \<noteq> signerCount
      then Fail (Errorf ''all signatures to aggregate must have the same signer length %d != %d'' [])
      else
        rbind (BytesToVerKey K (pk_PublicKey (own_PublicKey (sig_Ownership sig)))) (\<lambda>pubKey.
        rbind (add_signers newSigners (sig_Signers sig)) (\<lambda>newSigners.
        aggregate_loop K signerCount newSigners (sigsToAggregate @ [sig_Signature sig])
          (pubKeysToAggregate @ [pubKey]) sigs)))"

definition AggregateBLSSignatures :: "('k, 'p) kyber \<Rightarrow> Signature list \<Rightarrow> Signature res" where
  "AggregateBLSSignatures K sigs =
     (case sigs of
        [] \<Rightarrow> Panic ''index out of range [0] with length 0''
      | sig0 # _ \<Rightarrow>
          let signerCount = length (sig_Signers sig0) in
          rbind (aggregate_loop K signerCount (replicate signerCount 0) [] [] sigs)
            (\<lambda>(newSigners, sigsToAggregate, pubKeysToAggregate).
          rbind (wrapf ''error summing signatures: %w'' (SumSignatures K sigsToAggregate)) (\<lambda>aggregateSig.
          rbind (wrapf ''error aggregating verKeys: %w'' (SumVerKeys K pubKeysToAggregate)) (\<lambda>aggregatePublic.
          Ok \<lparr>sig_Ownership = \<lparr>own_PublicKey = \<lparr>pk_Type = KeyTypeBLSGroupSig, pk_PublicKey = VerKey_Bytes aggregatePublic\<rparr>,
                own_Conditions = []\<rparr>,
              sig_Signers = newSigners, sig_Signature = aggregateSig, sig_PreImage = []\<rparr>))))"

section \<open>Facts\<close>

lemma gather_keys_eq:
  "length vks = length cnts \<Longrightarrow>
     gather_keys vks cnts acc = acc @ concat (map2 (\<lambda>v c. replicate (unat c) v) vks cnts)"
  by (induction vks cnts arbitrary: acc rule: list_induct2) (auto simp: word_gt_0)

lemma SignerCount_eq: "SignerCount sig = length (filter (\<lambda>c. 0 < c) (sig_Signers sig))"
proof -
  have "SignerCount_loop n cs = n + length (filter (\<lambda>c. 0 < c) cs)" for n cs
    by (induction cs arbitrary: n) auto
  then show ?thesis by (simp add: SignerCount_def)
qed

lemma overflow_guard:
  fixes a b :: u32
  shows "(b > MaxUint32 - a \<or> a > MaxUint32 - b) \<longleftrightarrow> 2 ^ 32 \<le> unat a + unat b"
proof -
  have m: "unat (MaxUint32 - x) = 2 ^ 32 - 1 - unat x" for x
  proof -
    have "x \<le> MaxUint32" using unat_u32_bound [of x] by (simp add: MaxUint32_def word_le_nat_alt)
    then show ?thesis by (simp add: unat_sub MaxUint32_def)
  qed
  have "unat a < 2 ^ 32" "unat b < 2 ^ 32"
    by (rule unat_u32_bound)+
  then show ?thesis unfolding word_less_nat_alt m by linarith
qed

lemma unat_add_u32:
  fixes a b :: u32
  shows "unat a + unat b < 2 ^ 32 \<Longrightarrow> unat (a + b) = unat a + unat b"
  by (simp add: unat_word_ariths)

lemma add_signers_eq:
  "length xs = length ys \<Longrightarrow>
     add_signers xs ys =
       (if list_all2 (\<lambda>x y. unat x + unat y < 2 ^ 32) xs ys then Ok (map2 (+) xs ys) else Fail would_overflow)"
  by (induction xs ys rule: list_induct2) (auto simp: overflow_guard not_le)

end
