(* ===== verification/Notary_Group.thy ===== *)
theory Notary_Group
  imports Signatures Go_Strings "HOL-Library.List_Lexorder" "HOL-Library.Char_ord"
begin

text \<open>
  \<^verbatim>\<open>src/gossip/types/notarygroup.go\<close> and \<^verbatim>\<open>signer.go\<close>: the signers of a notary group in the
  order of their ids, their indices, and the number of signers that make a quorum. The
  counts are computed in \<^verbatim>\<open>float64\<close> by the code; the division is modelled with its
  rounding (53 bits, half to even), and shown to give the exact ceiling of two thirds.
\<close>

section \<open>Divisions in float64\<close>

text \<open>
  A positive \<^verbatim>\<open>float64\<close> of the range used here is \<^verbatim>\<open>m / 2 ^ k\<close> with a mantissa of 53 bits. The
  number of fraction bits is the least that gives the quotient 53 significant bits.
  Conversions of slice lengths (below \<^verbatim>\<open>2 ^ 53\<close>), doubling and \<^verbatim>\<open>math.Ceil\<close> are exact.
\<close>

fun fraction_bits :: "nat \<Rightarrow> nat \<Rightarrow> nat \<Rightarrow> nat \<Rightarrow> nat" where
  "fraction_bits n d k 0 = k"
| "fraction_bits n d k (Suc fuel) =
     (if 2 ^ 52 \<le> n * 2 ^ k div d then k else fraction_bits n d (Suc k) fuel)"

definition round_half_even :: "nat \<Rightarrow> nat \<Rightarrow> nat" where
  "round_half_even a b =
     (let q = a div b; r = a mod b in
      if 2 * r < b then q else if b < 2 * r then q + 1 else q + q mod 2)"

definition float_div :: "nat \<Rightarrow> nat \<Rightarrow> nat \<times> nat" where
  "float_div n d = (let k = fraction_bits n d 0 64 in (round_half_even (n * 2 ^ k) d, k))"

definition float_double :: "nat \<times> nat \<Rightarrow> nat \<times> nat" where
  "float_double x = (case x of (m, k) \<Rightarrow> (2 * m, k))"

definition math_Ceil :: "nat \<times> nat \<Rightarrow> nat" where
  "math_Ceil x = (case x of (m, k) \<Rightarrow> (m + 2 ^ k - 1) div 2 ^ k)"

section \<open>Routable addresses\<close>

text \<open>\<^verbatim>\<open>src/gossip/types/routableaddr.go\<close>; indexing past the parts of an address panics.\<close>

definition routableSeparator :: char where
  "routableSeparator = CHR ''-''"

type_synonym RoutableAddress = string

definition NewRoutableAddress :: "string \<Rightarrow> string \<Rightarrow> RoutableAddress" where
  "NewRoutableAddress from_addr to_addr = from_addr @ [routableSeparator] @ to_addr"

definition part :: "nat \<Rightarrow> string list \<Rightarrow> string res" where
  "part i parts = (if i < length parts then Ok (parts ! i) else Panic ''index out of range'')"

definition From :: "RoutableAddress \<Rightarrow> string res" where
  "From ra = part 0 (Split ra routableSeparator)"

definition To :: "RoutableAddress \<Rightarrow> string res" where
  "To ra = part 1 (Split ra routableSeparator)"

definition Swap :: "RoutableAddress \<Rightarrow> RoutableAddress res" where
  "Swap ra = (let parts = Split ra routableSeparator in
     rbind (part 1 parts) (\<lambda>b. rbind (part 0 parts) (\<lambda>a. Ok (b @ [routableSeparator] @ a))))"

definition RoutableAddress_String :: "RoutableAddress \<Rightarrow> string" where
  "RoutableAddress_String ra = ra"

section \<open>Signers and groups\<close>

text \<open>An actor's \<^verbatim>\<open>PID\<close>: its address and its id.\<close>

type_synonym PID = "string \<times> string"

record ('e, 'k, 'p) Signer =
  sg_ID :: string
  sg_DstKey :: 'e
  sg_VerKey :: "'p VerKey"
  sg_SignKey :: "('k, 'p) SignKey option"
  sg_Actor :: "PID option"

text \<open>\<^verbatim>\<open>addr, _ := Address(...)\<close>: an error leaves the null address.\<close>

definition address_or_null :: "('e, 'd, 'sc) crypto_lib \<Rightarrow> address res \<Rightarrow> address" where
  "address_or_null C r = (case r of Ok a \<Rightarrow> a | _ \<Rightarrow> BytesToAddress C [])"

definition NewLocalSigner ::
  "('e, 'd, 'sc) crypto_lib \<Rightarrow> 'e \<Rightarrow> ('k, 'p) SignKey \<Rightarrow> ('e, 'k, 'p) Signer res" where
  "NewLocalSigner C dstKey signKey =
     rbind (MustVerKey signKey) (\<lambda>verKey.
     let addr = address_or_null C (Address C (BLSToOwnership verKey)) in
     rbind (MustVerKey signKey) (\<lambda>verKey'.
     Ok \<lparr>sg_ID = Address_String C addr, sg_DstKey = dstKey, sg_VerKey = verKey', sg_SignKey = Some signKey,
        sg_Actor = None\<rparr>))"

definition NewRemoteSigner ::
  "('e, 'd, 'sc) crypto_lib \<Rightarrow> 'e \<Rightarrow> 'p VerKey \<Rightarrow> ('e, 'k, 'p) Signer" where
  "NewRemoteSigner C dstKey verKey =
     (let addr = address_or_null C (Address C (BLSToOwnership verKey)) in
      \<lparr>sg_ID = Address_String C addr, sg_DstKey = dstKey, sg_VerKey = verKey, sg_SignKey = None, sg_Actor = None\<rparr>)"

definition ActorName :: "('e, 'k, 'p) Signer \<Rightarrow> string" where
  "ActorName s = ''tupelo-'' @ sg_ID s"

text \<open>\<^verbatim>\<open>peer\<close> stands for \<^verbatim>\<open>p2p.PeerFromEcdsaKey\<close> with \<^verbatim>\<open>Pretty\<close>.\<close>

definition ActorAddress :: "('e \<Rightarrow> string res) \<Rightarrow> 'e \<Rightarrow> ('e, 'k, 'p) Signer \<Rightarrow> string res" where
  "ActorAddress peer localKey s =
     (case peer localKey of
        Ok fromID \<Rightarrow> (case peer (sg_DstKey s) of
            Ok toID \<Rightarrow> Ok (RoutableAddress_String (NewRoutableAddress fromID toID))
          | _ \<Rightarrow> Panic ''error getting peer from ecdsa key: %v'')
      | _ \<Rightarrow> Panic ''error getting peer from ecdsa key: %v'')"

record ('e, 'k, 'p, 'cfg) NotaryGroup =
  ng_ID :: string
  ng_Signers :: "string \<rightharpoonup> ('e, 'k, 'p) Signer"
  ng_sortedIds :: "string list"
  ng_config :: 'cfg

definition NewNotaryGroupFromConfig :: "('cfg \<Rightarrow> string) \<Rightarrow> 'cfg \<Rightarrow> ('e, 'k, 'p, 'cfg) NotaryGroup" where
  "NewNotaryGroupFromConfig config_ID c =
     \<lparr>ng_ID = config_ID c, ng_Signers = Map.empty, ng_sortedIds = [], ng_config = c\<rparr>"

definition AddSigner ::
  "('e, 'k, 'p) Signer \<Rightarrow> ('e, 'k, 'p, 'cfg) NotaryGroup \<Rightarrow> ('e, 'k, 'p, 'cfg) NotaryGroup" where
  "AddSigner signer ng = ng\<lparr>ng_Signers := (ng_Signers ng)(sg_ID signer \<mapsto> signer),
     ng_sortedIds := sort (ng_sortedIds ng @ [sg_ID signer])\<rparr>"

text \<open>A key missing from the map gives the nil signer.\<close>

definition AllSigners :: "('e, 'k, 'p, 'cfg) NotaryGroup \<Rightarrow> ('e, 'k, 'p) Signer option list" where
  "AllSigners ng = map (ng_Signers ng) (ng_sortedIds ng)"

definition Config_of :: "('e, 'k, 'p, 'cfg) NotaryGroup \<Rightarrow> 'cfg" where
  "Config_of ng = ng_config ng"

text \<open>\<^verbatim>\<open>crypto/rand.Int\<close> is the argument \<^verbatim>\<open>rand\<close>; it panics on an empty range.\<close>

definition randInt :: "(nat \<Rightarrow> nat res) \<Rightarrow> nat \<Rightarrow> nat res" where
  "randInt rand mx =
     (case rand mx of Ok i \<Rightarrow> Ok i | Fail e \<Rightarrow> Panic ''bad random'' | Panic p \<Rightarrow> Panic p)"

definition GetRandomSigner ::
  "(nat \<Rightarrow> nat res) \<Rightarrow> ('e, 'k, 'p, 'cfg) NotaryGroup \<Rightarrow> ('e, 'k, 'p) Signer option res" where
  "GetRandomSigner rand ng =
     rbind (randInt rand (length (ng_sortedIds ng))) (\<lambda>i.
     if i < length (ng_sortedIds ng) then Ok (ng_Signers ng (ng_sortedIds ng ! i)) else Panic ''index out of range'')"

definition GetRandomSyncer :: "(nat \<Rightarrow> nat res) \<Rightarrow> ('e, 'k, 'p, 'cfg) NotaryGroup \<Rightarrow> PID option res" where
  "GetRandomSyncer rand ng =
     rbind (GetRandomSigner rand ng) (\<lambda>s. case s of
       None \<Rightarrow> Panic ''invalid memory address or nil pointer dereference'' | Some s \<Rightarrow> Ok (sg_Actor s))"

text \<open>The signers are shared by reference: setting an actor changes the group's map.\<close>

fun setup_actors ::
  "('e \<Rightarrow> string res) \<Rightarrow> 'e \<Rightarrow> string list \<Rightarrow> (('e, 'k, 'p, 'cfg) NotaryGroup, unit) eff" where
  "setup_actors peer localKey [] ng = (Ok (), ng)"
| "setup_actors peer localKey (sid # ids) ng =
     (case ng_Signers ng sid of
        None \<Rightarrow> (Panic ''invalid memory address or nil pointer dereference'', ng)
      | Some signer \<Rightarrow> (case ActorAddress peer localKey signer of
            Ok addr \<Rightarrow> setup_actors peer localKey ids (ng\<lparr>ng_Signers := (ng_Signers ng)(sid \<mapsto>
              signer\<lparr>sg_Actor := Some (addr, ''tupelo-'' @ sg_ID signer)\<rparr>)\<rparr>)
          | Fail e \<Rightarrow> (Fail e, ng)
          | Panic p \<Rightarrow> (Panic p, ng)))"

definition SetupAllRemoteActors :: "('e \<Rightarrow> string res) \<Rightarrow> 'e \<Rightarrow> (('e, 'k, 'p, 'cfg) NotaryGroup, unit) eff" where
  "SetupAllRemoteActors peer localKey ng = setup_actors peer localKey (ng_sortedIds ng) ng"

definition SignerAtIndex :: "int \<Rightarrow> ('e, 'k, 'p, 'cfg) NotaryGroup \<Rightarrow> ('e, 'k, 'p) Signer option res" where
  "SignerAtIndex idx ng =
     (if 0 \<le> idx \<and> idx < int (length (ng_sortedIds ng))
      then Ok (ng_Signers ng (ng_sortedIds ng ! nat idx))
      else Panic ''index out of range'')"

fun IndexOfSigner_loop :: "string \<Rightarrow> nat \<Rightarrow> string list \<Rightarrow> u64 res" where
  "IndexOfSigner_loop sid i [] = Panic ''signer not found: %v''"
| "IndexOfSigner_loop sid i (s # ids) =
     (if s = sid then Ok (of_nat i) else IndexOfSigner_loop sid (Suc i) ids)"

definition IndexOfSigner :: "('e, 'k, 'p) Signer \<Rightarrow> ('e, 'k, 'p, 'cfg) NotaryGroup \<Rightarrow> u64 res" where
  "IndexOfSigner signer ng = IndexOfSigner_loop (sg_ID signer) 0 (ng_sortedIds ng)"

definition Size :: "('e, 'k, 'p, 'cfg) NotaryGroup \<Rightarrow> u64" where
  "Size ng = of_nat (length (ng_sortedIds ng))"

definition quorum_of :: "nat \<Rightarrow> nat" where
  "quorum_of n = math_Ceil (float_double (float_div n 3))"

definition QuorumCount :: "('e, 'k, 'p, 'cfg) NotaryGroup \<Rightarrow> u64" where
  "QuorumCount ng = of_nat (quorum_of (length (ng_sortedIds ng)))"

definition majority_of :: "nat \<Rightarrow> nat" where
  "majority_of n = (let required = math_Ceil (float_div (2 * n) 3) in if required = 0 then 1 else required)"

definition GetMajorityCount :: "('e, 'k, 'p, 'cfg) NotaryGroup \<Rightarrow> int" where
  "GetMajorityCount ng = int (majority_of (length (ng_sortedIds ng)))"

section \<open>The float divisions are exact ceilings\<close>

lemma fraction_bits_ge: "k \<le> fraction_bits n d k fuel"
  by (induction n d k fuel rule: fraction_bits.induct) auto

lemma fraction_bits_enough:
  assumes "n * 2 ^ m div d < 2 ^ 52" "m < fuel"
  shows "m < fraction_bits n d 0 fuel"
proof -
  have "n * 2 ^ j div d < 2 ^ 52" if "j \<le> m" for j
    using assms(1) that by (meson div_le_mono le_less_trans mult_le_mono2 power_increasing_iff
        one_less_numeral_iff semiring_norm(76))
  then have "k \<le> m \<Longrightarrow> m < k + f \<Longrightarrow> m < fraction_bits n d k f" for k f
  proof (induction f arbitrary: k)
    case (Suc f)
    then show ?case
      using fraction_bits_ge [of "Suc k" n d f] by (cases "k = m") (auto simp: not_le)
  qed simp
  from this [of 0 fuel] assms(2) show ?thesis by simp
qed

lemma round_third: "3 * round_half_even a 3 \<le> a + 1" "a \<le> 3 * round_half_even a 3 + 1"
  "3 dvd a \<Longrightarrow> 3 * round_half_even a 3 = a"
proof -
  obtain q r where a: "a = 3 * q + r" "r < 3" by (metis mod_less_divisor mult_div_mod_eq zero_less_numeral)
  then have "r = 0 \<or> r = 1 \<or> r = 2" by auto
  then show "3 * round_half_even a 3 \<le> a + 1" "a \<le> 3 * round_half_even a 3 + 1"
    using a(1) by (auto simp: round_half_even_def Let_def)
qed (auto simp: round_half_even_def)

lemma math_Ceil_eq:
  assumes "m \<le> c * 2 ^ k" "c * 2 ^ k < m + 2 ^ k"
  shows "math_Ceil (m, k) = c"
proof -
  have "(m + 2 ^ k - 1) div 2 ^ k = c"
    using assms by (intro div_nat_eqI) (auto simp: algebra_simps)
  then show ?thesis by (simp add: math_Ceil_def)
qed

text \<open>Rounding a third of \<^verbatim>\<open>a\<close> scaled by \<^verbatim>\<open>2 ^ k\<close> and taking the ceiling of \<^verbatim>\<open>j\<close> times it.\<close>

lemma ceil_third:
  assumes "j < 2 ^ k" "j = 1 \<or> j = 2"
  shows "math_Ceil (j * round_half_even (a * 2 ^ k) 3, k) = (j * a + 2) div 3"
proof -
  let ?m = "round_half_even (a * 2 ^ k) 3" and ?c = "(j * a + 2) div 3" and ?p = "2 ^ k :: nat"
  show ?thesis
  proof (cases "3 dvd a")
    case True
    then obtain b where a: "a = 3 * b" by blast
    then have "?m = b * ?p" using round_third(3) [of "a * ?p"] by simp
    moreover have "?c = j * b" using a by simp
    ultimately show ?thesis by (intro math_Ceil_eq) auto
  next
    case False
    then have c: "j * a + 1 \<le> 3 * ?c" "3 * ?c \<le> j * a + 2" using assms(2) by presburger+
    have r: "j * (3 * ?m) \<le> j * (a * ?p) + j" "j * (a * ?p) \<le> j * (3 * ?m) + j"
      using round_third(1,2) [of "a * ?p"] assms(2) by auto
    have "(j * a + 1) * ?p \<le> 3 * ?c * ?p" "3 * ?c * ?p \<le> (j * a + 2) * ?p"
      using c by (intro mult_le_mono1; simp)+
    then have p: "j * (a * ?p) + ?p \<le> 3 * (?c * ?p)" "3 * (?c * ?p) \<le> j * (a * ?p) + 2 * ?p"
      by (simp_all add: algebra_simps)
    show ?thesis
    proof (rule math_Ceil_eq)
      show "j * ?m \<le> ?c * ?p" using r(1) p(1) assms(1) by linarith
      show "?c * ?p < j * ?m + ?p" using r(2) p(2) assms(1) by linarith
    qed
  qed
qed

lemma quorum_of_eq:
  assumes "n < 2 ^ 51"
  shows "quorum_of n = (2 * n + 2) div 3"
proof -
  have "2 < fraction_bits n 3 0 64" using assms by (intro fraction_bits_enough) auto
  then have "(2::nat) < 2 ^ fraction_bits n 3 0 64"
    using power_strict_increasing [of 2 "fraction_bits n 3 0 64" "2::nat"] by simp
  from ceil_third [OF this, of n] show ?thesis
    by (simp add: quorum_of_def float_div_def float_double_def Let_def)
qed

lemma majority_of_eq:
  assumes "n < 2 ^ 51"
  shows "majority_of n = max 1 ((2 * n + 2) div 3)"
proof -
  have "1 < fraction_bits (2 * n) 3 0 64" using assms by (intro fraction_bits_enough) auto
  then have "(1::nat) < 2 ^ fraction_bits (2 * n) 3 0 64"
    using one_less_power [of "2::nat" "fraction_bits (2 * n) 3 0 64"] by simp
  from ceil_third [OF this, of "2 * n"] show ?thesis
    by (simp add: majority_of_def float_div_def Let_def)
qed

section \<open>Quorums intersect\<close>

definition signer_set :: "Signature \<Rightarrow> nat set" where
  "signer_set sig = {i. i < length (sig_Signers sig) \<and> 0 < sig_Signers sig ! i}"

lemma card_signer_set: "card (signer_set sig) = SignerCount sig"
  by (simp add: SignerCount_eq signer_set_def length_filter_conv_card)

lemma signer_set_bound: "signer_set sig \<subseteq> {..<length (sig_Signers sig)}"
  by (auto simp: signer_set_def)

text \<open>Any rule that asks for two thirds of the members, rounded up.\<close>

locale quorum_rule =
  fixes q :: "nat \<Rightarrow> nat" and bound :: nat
  assumes two_thirds: "n < bound \<Longrightarrow> 2 * n \<le> 3 * q n"
begin

lemma intersect:
  assumes "A \<subseteq> {..<n}" "B \<subseteq> {..<n}" "q n \<le> card A" "q n \<le> card B" "n < bound"
  shows "n \<le> 3 * card (A \<inter> B)"
proof -
  have "finite A" "finite B" using assms(1,2) finite_subset by blast+
  then have "card A + card B = card (A \<union> B) + card (A \<inter> B)" by (rule card_Un_Int)
  moreover have "card (A \<union> B) \<le> n" using assms(1,2) card_mono [of "{..<n}" "A \<union> B"] by simp
  ultimately show ?thesis using two_thirds [OF assms(5)] assms(3,4) by linarith
qed

lemma signatures_intersect:
  assumes "length (sig_Signers s1) = n" "length (sig_Signers s2) = n" "n < bound"
    "q n \<le> SignerCount s1" "q n \<le> SignerCount s2"
  shows "n \<le> 3 * card (signer_set s1 \<inter> signer_set s2)"
  using assms signer_set_bound [of s1] signer_set_bound [of s2]
  by (intro intersect) (simp_all add: card_signer_set)

end

interpretation quorum: quorum_rule quorum_of "2 ^ 51"
proof
  fix n :: nat assume "n < 2 ^ 51"
  then show "2 * n \<le> 3 * quorum_of n" using quorum_of_eq [of n] by presburger
qed

interpretation majority: quorum_rule majority_of "2 ^ 51"
proof
  fix n :: nat assume "n < 2 ^ 51"
  then show "2 * n \<le> 3 * majority_of n" using majority_of_eq [of n] by presburger
qed

lemma unat_quorum:
  assumes "n < 2 ^ 51"
  shows "unat (of_nat (quorum_of n) :: u64) = (2 * n + 2) div 3"
proof -
  have "(2 * n + 2) div 3 \<le> n + 1" by presburger
  with assms have "(2 * n + 2) div 3 < 2 ^ 64" by simp
  then show ?thesis by (simp add: quorum_of_eq [OF assms] unat_of_nat)
qed

text \<open>C19: \<^verbatim>\<open>QuorumCount\<close> is the exact ceiling of two thirds of the group's size, in spite of the
  floating point; \<^verbatim>\<open>GetMajorityCount\<close> is the same number except that an empty group has
  quorum 0 and majority 1.\<close>

theorem QuorumCount_exact:
  assumes "length (ng_sortedIds ng) < 2 ^ 51"
  shows "unat (QuorumCount ng) = (2 * length (ng_sortedIds ng) + 2) div 3 \<and>
    GetMajorityCount ng = max 1 (int ((2 * length (ng_sortedIds ng) + 2) div 3))"
  using unat_quorum [OF assms] majority_of_eq [OF assms]
  by (simp add: QuorumCount_def GetMajorityCount_def of_nat_max)

definition ids_group :: "string list \<Rightarrow> (unit, unit, unit, unit) NotaryGroup" where
  "ids_group ids = \<lparr>ng_ID = ''group'', ng_Signers = Map.empty, ng_sortedIds = ids, ng_config = ()\<rparr>"

theorem QuorumCount_exact_witness:
  "unat (QuorumCount (ids_group [''a'', ''b'', ''c'', ''d''])) = 3 \<and>
   unat (QuorumCount (ids_group [])) = 0 \<and> GetMajorityCount (ids_group []) = 1"
  using QuorumCount_exact [of "ids_group [''a'', ''b'', ''c'', ''d'']"] QuorumCount_exact [of "ids_group []"]
  by (simp add: ids_group_def)

text \<open>C20: two signatures that each carry a quorum of a group share at least a third of the group:
  no two conflicting rounds can both be confirmed unless a third of the signers sign both.\<close>

theorem quorums_intersect:
  assumes "length (ng_sortedIds ng) < 2 ^ 51"
    "length (sig_Signers s1) = length (ng_sortedIds ng)" "length (sig_Signers s2) = length (ng_sortedIds ng)"
    "unat (QuorumCount ng) \<le> SignerCount s1" "unat (QuorumCount ng) \<le> SignerCount s2"
  shows "length (ng_sortedIds ng) \<le>
    3 * card {i. i < length (ng_sortedIds ng) \<and> 0 < sig_Signers s1 ! i \<and> 0 < sig_Signers s2 ! i}"
proof -
  have "unat (QuorumCount ng) = quorum_of (length (ng_sortedIds ng))"
    using unat_quorum [OF assms(1)] by (simp add: QuorumCount_def quorum_of_eq [OF assms(1)])
  then have "length (ng_sortedIds ng) \<le> 3 * card (signer_set s1 \<inter> signer_set s2)"
    using assms by (intro quorum.signatures_intersect) auto
  moreover have "signer_set s1 \<inter> signer_set s2 =
    {i. i < length (ng_sortedIds ng) \<and> 0 < sig_Signers s1 ! i \<and> 0 < sig_Signers s2 ! i}"
    using assms(2,3) by (auto simp: signer_set_def)
  ultimately show ?thesis by simp
qed

definition signed_by :: "u32 list \<Rightarrow> Signature" where
  "signed_by cs = \<lparr>sig_Ownership = \<lparr>own_PublicKey = \<lparr>pk_Type = KeyTypeBLSGroupSig, pk_PublicKey = []\<rparr>,
     own_Conditions = []\<rparr>, sig_Signers = cs, sig_Signature = [], sig_PreImage = []\<rparr>"

theorem quorums_intersect_witness:
  "3 \<le> 3 * card {i. i < (3 :: nat) \<and> 0 < [1, 1, 0 :: u32] ! i \<and> 0 < [0, 1, 2 :: u32] ! i}"
proof -
  let ?ng = "ids_group [''a'', ''b'', ''c'']"
  have len: "length (ng_sortedIds ?ng) = 3" by (simp add: ids_group_def)
  have q: "unat (QuorumCount ?ng) = 2" using QuorumCount_exact [of ?ng] len by simp
  have c: "SignerCount (signed_by [1, 1, 0]) = 2" "SignerCount (signed_by [0, 1, 2]) = 2"
    by (simp_all add: SignerCount_def signed_by_def)
  have s: "sig_Signers (signed_by cs) = cs" for cs by (simp add: signed_by_def)
  show ?thesis
    using quorums_intersect [of ?ng "signed_by [1, 1, 0]" "signed_by [0, 1, 2]"] unfolding len q c s by simp
qed

section \<open>The signers of a group\<close>

definition group_of ::
  "('cfg \<Rightarrow> string) \<Rightarrow> 'cfg \<Rightarrow> ('e, 'k, 'p) Signer list \<Rightarrow> ('e, 'k, 'p, 'cfg) NotaryGroup" where
  "group_of config_ID c signers = fold AddSigner signers (NewNotaryGroupFromConfig config_ID c)"

definition ng_inv :: "('e, 'k, 'p, 'cfg) NotaryGroup \<Rightarrow> bool" where
  "ng_inv ng \<longleftrightarrow> sorted (ng_sortedIds ng) \<and> set (ng_sortedIds ng) = dom (ng_Signers ng) \<and>
     (\<forall>i s. ng_Signers ng i = Some s \<longrightarrow> sg_ID s = i)"

lemma AddSigner_inv: "ng_inv ng \<Longrightarrow> ng_inv (AddSigner s ng)"
  by (auto simp: ng_inv_def AddSigner_def)

lemma AddSigner_ids: "mset (ng_sortedIds (AddSigner s ng)) = add_mset (sg_ID s) (mset (ng_sortedIds ng))"
  by (simp add: AddSigner_def)

lemma fold_AddSigner:
  "ng_inv ng \<Longrightarrow> ng_inv (fold AddSigner ss ng) \<and>
     mset (ng_sortedIds (fold AddSigner ss ng)) = mset (ng_sortedIds ng) + mset (map sg_ID ss)"
  by (induction ss arbitrary: ng) (auto simp: AddSigner_inv AddSigner_ids)

lemma group_of_inv: "ng_inv (group_of config_ID c ss)"
  and group_of_ids: "ng_sortedIds (group_of config_ID c ss) = sort (map sg_ID ss)"
proof -
  have i: "ng_inv (NewNotaryGroupFromConfig config_ID c :: ('a, 'b, 'c, 'd) NotaryGroup)"
    by (simp add: ng_inv_def NewNotaryGroupFromConfig_def)
  show inv: "ng_inv (group_of config_ID c ss)" using fold_AddSigner [OF i] by (simp add: group_of_def)
  have "mset (ng_sortedIds (group_of config_ID c ss)) = mset (map sg_ID ss)"
    using fold_AddSigner [OF i, of ss] by (simp add: group_of_def NewNotaryGroupFromConfig_def)
  moreover have "sorted (ng_sortedIds (group_of config_ID c ss))" using inv by (simp add: ng_inv_def)
  ultimately show "ng_sortedIds (group_of config_ID c ss) = sort (map sg_ID ss)"
    by (metis properties_for_sort)
qed

lemma fold_AddSigner_other: "i \<notin> sg_ID ` set ss \<Longrightarrow> ng_Signers (fold AddSigner ss ng) i = ng_Signers ng i"
  by (induction ss arbitrary: ng) (auto simp: AddSigner_def)

lemma group_of_lookup:
  assumes "distinct (map sg_ID ss)" "s \<in> set ss"
  shows "ng_Signers (group_of config_ID c ss) (sg_ID s) = Some s"
proof -
  have "ng_Signers (fold AddSigner ss ng) (sg_ID s) = Some s" for ng :: "('a, 'b, 'c, 'd) NotaryGroup"
    using assms by (induction ss arbitrary: ng) (auto simp: fold_AddSigner_other AddSigner_def)
  then show ?thesis by (simp add: group_of_def)
qed

lemma IndexOfSigner_loop_eq:
  "IndexOfSigner_loop sid i ids =
     (if sid \<in> set ids then Ok (of_nat (i + length (takeWhile (\<lambda>x. x \<noteq> sid) ids)))
      else Panic ''signer not found: %v'')"
  by (induction ids arbitrary: i) auto

text \<open>A group built by adding signers holds their ids in sorted order, whatever the order
  they were added in, and \<^verbatim>\<open>AllSigners\<close> never yields a nil signer. \<^verbatim>\<open>IndexOfSigner\<close> of a
  signer of the group is an index below the size at which
  \<^verbatim>\<open>SignerAtIndex\<close> finds a signer with that id; for a signer outside it panics.\<close>

theorem group_indices:
  fixes ss :: "('e, 'k, 'p) Signer list"
  assumes "ng = group_of config_ID c ss" "length ss < 2 ^ 63"
  shows "ng_sortedIds ng = sort (map sg_ID ss) \<and> None \<notin> set (AllSigners ng) \<and>
    (sg_ID s \<notin> sg_ID ` set ss \<longrightarrow> IndexOfSigner s ng = Panic ''signer not found: %v'') \<and>
    (sg_ID s \<in> sg_ID ` set ss \<longrightarrow> (\<exists>i s'. IndexOfSigner s ng = Ok i \<and> unat i < length ss \<and>
       SignerAtIndex (uint i) ng = Ok (Some s') \<and> sg_ID s' = sg_ID s))"
proof (intro conjI impI)
  have inv: "ng_inv ng" and ids: "ng_sortedIds ng = sort (map sg_ID ss)"
    using assms(1) group_of_inv [of config_ID c ss] group_of_ids [of config_ID c ss] by simp_all
  show "ng_sortedIds ng = sort (map sg_ID ss)" by (rule ids)
  show "None \<notin> set (AllSigners ng)"
    using inv by (force simp: AllSigners_def ng_inv_def dom_def)
  show "IndexOfSigner s ng = Panic ''signer not found: %v''" if "sg_ID s \<notin> sg_ID ` set ss"
    using that by (simp add: IndexOfSigner_def IndexOfSigner_loop_eq ids)
  show "\<exists>i s'. IndexOfSigner s ng = Ok i \<and> unat i < length ss \<and>
       SignerAtIndex (uint i) ng = Ok (Some s') \<and> sg_ID s' = sg_ID s" if "sg_ID s \<in> sg_ID ` set ss"
  proof -
    let ?ids = "ng_sortedIds ng" and ?j = "length (takeWhile (\<lambda>x. x \<noteq> sg_ID s) (ng_sortedIds ng))"
    have mem: "sg_ID s \<in> set ?ids" using that ids by simp
    then have j: "?j < length ?ids" by (rule length_takeWhile_mem)
    have "?ids ! ?j = sg_ID s" using nth_length_takeWhile [OF j] by simp
    moreover have len: "length ?ids = length ss" using ids by simp
    moreover have u: "unat (of_nat ?j :: u64) = ?j" using j assms(2) len by (simp add: unat_of_nat)
    moreover have "uint (of_nat ?j :: u64) = int ?j" using u by (metis uint_nat)
    moreover obtain s' where "ng_Signers ng (sg_ID s) = Some s'" "sg_ID s' = sg_ID s"
      using inv mem by (auto simp: ng_inv_def)
    ultimately show ?thesis
      using mem j by (intro exI [of _ "of_nat ?j"] exI [of _ s'])
        (simp add: IndexOfSigner_def IndexOfSigner_loop_eq SignerAtIndex_def)
  qed
qed

definition named_signer :: "string \<Rightarrow> (unit, unit, unit) Signer" where
  "named_signer i = \<lparr>sg_ID = i, sg_DstKey = (), sg_VerKey = \<lparr>vk_value = [], vk_public = ()\<rparr>, sg_SignKey = None, sg_Actor = None\<rparr>"

theorem group_indices_witness:
  "\<exists>i s'. IndexOfSigner (named_signer ''a'') (group_of (\<lambda>_. ''g'') () [named_signer ''b'', named_signer ''a'']) = Ok i \<and>
     SignerAtIndex (uint i) (group_of (\<lambda>_. ''g'') () [named_signer ''b'', named_signer ''a'']) = Ok (Some s') \<and>
     sg_ID s' = ''a''"
  using group_indices [OF refl, where ss = "[named_signer ''b'', named_signer ''a'']" and s = "named_signer ''a''"
      and config_ID = "\<lambda>_. ''g''" and c = "()"]
  by (auto simp: named_signer_def)

section \<open>Routing\<close>

text \<open>A routable address made of two names without the separator yields them again, swapping
  exchanges them, and swapping twice is the identity; an address without a separator makes
  \<^verbatim>\<open>To\<close> and \<^verbatim>\<open>Swap\<close> panic.\<close>

theorem routable_roundtrip:
  assumes "routableSeparator \<notin> set a" "routableSeparator \<notin> set b"
  shows "From (NewRoutableAddress a b) = Ok a \<and> To (NewRoutableAddress a b) = Ok b \<and>
    Swap (NewRoutableAddress a b) = Ok (NewRoutableAddress b a) \<and>
    rbind (Swap (NewRoutableAddress a b)) Swap = Ok (NewRoutableAddress a b) \<and>
    To a = Panic ''index out of range'' \<and> Swap a = Panic ''index out of range''"
proof -
  have "Split (a @ routableSeparator # b) routableSeparator = [a, b]"
    "Split (b @ routableSeparator # a) routableSeparator = [b, a]"
    using assms by (simp_all add: Split_append)
  with assms show ?thesis by (simp add: From_def To_def Swap_def part_def NewRoutableAddress_def Let_def)
qed

theorem routable_roundtrip_witness: "Swap (NewRoutableAddress ''a'' ''b'') = Ok ''b-a''"
  using routable_roundtrip [of "''a''" "''b''"] by (simp add: routableSeparator_def NewRoutableAddress_def)

definition with_actor :: "('e \<Rightarrow> string res) \<Rightarrow> 'e \<Rightarrow> ('e, 'k, 'p) Signer \<Rightarrow> ('e, 'k, 'p) Signer" where
  "with_actor peer localKey s = (case ActorAddress peer localKey s of
     Ok addr \<Rightarrow> s\<lparr>sg_Actor := Some (addr, ''tupelo-'' @ sg_ID s)\<rparr> | _ \<Rightarrow> s)"

lemma ActorAddress_keeps [simp]: "ActorAddress peer k (s\<lparr>sg_Actor := a\<rparr>) = ActorAddress peer k s"
  by (simp add: ActorAddress_def split: res.split)

lemma setup_actors_eq:
  assumes "set ids \<subseteq> dom (ng_Signers ng)" "\<forall>k. is_ok (peer k)"
  shows "setup_actors peer localKey ids ng = (Ok (), ng\<lparr>ng_Signers :=
    (\<lambda>i. map_option (\<lambda>s. if i \<in> set ids then with_actor peer localKey s else s) (ng_Signers ng i))\<rparr>)"
  using assms(1)
proof (induction ids arbitrary: ng)
  case Nil
  then show ?case by (simp add: option.map_ident)
next
  case (Cons i ids)
  then obtain s where s: "ng_Signers ng i = Some s" by auto
  obtain f t where "peer localKey = Ok f" "peer (sg_DstKey s) = Ok t" using assms(2) by (meson is_ok_iff)
  then obtain a where a: "ActorAddress peer localKey s = Ok a" by (simp add: ActorAddress_def)
  let ?s = "s\<lparr>sg_Actor := Some (a, ''tupelo-'' @ sg_ID s)\<rparr>"
  let ?ng = "ng\<lparr>ng_Signers := (ng_Signers ng)(i \<mapsto> ?s)\<rparr>"
  have w: "with_actor peer localKey s = ?s" "with_actor peer localKey ?s = ?s"
    using a by (simp_all add: with_actor_def)
  have "set ids \<subseteq> dom (ng_Signers ?ng)" using Cons.prems by auto
  from Cons.IH [OF this] show ?case using s a w by (auto simp: fun_eq_iff)
qed

text \<open>After \<^verbatim>\<open>SetupAllRemoteActors\<close>, if the peer ids of all keys can be made, every signer of the
  group has an actor whose address routes from the local peer to the signer's, and nothing
  else of the group has changed.\<close>

theorem remote_actors:
  assumes "ng = group_of config_ID c ss" "\<forall>key. is_ok (peer key)"
  shows "\<exists>ng'. SetupAllRemoteActors peer localKey ng = (Ok (), ng') \<and> ng_sortedIds ng' = ng_sortedIds ng \<and>
    (\<forall>i. ng_Signers ng i = None \<longrightarrow> ng_Signers ng' i = None) \<and>
    (\<forall>i s. ng_Signers ng i = Some s \<longrightarrow> (\<exists>f t. peer localKey = Ok f \<and> peer (sg_DstKey s) = Ok t \<and>
       ng_Signers ng' i = Some (s\<lparr>sg_Actor := Some (NewRoutableAddress f t, ActorName s)\<rparr>)))"
proof -
  have inv: "ng_inv ng" using group_of_inv assms(1) by simp
  then have ids: "set (ng_sortedIds ng) \<subseteq> dom (ng_Signers ng)" by (simp add: ng_inv_def)
  have "\<exists>f t. peer localKey = Ok f \<and> peer (sg_DstKey s) = Ok t \<and>
      with_actor peer localKey s = s\<lparr>sg_Actor := Some (NewRoutableAddress f t, ActorName s)\<rparr>" for s
  proof -
    obtain f t where "peer localKey = Ok f" "peer (sg_DstKey s) = Ok t"
      using assms(2) by (meson is_ok_iff)
    then show ?thesis by (simp add: with_actor_def ActorAddress_def ActorName_def RoutableAddress_String_def)
  qed
  then show ?thesis
    using inv setup_actors_eq [OF ids assms(2)] by (auto simp: SetupAllRemoteActors_def ng_inv_def)
qed

theorem remote_actors_witness:
  "\<exists>ng'. SetupAllRemoteActors (\<lambda>_. Ok ''p'') () (group_of (\<lambda>_. ''g'') () [named_signer ''a'']) = (Ok (), ng') \<and>
     map_option sg_Actor (ng_Signers ng' ''a'') = Some (Some (''p-p'', ''tupelo-a''))"
proof -
  have "ng_Signers (group_of (\<lambda>_. ''g'') () [named_signer ''a'']) ''a'' = Some (named_signer ''a'')"
    by (simp add: group_of_def AddSigner_def NewNotaryGroupFromConfig_def named_signer_def)
  then show ?thesis
    using remote_actors [OF refl, where peer = "\<lambda>_. Ok ''p''" and localKey = "()" and config_ID = "\<lambda>_. ''g''"
        and c = "()" and ss = "[named_signer ''a'']"]
    by (fastforce simp: NewRoutableAddress_def routableSeparator_def ActorName_def named_signer_def)
qed

end
