(* ===== verification/Signature_Laws.thy ===== *)
theory Signature_Laws
  imports Notary_Group Ids
begin

text \<open>
  What aggregated signatures are worth, for every pairing library with the laws of
  \<^verbatim>\<open>bls_scheme\<close>: signatures made by \<^verbatim>\<open>BLSSign\<close> over one message, aggregated in any way and
  any number of times, verify against the public key restored from the counts of their
  signers. A small scheme that satisfies the laws gives the concrete inputs.
\<close>

section \<open>Well-signed signatures\<close>

definition gathered :: "'p VerKey list \<Rightarrow> u32 list \<Rightarrow> 'p list" where
  "gathered vks cs = concat (map2 (\<lambda>v c. replicate (unat c) (vk_public v)) vks cs)"

lemma gathered_keys:
  "length vks = length cs \<Longrightarrow> map vk_public (gather_keys vks cs []) = gathered vks cs"
  by (simp add: gather_keys_eq gathered_def map_concat comp_def case_prod_unfold)

lemma gathered_zeros: "gathered vks (replicate (length vks) 0) = []"
  by (induction vks) (auto simp: gathered_def)

lemma gathered_add:
  assumes "length vks = length xs" "list_all2 (\<lambda>x y. unat x + unat y < 2 ^ 32) xs ys"
  shows "mset (gathered vks (map2 (+) xs ys)) = mset (gathered vks xs) + mset (gathered vks ys)"
proof -
  have "length xs = length ys" using assms(2) by (rule list_all2_lengthD)
  with assms(1) show ?thesis
    using assms(2)
  proof (induction vks xs ys rule: list_induct3)
    case (Cons v vks x xs y ys)
    then have "unat (x + y) = unat x + unat y" by (intro unat_add_u32) simp
    with Cons show ?case by (simp add: gathered_def replicate_add)
  qed (simp add: gathered_def)
qed

lemma gathered_single:
  "i < length vks \<Longrightarrow> gathered vks ((replicate (length vks) 0)[i := 1]) = [vk_public (vks ! i)]"
proof (induction vks arbitrary: i)
  case (Cons v vks)
  then show ?case
    using gathered_zeros [of vks] by (cases i) (auto simp: gathered_def)
qed simp

section \<open>Counts of signers\<close>

text \<open>How often index \<^verbatim>\<open>i\<close> signed, over all signatures, in the integers.\<close>

definition times_signed :: "nat \<Rightarrow> Signature list \<Rightarrow> nat" where
  "times_signed i ss = sum_list (map (\<lambda>s. unat (sig_Signers s ! i)) ss)"

lemma times_signed_simps [simp]:
  "times_signed i [] = 0" "times_signed i (s # ss) = unat (sig_Signers s ! i) + times_signed i ss"
  by (simp_all add: times_signed_def)

definition bls_signature :: "nat \<Rightarrow> ('k, 'p) kyber \<Rightarrow> Signature \<Rightarrow> bool" where
  "bls_signature n K s \<longleftrightarrow> pk_Type (own_PublicKey (sig_Ownership s)) = KeyTypeBLSGroupSig \<and>
     length (sig_Signers s) = n \<and> is_ok (BytesToVerKey K (pk_PublicKey (own_PublicKey (sig_Ownership s))))"

lemma fits_iff:
  "length xs = length ys \<Longrightarrow> list_all2 (\<lambda>x y. unat x + unat y < 2 ^ 32) xs ys \<longleftrightarrow>
     (\<forall>i < length xs. unat (xs ! i :: u32) + unat (ys ! i :: u32) < 2 ^ 32)"
  by (simp add: list_all2_conv_all_nth)

lemma aggregate_loop_counts:
  assumes "list_all (bls_signature n K) ss" "length acc = n"
  shows "if \<forall>i < n. unat (acc ! i) + times_signed i ss < 2 ^ 32
    then \<exists>acc' bs' ks'. aggregate_loop K n acc bs ks ss = Ok (acc', bs', ks') \<and> length acc' = n \<and>
      (\<forall>i < n. unat (acc' ! i) = unat (acc ! i) + times_signed i ss)
    else aggregate_loop K n acc bs ks ss = Fail would_overflow"
  using assms
proof (induction ss arbitrary: acc bs ks)
  case Nil
  then show ?case by (simp add: unat_u32_bound [simplified])
next
  case (Cons s ss)
  obtain key where key: "BytesToVerKey K (pk_PublicKey (own_PublicKey (sig_Ownership s))) = Ok key"
    and s: "pk_Type (own_PublicKey (sig_Ownership s)) = KeyTypeBLSGroupSig" "length (sig_Signers s) = n"
    using Cons.prems(1) by (auto simp: bls_signature_def is_ok_iff)
  have len: "length acc = length (sig_Signers s)" using Cons.prems(2) s(2) by simp
  have add: "add_signers acc (sig_Signers s) =
      (if \<forall>i < n. unat (acc ! i) + unat (sig_Signers s ! i) < 2 ^ 32
       then Ok (map2 (+) acc (sig_Signers s)) else Fail would_overflow)"
    unfolding add_signers_eq [OF len] fits_iff [OF len] Cons.prems(2) ..
  show ?case
  proof (cases "\<forall>i < n. unat (acc ! i) + unat (sig_Signers s ! i) < 2 ^ 32")
    case True
    let ?acc = "map2 (+) acc (sig_Signers s)"
    have step: "aggregate_loop K n acc bs ks (s # ss) =
        aggregate_loop K n ?acc (bs @ [sig_Signature s]) (ks @ [key]) ss"
      using True key s by (simp add: add)
    have nth: "unat (?acc ! i) = unat (acc ! i) + unat (sig_Signers s ! i)" if "i < n" for i
      using that True len Cons.prems(2) by (simp add: unat_add_u32)
    have "length ?acc = n" "list_all (bls_signature n K) ss" using Cons.prems len by simp_all
    note ih = Cons.IH [OF this(2,1), of "bs @ [sig_Signature s]" "ks @ [key]"]
    have e: "unat (?acc ! i) + times_signed i ss = unat (acc ! i) + times_signed i (s # ss)" if "i < n" for i
      using nth [OF that] by simp
    have "(\<forall>i < n. unat (?acc ! i) + times_signed i ss < 2 ^ 32) \<longleftrightarrow>
        (\<forall>i < n. unat (acc ! i) + times_signed i (s # ss) < 2 ^ 32)"
      using e by (metis (no_types))
    with ih e show ?thesis unfolding step by (auto split: if_splits simp del: times_signed_simps)
  next
    case False
    then have "\<not> (\<forall>i < n. unat (acc ! i) + times_signed i (s # ss) < 2 ^ 32)" by fastforce
    moreover have "aggregate_loop K n acc bs ks (s # ss) = Fail would_overflow"
      using False key s by (auto simp: add)
    ultimately show ?thesis by (simp only: if_False)
  qed
qed

lemma AggregateBLSSignatures_sums:
  assumes "ss \<noteq> []" "list_all (bls_signature n K) ss"
  shows "((\<exists>i < n. 2 ^ 32 \<le> times_signed i ss) \<longrightarrow> AggregateBLSSignatures K ss = Fail would_overflow) \<and>
    (\<forall>agg. AggregateBLSSignatures K ss = Ok agg \<longrightarrow> length (sig_Signers agg) = n \<and>
       (\<forall>i < n. unat (sig_Signers agg ! i) = times_signed i ss))"
proof -
  obtain s0 ss' where ss: "ss = s0 # ss'" using assms(1) by (cases ss) auto
  then have n: "length (sig_Signers s0) = n" using assms(2) by (simp add: bls_signature_def)
  note loop = aggregate_loop_counts [OF assms(2) length_replicate, of 0 "[]" "[]"]
  show ?thesis
  proof (cases "\<forall>i < n. times_signed i ss < 2 ^ 32")
    case True
    then have "\<exists>acc' bs' ks'. aggregate_loop K n (replicate n 0) [] [] ss = Ok (acc', bs', ks') \<and>
        length acc' = n \<and> (\<forall>i < n. unat (acc' ! i) = times_signed i ss)"
      using loop by (simp split: if_splits)
    with True n ss show ?thesis
      by (auto simp: AggregateBLSSignatures_def rbind_Ok_iff not_less [symmetric] simp del: times_signed_simps)
  next
    case False
    then have "aggregate_loop K n (replicate n 0) [] [] ss = Fail would_overflow"
      using loop by (auto split: if_splits)
    with n ss show ?thesis by (simp add: AggregateBLSSignatures_def)
  qed
qed

context bls_scheme
begin

text \<open>
  A signature that carries the public key its signer counts stand for, one that also
  verifies, and one that also has no conditions.
\<close>

definition well_keyed :: "'p VerKey list \<Rightarrow> Signature \<Rightarrow> bool" where
  "well_keyed vks s \<longleftrightarrow> length (sig_Signers s) = length vks \<and>
     own_PublicKey (sig_Ownership s) = \<lparr>pk_Type = KeyTypeBLSGroupSig,
       pk_PublicKey = key_bytes (dedis_AggregatePublicKeys K (gathered vks (sig_Signers s)))\<rparr>"

definition endorsed :: "'p VerKey list \<Rightarrow> bytes \<Rightarrow> Signature \<Rightarrow> bool" where
  "endorsed vks m s \<longleftrightarrow> well_keyed vks s \<and>
     verifies K m (dedis_AggregatePublicKeys K (gathered vks (sig_Signers s))) (sig_Signature s)"

definition well_signed :: "'p VerKey list \<Rightarrow> bytes \<Rightarrow> Signature \<Rightarrow> bool" where
  "well_signed vks m s \<longleftrightarrow> endorsed vks m s \<and> own_Conditions (sig_Ownership s) = []"

lemmas signed_defs = well_signed_def endorsed_def well_keyed_def

lemma well_signed_endorsed: "list_all (well_signed vks m) ss \<Longrightarrow> list_all (endorsed vks m) ss"
  by (simp add: list_all_iff well_signed_def)

lemma restore_well_signed:
  assumes "well_signed vks m s"
  shows "RestoreBLSPublicKey K s vks = Ok s"
  using assms
  by (simp add: RestoreBLSPublicKey_def signed_defs Let_def gathered_keys VerKey_Bytes_def)

lemma valid_well_signed:
  assumes "well_signed vks m s"
  shows "Valid C K s m scope = Ok True"
  using assms
  by (auto simp: Valid_def signed_defs verifies_def validConditions_def VerKey_Verify_def)

lemma restored_endorsed:
  assumes "RestoreBLSPublicKey K s vks = Ok s'" "Valid C K s' m scope = Ok True"
  shows "endorsed vks m s' \<and> sig_Signers s' = sig_Signers s \<and> sig_Signature s' = sig_Signature s"
proof -
  have "length (sig_Signers s) = length vks"
    and s': "s' = s\<lparr>sig_Ownership := (sig_Ownership s)\<lparr>own_PublicKey := \<lparr>pk_Type = KeyTypeBLSGroupSig,
      pk_PublicKey = key_bytes (dedis_AggregatePublicKeys K (gathered vks (sig_Signers s)))\<rparr>\<rparr>\<rparr>"
    using assms(1) by (auto simp: RestoreBLSPublicKey_def Let_def VerKey_Bytes_def gathered_keys split: if_splits)
  moreover from this have
    "verifies K m (dedis_AggregatePublicKeys K (gathered vks (sig_Signers s))) (sig_Signature s)"
    using assms(2)
    by (auto simp: Valid_def VerKey_Verify_def verifies_def rbind_Ok_iff split: if_splits res.splits)
  ultimately show ?thesis by (simp add: endorsed_def well_keyed_def)
qed

lemma sign_well_signed:
  assumes key: "sk_verKey key = vks ! i" "vk_public (vks ! i) = Point_Mul K (sk_private key)"
      "vk_value (vks ! i) = key_bytes (vk_public (vks ! i))"
    and i: "i < length vks"
  shows "\<exists>s. BLSSign K key m (int (length vks)) (int i) = Ok s \<and> well_signed vks m s"
proof -
  obtain b where b: "dedis_Sign K (sk_private key) m = Ok b" using sign_total by blast
  then show ?thesis
    using key i verify_sign [OF b]
    by (simp add: BLSSign_def SignKey_VerKey_def SignKey_Sign_def signed_defs BLSToOwnership_def
        VerKey_Bytes_def gathered_single sum_one)
qed

text \<open>The loop of \<^verbatim>\<open>AggregateBLSSignatures\<close> over well-keyed signatures.\<close>

lemma aggregate_loop_well_keyed:
  assumes "list_all (well_keyed vks) ss" "length acc = length vks"
    "aggregate_loop K (length vks) acc bs ks ss = Ok (acc', bs', ks')"
  shows "length acc' = length vks \<and> bs' = bs @ map sig_Signature ss \<and>
    (\<exists>ps. map vk_public ks' = map vk_public ks @ ps \<and>
       list_all2 (\<lambda>p s. p = dedis_AggregatePublicKeys K (gathered vks (sig_Signers s))) ps ss) \<and>
    mset (gathered vks acc') =
      mset (gathered vks acc) + mset (concat (map (\<lambda>s. gathered vks (sig_Signers s)) ss))"
  using assms
proof (induction ss arbitrary: acc bs ks)
  case (Cons s ss)
  then have ws: "well_keyed vks s" by simp
  let ?k = "dedis_AggregatePublicKeys K (gathered vks (sig_Signers s))"
  have len: "length acc = length (sig_Signers s)" using Cons.prems(2) ws by (simp add: well_keyed_def)
  have "list_all2 (\<lambda>x y. unat x + unat y < 2 ^ 32) acc (sig_Signers s)"
    and rest: "aggregate_loop K (length vks) (map2 (+) acc (sig_Signers s)) (bs @ [sig_Signature s])
      (ks @ [\<lparr>vk_value = key_bytes ?k, vk_public = ?k\<rparr>]) ss = Ok (acc', bs', ks')"
    using Cons.prems(3) ws by (auto simp: add_signers_eq [OF len] well_keyed_def rbind_Ok_iff split: if_splits)
  then have add: "mset (gathered vks (map2 (+) acc (sig_Signers s))) =
      mset (gathered vks acc) + mset (gathered vks (sig_Signers s))"
    using gathered_add [of vks acc "sig_Signers s"] Cons.prems(2) by simp
  have "length (map2 (+) acc (sig_Signers s)) = length vks" using Cons.prems(2) len by simp
  from Cons.IH [OF _ this rest] Cons.prems(1) obtain ps where
    ih: "length acc' = length vks" "bs' = (bs @ [sig_Signature s]) @ map sig_Signature ss"
    "map vk_public ks' = (map vk_public ks @ [?k]) @ ps"
    "list_all2 (\<lambda>p s. p = dedis_AggregatePublicKeys K (gathered vks (sig_Signers s))) ps ss"
    "mset (gathered vks acc') = mset (gathered vks (map2 (+) acc (sig_Signers s))) +
      mset (concat (map (\<lambda>s. gathered vks (sig_Signers s)) ss))"
    by auto
  then show ?case using add by (intro conjI exI [of _ "?k # ps"]) simp_all
qed auto

lemma aggregate_endorsed:
  assumes ws: "list_all (endorsed vks m) ss" and run: "AggregateBLSSignatures K ss = Ok agg"
  shows "well_signed vks m agg \<and>
    mset (gathered vks (sig_Signers agg)) = mset (concat (map (\<lambda>s. gathered vks (sig_Signers s)) ss))"
proof -
  let ?key = "\<lambda>s. dedis_AggregatePublicKeys K (gathered vks (sig_Signers s))"
  obtain s0 ss' where ss: "ss = s0 # ss'" using run by (cases ss) (auto simp: AggregateBLSSignatures_def)
  have n: "length (sig_Signers s0) = length vks" using ws ss by (simp add: endorsed_def well_keyed_def)
  obtain acc' bs' ks' where loop: "aggregate_loop K (length vks) (replicate (length vks) 0) [] [] ss = Ok (acc', bs', ks')"
    and agg: "dedis_AggregateSignatures K bs' = Ok (sig_Signature agg)" "sig_Signers agg = acc'"
      "sig_Ownership agg = \<lparr>own_PublicKey = \<lparr>pk_Type = KeyTypeBLSGroupSig,
         pk_PublicKey = key_bytes (dedis_AggregatePublicKeys K (map vk_public ks'))\<rparr>, own_Conditions = []\<rparr>"
    using run ss n
    by (auto simp: AggregateBLSSignatures_def rbind_Ok_iff SumSignatures_def VerKey_Bytes_def Let_def)
  have wk: "list_all (well_keyed vks) ss" using ws by (simp add: list_all_iff endorsed_def)
  from aggregate_loop_well_keyed [OF wk _ loop] obtain ps where
    len: "length acc' = length vks" and bs': "bs' = map sig_Signature ss" and ks': "map vk_public ks' = ps"
    and ps: "list_all2 (\<lambda>p s. p = ?key s) ps ss"
    and m: "mset (gathered vks acc') = mset (concat (map (\<lambda>s. gathered vks (sig_Signers s)) ss))"
    by (auto simp: gathered_zeros)
  have key: "dedis_AggregatePublicKeys K ps = dedis_AggregatePublicKeys K (gathered vks acc')"
    using ps m by (intro sum_cong [where pss = "map (\<lambda>s. gathered vks (sig_Signers s)) ss"])
      (simp_all add: list_all2_map2)
  have "list_all2 (verifies K m) ps (map sig_Signature ss)"
    using ps ws by (induction rule: list_all2_induct) (auto simp: endorsed_def)
  from verify_sum [OF this] agg(1) bs' ss have "verifies K m (dedis_AggregatePublicKeys K ps) (sig_Signature agg)"
    by simp
  then show ?thesis using agg(2,3) len ks' key m by (simp add: signed_defs)
qed

lemma bls_endorsed: "endorsed vks m s \<Longrightarrow> bls_signature (length vks) K s"
  by (simp add: signed_defs bls_signature_def)

lemma aggregate_endorsed_total:
  assumes ws: "list_all (endorsed vks m) ss" and "ss \<noteq> []"
    and fits: "\<forall>i < length vks. times_signed i ss < 2 ^ 32"
  obtains agg where "AggregateBLSSignatures K ss = Ok agg"
proof -
  obtain s0 ss' where ss: "ss = s0 # ss'" using assms(2) by (cases ss) auto
  then have n: "length (sig_Signers s0) = length vks" using ws by (simp add: endorsed_def well_keyed_def)
  have "list_all (bls_signature (length vks) K) ss" using ws by (auto simp: list_all_iff intro: bls_endorsed)
  from aggregate_loop_counts [OF this length_replicate, of 0 "[]" "[]"] fits obtain acc' bs' ks' where
    loop: "aggregate_loop K (length vks) (replicate (length vks) 0) [] [] ss = Ok (acc', bs', ks')"
    by (auto split: if_splits)
  have "list_all (well_keyed vks) ss" using ws by (simp add: list_all_iff endorsed_def)
  from aggregate_loop_well_keyed [OF this _ loop] obtain ps where bs': "bs' = map sig_Signature ss"
    and ps: "list_all2 (\<lambda>p s. p = dedis_AggregatePublicKeys K (gathered vks (sig_Signers s))) ps ss" by auto
  have "list_all2 (verifies K m) ps bs'"
    unfolding bs' using ps ws by (induction rule: list_all2_induct) (auto simp: endorsed_def)
  from aggregate_total [OF this] obtain sg where "dedis_AggregateSignatures K bs' = Ok sg"
    using bs' assms(2) by auto
  with loop n ss that show thesis by (simp add: AggregateBLSSignatures_def SumSignatures_def)
qed

text \<open>Signatures of the members of a group.\<close>

definition members :: "('k, 'p) SignKey list \<Rightarrow> bool" where
  "members keys \<longleftrightarrow> (\<forall>key \<in> set keys. sk_verKey key =
     \<lparr>vk_value = bytes_or_nil (Point_MarshalBinary K (Point_Mul K (sk_private key))),
      vk_public = Point_Mul K (sk_private key)\<rparr>)"

lemma member_signature:
  assumes "members keys" "i < length keys" "BLSSign K (keys ! i) m (int (length keys)) (int i) = Ok s"
  shows "well_signed (map sk_verKey keys) m s \<and> sig_Signers s = (replicate (length keys) 0)[i := 1]"
proof -
  have "keys ! i \<in> set keys" using assms(2) by simp
  with assms(1) have "sk_verKey (keys ! i) = \<lparr>vk_value = key_bytes (Point_Mul K (sk_private (keys ! i))),
      vk_public = Point_Mul K (sk_private (keys ! i))\<rparr>"
    unfolding members_def key_bytes_def by blast
  then have "well_signed (map sk_verKey keys) m s"
    using sign_well_signed [of "keys ! i" "map sk_verKey keys" i m] assms(2,3) by auto
  then show ?thesis using assms(3) by (auto simp: BLSSign_def rbind_Ok_iff split: if_splits)
qed

lemma members_signatures:
  assumes "members keys"
    "list_all2 (\<lambda>s i. i < length keys \<and> BLSSign K (keys ! i) m (int (length keys)) (int i) = Ok s) ss js"
  shows "list_all (well_signed (map sk_verKey keys) m) ss \<and> set js \<subseteq> {..<length keys} \<and>
    (\<forall>j < length keys. times_signed j ss = count_list js j)"
  using assms(2)
proof (induction rule: list_all2_induct)
  case (Cons s ss i js)
  then have "well_signed (map sk_verKey keys) m s \<and> sig_Signers s = (replicate (length keys) 0)[i := 1]"
    using member_signature [OF assms(1)] by blast
  with Cons show ?case by (auto simp: nth_list_update)
qed simp

lemma members_verify:
  assumes "members keys" "ss \<noteq> []" "length ss < 2 ^ 32"
    "list_all2 (\<lambda>s i. i < length keys \<and> BLSSign K (keys ! i) m (int (length keys)) (int i) = Ok s) ss js"
  shows "\<exists>agg. AggregateBLSSignatures K ss = Ok agg \<and>
    RestoreBLSPublicKey K agg (map sk_verKey keys) = Ok agg \<and>
    Valid C K agg m scope = Ok True \<and> SignerCount agg = card (set js)"
proof -
  let ?vks = "map sk_verKey keys"
  have ws: "list_all (well_signed ?vks m) ss" and js: "set js \<subseteq> {..<length keys}"
    and cnt: "\<And>j. j < length keys \<Longrightarrow> times_signed j ss = count_list js j"
    using members_signatures [OF assms(1,4)] by auto
  have "length js = length ss" using assms(4) by (simp add: list_all2_lengthD)
  then have "count_list js j < 2 ^ 32" for j
    using count_le_length [of js j] assms(3) by linarith
  then have "\<forall>j < length ?vks. times_signed j ss < 2 ^ 32" using cnt by simp
  from aggregate_endorsed_total [OF well_signed_endorsed [OF ws] assms(2) this] obtain agg where
    agg: "AggregateBLSSignatures K ss = Ok agg" .
  have agg_ws: "well_signed ?vks m agg" using aggregate_endorsed [OF well_signed_endorsed [OF ws] agg] by simp
  have "list_all (bls_signature (length keys) K) ss"
    using ws bls_endorsed [of ?vks m] by (auto simp: list_all_iff well_signed_def)
  from AggregateBLSSignatures_sums [OF assms(2) this] agg have
    "length (sig_Signers agg) = length keys" "\<forall>j < length keys. unat (sig_Signers agg ! j) = count_list js j"
    using cnt by auto
  moreover from this(2) have "0 < sig_Signers agg ! j \<longleftrightarrow> j \<in> set js" if "j < length keys" for j
    using that count_list_0_iff [of js j] by (auto simp: word_less_nat_alt)
  ultimately have "signer_set agg = set js" using js by (auto simp: signer_set_def)
  then have "SignerCount agg = card (set js)" using card_signer_set [of agg] by simp
  then show ?thesis
    using agg restore_well_signed [OF agg_ws] valid_well_signed [OF agg_ws] by blast
qed

end

section \<open>A reference scheme\<close>

text \<open>Keys are 64-bit words under addition; a signature is the key followed by the message.\<close>

definition ref_kyber :: "(u64, u64) kyber" where
  "ref_kyber = \<lparr>
     Scalar_UnmarshalBinary = (\<lambda>b. Ok (u64_of_bytes b)),
     Scalar_MarshalBinary = (\<lambda>k. Ok (uint64ToBytes k)),
     Point_Mul = (\<lambda>k. k),
     Point_UnmarshalBinary = (\<lambda>b. Ok (u64_of_bytes b)),
     Point_MarshalBinary = (\<lambda>p. Ok (uint64ToBytes p)),
     dedis_Sign = (\<lambda>k m. Ok (uint64ToBytes k @ m)),
     dedis_Verify = (\<lambda>p m s. if s = uint64ToBytes p @ m then Ok () else Fail (LibErr ''bls: invalid signature'')),
     dedis_AggregateSignatures = (\<lambda>ss. Ok (uint64ToBytes (sum_list (map (\<lambda>s. u64_of_bytes (take 8 s)) ss)) @ drop 8 (hd ss))),
     dedis_AggregatePublicKeys = sum_list\<rparr>"

lemma ref_kyber_simps [simp]:
  "Point_Mul ref_kyber k = k" "Point_MarshalBinary ref_kyber p = Ok (uint64ToBytes p)"
  "Point_UnmarshalBinary ref_kyber b = Ok (u64_of_bytes b)" "dedis_Sign ref_kyber k m = Ok (uint64ToBytes k @ m)"
  "dedis_AggregatePublicKeys ref_kyber = sum_list"
  "dedis_AggregateSignatures ref_kyber ss =
     Ok (uint64ToBytes (sum_list (map (\<lambda>s. u64_of_bytes (take 8 s)) ss)) @ drop 8 (hd ss))"
  by (simp_all add: ref_kyber_def)

text \<open>A stand-in for the other libraries: keys are byte strings, the only true script is \<^verbatim>\<open>true\<close>.\<close>

definition ref_crypto :: "(bytes, bytes, unit) crypto_lib" where
  "ref_crypto = \<lparr>
     Keccak256 = (\<lambda>b. b), Keccak256Hash_String = (\<lambda>b. map (\<lambda>x. char_of (unat x)) b),
     BytesToAddress = (\<lambda>b. b), Address_String = (\<lambda>a. map (\<lambda>x. char_of (unat x)) a),
     UnmarshalPubkey = (\<lambda>b. case b of [] \<Rightarrow> Fail (LibErr ''public key'') | _ # k \<Rightarrow> Ok k), FromECDSAPub = (\<lambda>k. 4 # k), PubkeyToAddress = (\<lambda>k. k), ecdsa_Public = (\<lambda>k. k),
     SigToPub = (\<lambda>h s. if take (length h) s = h then Ok (butlast (drop (length h) s)) else Fail (LibErr ''recovery'')),
     VerifySignature = (\<lambda>k h s. s = h @ tl k),
     crypto_Sign = (\<lambda>h k. Ok (h @ k @ [0])),
     NewDefaultScope = (), scope_Bind = (\<lambda>sc k v. Ok sc), ExecuteStr = (\<lambda>script sc. Ok (script = ''true''))\<rparr>"

lemma ref_kyber_verifies [simp]: "verifies ref_kyber m p s \<longleftrightarrow> s = uint64ToBytes p @ m"
  by (simp add: verifies_def ref_kyber_def)

lemma ref_kyber_all:
  "list_all2 (verifies ref_kyber m) ps ss \<Longrightarrow>
     map (\<lambda>s. u64_of_bytes (take 8 s)) ss = ps \<and> (ss \<noteq> [] \<longrightarrow> drop 8 (hd ss) = m)"
  by (induction rule: list_all2_induct) auto

interpretation ref_bls: bls_scheme ref_kyber
proof
  fix m ps ss s assume "list_all2 (verifies ref_kyber m) ps ss" "ss \<noteq> []"
    "dedis_AggregateSignatures ref_kyber ss = Ok s"
  then show "verifies ref_kyber m (dedis_AggregatePublicKeys ref_kyber ps) s"
    using ref_kyber_all [of m ps ss] by simp
next
  fix ps qs :: "u64 list" assume "mset ps = mset qs"
  then show "dedis_AggregatePublicKeys ref_kyber ps = dedis_AggregatePublicKeys ref_kyber qs"
    using sum_mset_sum_list [of ps] sum_mset_sum_list [of qs] by simp
next
  fix pss :: "u64 list list"
  show "dedis_AggregatePublicKeys ref_kyber (map (dedis_AggregatePublicKeys ref_kyber) pss) =
    dedis_AggregatePublicKeys ref_kyber (concat pss)"
    by (induction pss) simp_all
qed auto

section \<open>Properties\<close>

text \<open>The signer counts of an aggregate are exact. For BLS signatures of one group size, if some
  signer's counts add up to 2 to the 32 or more, \<^verbatim>\<open>AggregateBLSSignatures\<close> reports the
  overflow; if it succeeds, every count is the sum of the counts in the integers, so no
  count has wrapped.\<close>

theorem AggregateBLSSignatures_counts:
  assumes "ss \<noteq> []" "list_all (bls_signature n K) ss"
  shows "((\<exists>i < n. 2 ^ 32 \<le> times_signed i ss) \<longrightarrow> AggregateBLSSignatures K ss = Fail would_overflow) \<and>
    (\<forall>agg. AggregateBLSSignatures K ss = Ok agg \<longrightarrow> length (sig_Signers agg) = n \<and>
       (\<forall>i < n. unat (sig_Signers agg ! i) = times_signed i ss))"
  using AggregateBLSSignatures_sums [OF assms] .

definition ref_signer :: "u64 \<Rightarrow> (u64, u64) SignKey" where
  "ref_signer k = \<lparr>sk_private = k, sk_verKey = \<lparr>vk_value = uint64ToBytes k, vk_public = k\<rparr>, sk_value = uint64ToBytes k\<rparr>"

definition counted :: "u32 list \<Rightarrow> Signature" where
  "counted cs = \<lparr>sig_Ownership = \<lparr>own_PublicKey = \<lparr>pk_Type = KeyTypeBLSGroupSig, pk_PublicKey = uint64ToBytes 5\<rparr>,
     own_Conditions = []\<rparr>, sig_Signers = cs, sig_Signature = uint64ToBytes 5, sig_PreImage = []\<rparr>"

theorem AggregateBLSSignatures_counts_witness:
  "AggregateBLSSignatures ref_kyber [counted [1, 0xFFFFFFFF], counted [0, 1]] = Fail would_overflow"
proof -
  have "list_all (bls_signature 2 ref_kyber) [counted [1, 0xFFFFFFFF], counted [0, 1]]"
    by (simp add: bls_signature_def counted_def BytesToVerKey_def ref_kyber_def)
  moreover have "2 ^ 32 \<le> times_signed 1 [counted [1, 0xFFFFFFFF], counted [0, 1]]"
    by (simp add: counted_def)
  ultimately show ?thesis
    using AggregateBLSSignatures_counts [of "[counted [1, 0xFFFFFFFF], counted [0, 1]]" 2 ref_kyber]
    by (metis (no_types, lifting) list.distinct(1) one_less_numeral_iff semiring_norm(76))
qed

text \<open>A quorum's signature verifies. Signatures made by \<^verbatim>\<open>BLSSign\<close> over one message by members
  of a group (each with the member's key at the member's index; members may sign more than
  once, fewer than 2 to the 32 signatures in all) can be aggregated; restoring the public
  key of the aggregate from the group's keys changes nothing; the aggregate is \<^verbatim>\<open>Valid\<close> for
  the message; and \<^verbatim>\<open>SignerCount\<close> is the number of distinct members who signed.\<close>

theorem aggregate_verifies:
  fixes K :: "('k, 'p) kyber" and keys :: "('k, 'p) SignKey list"
  assumes "bls_scheme K" "ss \<noteq> []" "length ss < 2 ^ 32"
    and "vks = map sk_verKey keys"
    and "\<forall>key \<in> set keys. sk_verKey key = \<lparr>vk_value = bytes_or_nil (Point_MarshalBinary K (Point_Mul K (sk_private key))),
        vk_public = Point_Mul K (sk_private key)\<rparr>"
    and "list_all2 (\<lambda>s i. i < length keys \<and> BLSSign K (keys ! i) m (int (length keys)) (int i) = Ok s) ss js"
  shows "\<exists>agg. AggregateBLSSignatures K ss = Ok agg \<and> RestoreBLSPublicKey K agg vks = Ok agg \<and>
    Valid C K agg m scope = Ok True \<and> SignerCount agg = card (set js)"
  using bls_scheme.members_verify [OF assms(1) _ assms(2,3,6)] assms(4,5)
  unfolding bls_scheme.members_def [OF assms(1)] by simp

theorem aggregate_verifies_witness:
  "\<exists>agg. AggregateBLSSignatures ref_kyber [counted [1, 0]] = Ok agg \<and>
     RestoreBLSPublicKey ref_kyber agg [sk_verKey (ref_signer 5), sk_verKey (ref_signer 7)] = Ok agg \<and>
     Valid ref_crypto ref_kyber agg [] None = Ok True \<and> SignerCount agg = 1"
proof -
  have sign: "BLSSign ref_kyber (ref_signer 5) [] 2 0 = Ok (counted [1, 0])"
    by (simp add: BLSSign_def ref_signer_def SignKey_VerKey_def SignKey_Sign_def counted_def
        BLSToOwnership_def VerKey_Bytes_def numeral_2_eq_2)
  let ?keys = "[ref_signer 5, ref_signer 7]"
  have keys: "\<forall>key \<in> set ?keys. sk_verKey key =
      \<lparr>vk_value = bytes_or_nil (Point_MarshalBinary ref_kyber (Point_Mul ref_kyber (sk_private key))),
       vk_public = Point_Mul ref_kyber (sk_private key)\<rparr>"
    by (simp add: ref_signer_def bytes_or_nil_def)
  have signed: "list_all2 (\<lambda>s i. i < length ?keys \<and>
      BLSSign ref_kyber (?keys ! i) [] (int (length ?keys)) (int i) = Ok s) [counted [1, 0]] [0]"
    using sign by simp
  from aggregate_verifies [OF ref_bls.bls_scheme_axioms _ _ refl keys signed] show ?thesis by simp
qed

end
