(* ===== verification/Proofs.thy ===== *)
theory Proofs
  imports Signature_Laws
begin

text \<open>
  \<^verbatim>\<open>src/proof/proof.go\<close>: verification of the proof that a chain tree's tip was confirmed by a
  round of the notary group. Encoding and hashing of the messages (\<^verbatim>\<open>safewrap\<close>, the
  \<^verbatim>\<open>hamt\<close> store) and the parsing of CIDs are the parameter \<^verbatim>\<open>proof_lib\<close>.
\<close>

section \<open>The verifier\<close>

record proof_lib =
  sw_WrapRound :: "Round \<Rightarrow> node res"
  sw_WrapCheckpoint :: "Checkpoint \<Rightarrow> node res"
  hamt_Put :: "AddBlockRequest \<Rightarrow> cid res"
  Cast :: "bytes \<Rightarrow> cid res"

text \<open>
  \<^verbatim>\<open>sw.WrapObject(x).Cid()\<close>: a failed wrap yields a nil node, whose \<^verbatim>\<open>Cid\<close> panics.
\<close>

definition wrapped_Cid :: "node res \<Rightarrow> cid res" where
  "wrapped_Cid r = (case r of
     Ok n \<Rightarrow> Ok (node_Cid n) | _ \<Rightarrow> Panic ''invalid memory address or nil pointer dereference'')"

definition verifyRoundConfirmation ::
  "('e, 'd, 'sc) crypto_lib \<Rightarrow> ('k, 'p) kyber \<Rightarrow> RoundConfirmation \<Rightarrow> u64 \<Rightarrow> 'p VerKey list \<Rightarrow> bool res" where
  "verifyRoundConfirmation C K conf quorumCount verKeys =
     (let sig = rc_Signature conf in
      if (of_nat (SignerCount sig) :: u64) < quorumCount then Ok False
      else
      rbind (wrapf ''error restoring public key: %v'' (RestoreBLSPublicKey K sig verKeys)) (\<lambda>sig.
      let msg = rc_RoundCid conf in
      rbind (wrapf ''error verifying round signature: %v'' (Valid C K sig msg None)) (\<lambda>isVerified.
      Ok isVerified)))"

fun find_abr :: "'z proof_lib_scheme \<Rightarrow> cid \<Rightarrow> bytes list \<Rightarrow> bool res" where
  "find_abr L abrCid [] = Ok False"
| "find_abr L abrCid (cpAbrCidBytes # rest) =
     rbind (wrapf ''error casting checkpoint add block request cid: %v'' (Cast L cpAbrCidBytes)) (\<lambda>cpAbrCid.
     if cpAbrCid = abrCid then Ok True else find_abr L abrCid rest)"

definition Verify ::
  "('e, 'd, 'sc) crypto_lib \<Rightarrow> ('k, 'p) kyber \<Rightarrow> 'z proof_lib_scheme \<Rightarrow> Proof \<Rightarrow> u64 \<Rightarrow> 'p VerKey list \<Rightarrow> bool res" where
  "Verify C K L proof quorumCount verKeys =
     rbind (wrapf ''error verifying round confirmation: %v''
       (verifyRoundConfirmation C K (prf_RoundConfirmation proof) quorumCount verKeys)) (\<lambda>validRoundConfirmation.
     if \<not> validRoundConfirmation then Ok False
     else
     rbind (wrapped_Cid (sw_WrapRound L (prf_Round proof))) (\<lambda>roundCid.
     rbind (wrapf ''error casting round confirmation roundcid: %v''
       (Cast L (rc_RoundCid (prf_RoundConfirmation proof)))) (\<lambda>roundCidFromConf.
     if \<not> roundCid = roundCidFromConf then Ok False
     else
     rbind (wrapped_Cid (sw_WrapCheckpoint L (prf_Checkpoint proof))) (\<lambda>checkpointCid.
     rbind (wrapf ''error casting round checkpoint cid: %v''
       (Cast L (rnd_CheckpointCid (prf_Round proof)))) (\<lambda>checkpointCidFromRound.
     if \<not> checkpointCid = checkpointCidFromRound then Ok False
     else
     rbind (wrapf ''error finding add block request cid: %v''
       (hamt_Put L (prf_AddBlockRequest proof))) (\<lambda>abrCid.
     rbind (find_abr L abrCid (cp_AddBlockRequests (prf_Checkpoint proof))) (\<lambda>abrFound.
     if \<not> abrFound then Ok False
     else
     rbind (wrapf ''error casting tip cid: %v'' (Cast L (prf_Tip proof))) (\<lambda>tipCid.
     rbind (wrapf ''error casting add block request new tip cid: %v''
       (Cast L (abr_NewTip (prf_AddBlockRequest proof)))) (\<lambda>tipCidFromAbr.
     if \<not> tipCid = tipCidFromAbr then Ok False
     else if prf_ObjectId proof \<noteq> abr_ObjectId (prf_AddBlockRequest proof) then Ok False
     else Ok True)))))))))"

section \<open>Facts\<close>

lemma wrapped_Cid_Ok_iff [simp, go_ok]: "wrapped_Cid r = Ok c \<longleftrightarrow> (\<exists>n. r = Ok n \<and> node_Cid n = c)"
  by (cases r) (auto simp: wrapped_Cid_def)

lemma find_abr_True:
  "find_abr L c bs = Ok True \<Longrightarrow> \<exists>b \<in> set bs. Cast L b = Ok c"
  by (induction bs) (auto simp: rbind_Ok_iff split: if_splits)

lemma find_abr_complete:
  "\<forall>b \<in> set bs. is_ok (Cast L b) \<Longrightarrow> (\<exists>b \<in> set bs. Cast L b = Ok c) \<Longrightarrow> find_abr L c bs = Ok True"
proof (induction bs)
  case (Cons b bs)
  then obtain x where "Cast L b = Ok x" by (auto simp: is_ok_iff)
  with Cons show ?case by auto
qed simp

lemma verifyRoundConfirmation_True:
  "verifyRoundConfirmation C K conf q vks = Ok True \<longleftrightarrow>
     q \<le> of_nat (SignerCount (rc_Signature conf)) \<and>
     (\<exists>sig. RestoreBLSPublicKey K (rc_Signature conf) vks = Ok sig \<and>
        Valid C K sig (rc_RoundCid conf) None = Ok True)"
  by (auto simp: verifyRoundConfirmation_def Let_def rbind_Ok_iff not_less)

lemma Verify_True_iff:
  "Verify C K L p q vks = Ok True \<longleftrightarrow>
     verifyRoundConfirmation C K (prf_RoundConfirmation p) q vks = Ok True \<and>
     (\<exists>n. sw_WrapRound L (prf_Round p) = Ok n \<and> Cast L (rc_RoundCid (prf_RoundConfirmation p)) = Ok (node_Cid n)) \<and>
     (\<exists>n. sw_WrapCheckpoint L (prf_Checkpoint p) = Ok n \<and> Cast L (rnd_CheckpointCid (prf_Round p)) = Ok (node_Cid n)) \<and>
     (\<exists>c. hamt_Put L (prf_AddBlockRequest p) = Ok c \<and>
        find_abr L c (cp_AddBlockRequests (prf_Checkpoint p)) = Ok True) \<and>
     (\<exists>c. Cast L (prf_Tip p) = Ok c \<and> Cast L (abr_NewTip (prf_AddBlockRequest p)) = Ok c) \<and>
     prf_ObjectId p = abr_ObjectId (prf_AddBlockRequest p)"
  unfolding Verify_def rbind_Ok_iff wrapf_Ok_iff wrapped_Cid_Ok_iff guard_Ok_True_iff not_not
  by auto

lemma Restore_then_Valid:
  assumes "bls_scheme K" "RestoreBLSPublicKey K s vks = Ok s'" "Valid C K s' m scope = Ok True"
  shows "length (sig_Signers s) = length vks \<and>
    dedis_Verify K (dedis_AggregatePublicKeys K (gathered vks (sig_Signers s))) m (sig_Signature s) = Ok ()"
  using bls_scheme.restored_endorsed [OF assms]
  by (auto simp: bls_scheme.endorsed_def [OF assms(1)] bls_scheme.well_keyed_def [OF assms(1)] verifies_def)

section \<open>Properties\<close>

text \<open>C13: an accepted proof is what it claims. If \<^verbatim>\<open>Verify\<close> returns true, at least the quorum of
  members signed; the signature, over the confirmation's round CID, verifies against the
  sum of the members' keys taken as often as each signed; that CID is the CID of the
  proof's round, whose checkpoint CID is the CID of the proof's checkpoint; the checkpoint
  lists the CID of the proof's add-block request; and the proof's tip and object are those
  of the request.\<close>

theorem Verify_sound:
  assumes "bls_scheme K" "length vks < 2 ^ 64" "Verify C K L p q vks = Ok True"
  shows "let sig = rc_Signature (prf_RoundConfirmation p); cid = rc_RoundCid (prf_RoundConfirmation p);
      req = prf_AddBlockRequest p in
    unat q \<le> SignerCount sig \<and> length (sig_Signers sig) = length vks \<and>
    dedis_Verify K (dedis_AggregatePublicKeys K (gathered vks (sig_Signers sig))) cid (sig_Signature sig) = Ok () \<and>
    (\<exists>n. sw_WrapRound L (prf_Round p) = Ok n \<and> Cast L cid = Ok (node_Cid n)) \<and>
    (\<exists>n. sw_WrapCheckpoint L (prf_Checkpoint p) = Ok n \<and> Cast L (rnd_CheckpointCid (prf_Round p)) = Ok (node_Cid n)) \<and>
    (\<exists>b \<in> set (cp_AddBlockRequests (prf_Checkpoint p)). Cast L b = hamt_Put L req) \<and>
    is_ok (Cast L (prf_Tip p)) \<and> Cast L (prf_Tip p) = Cast L (abr_NewTip req) \<and> prf_ObjectId p = abr_ObjectId req"
proof -
  let ?sig = "rc_Signature (prf_RoundConfirmation p)"
  from assms(3) have v: "verifyRoundConfirmation C K (prf_RoundConfirmation p) q vks = Ok True"
    and abr: "\<exists>c. hamt_Put L (prf_AddBlockRequest p) = Ok c \<and>
        find_abr L c (cp_AddBlockRequests (prf_Checkpoint p)) = Ok True"
    and rest: "\<exists>n. sw_WrapRound L (prf_Round p) = Ok n \<and> Cast L (rc_RoundCid (prf_RoundConfirmation p)) = Ok (node_Cid n)"
      "\<exists>n. sw_WrapCheckpoint L (prf_Checkpoint p) = Ok n \<and> Cast L (rnd_CheckpointCid (prf_Round p)) = Ok (node_Cid n)"
      "\<exists>c. Cast L (prf_Tip p) = Ok c \<and> Cast L (abr_NewTip (prf_AddBlockRequest p)) = Ok c"
      "prf_ObjectId p = abr_ObjectId (prf_AddBlockRequest p)"
    unfolding Verify_True_iff by blast+
  from v obtain sig' where q: "q \<le> of_nat (SignerCount ?sig)"
    and sig': "RestoreBLSPublicKey K ?sig vks = Ok sig'"
      "Valid C K sig' (rc_RoundCid (prf_RoundConfirmation p)) None = Ok True"
    unfolding verifyRoundConfirmation_True by blast
  note r = Restore_then_Valid [OF assms(1) sig']
  have "SignerCount ?sig \<le> length vks" using r by (simp add: SignerCount_eq) (metis length_filter_le)
  then have "unat q \<le> SignerCount ?sig" using q assms(2) by (simp add: word_le_nat_alt unat_of_nat)
  moreover have "\<exists>b \<in> set (cp_AddBlockRequests (prf_Checkpoint p)). Cast L b = hamt_Put L (prf_AddBlockRequest p)"
    using abr find_abr_True by metis
  ultimately show ?thesis using r rest by (auto simp: Let_def)
qed

text \<open>C14: and an honest proof is accepted. If at least a quorum of distinct members sign the CID of
  a round with \<^verbatim>\<open>BLSSign\<close> and the aggregate of their signatures is the confirmation's, and
  round, checkpoint, request, tip and object match, \<^verbatim>\<open>Verify\<close> returns true.\<close>

theorem Verify_complete:
  fixes K :: "('k, 'p) kyber" and keys :: "('k, 'p) SignKey list"
  assumes "bls_scheme K" "ss \<noteq> []" "length ss < 2 ^ 32"
    and "\<forall>key \<in> set keys. sk_verKey key = \<lparr>vk_value = bytes_or_nil (Point_MarshalBinary K (Point_Mul K (sk_private key))),
        vk_public = Point_Mul K (sk_private key)\<rparr>"
    and "list_all2 (\<lambda>s i. i < length keys \<and>
      BLSSign K (keys ! i) (rc_RoundCid (prf_RoundConfirmation p)) (int (length keys)) (int i) = Ok s) ss js"
    and "AggregateBLSSignatures K ss = Ok (rc_Signature (prf_RoundConfirmation p))"
    and "unat q \<le> card (set js)"
    and "sw_WrapRound L (prf_Round p) = Ok rn" "Cast L (rc_RoundCid (prf_RoundConfirmation p)) = Ok (node_Cid rn)"
    and "sw_WrapCheckpoint L (prf_Checkpoint p) = Ok cn" "Cast L (rnd_CheckpointCid (prf_Round p)) = Ok (node_Cid cn)"
    and "hamt_Put L (prf_AddBlockRequest p) = Ok ac" "\<forall>b \<in> set (cp_AddBlockRequests (prf_Checkpoint p)). is_ok (Cast L b)"
    and "\<exists>b \<in> set (cp_AddBlockRequests (prf_Checkpoint p)). Cast L b = Ok ac"
    and "Cast L (prf_Tip p) = Ok tc" "Cast L (abr_NewTip (prf_AddBlockRequest p)) = Ok tc"
    and "prf_ObjectId p = abr_ObjectId (prf_AddBlockRequest p)"
  shows "Verify C K L p q (map sk_verKey keys) = Ok True"
proof -
  let ?sig = "rc_Signature (prf_RoundConfirmation p)"
  have "bls_scheme.members K keys" using assms(4) unfolding bls_scheme.members_def [OF assms(1)] .
  from bls_scheme.members_verify [OF assms(1) this assms(2,3,5), of C None] assms(6) have
    sig: "RestoreBLSPublicKey K ?sig (map sk_verKey keys) = Ok ?sig"
      "Valid C K ?sig (rc_RoundCid (prf_RoundConfirmation p)) None = Ok True" "SignerCount ?sig = card (set js)"
    by auto
  have "card (set js) \<le> length ss"
    using card_length [of js] list_all2_lengthD [OF assms(5)] by simp
  then have "q \<le> of_nat (SignerCount ?sig)"
    using assms(3,7) sig(3) by (simp add: word_le_nat_alt unat_of_nat)
  with sig have "verifyRoundConfirmation C K (prf_RoundConfirmation p) q (map sk_verKey keys) = Ok True"
    unfolding verifyRoundConfirmation_True by blast
  moreover have "find_abr L ac (cp_AddBlockRequests (prf_Checkpoint p)) = Ok True"
    using assms(13,14) by (rule find_abr_complete)
  ultimately show ?thesis unfolding Verify_True_iff using assms(8-12,15-17) by blast
qed

section \<open>A concrete proof\<close>

definition enc_bytes :: "bytes \<Rightarrow> bytes" where
  "enc_bytes bs = concat (map (\<lambda>b. [1, b]) bs) @ [0]"

lemma enc_bytes_inj: "enc_bytes xs @ a = enc_bytes ys @ b \<longleftrightarrow> xs = ys \<and> a = b"
proof (induction xs arbitrary: ys)
  case Nil
  then show ?case by (cases ys) (auto simp: enc_bytes_def)
next
  case (Cons x xs)
  then show ?case by (cases ys) (auto simp: enc_bytes_def)
qed

definition enc_list :: "bytes list \<Rightarrow> bytes" where
  "enc_list bss = concat (map (\<lambda>b. 1 # enc_bytes b) bss) @ [0]"

lemma enc_list_inj: "enc_list xs = enc_list ys \<longleftrightarrow> xs = ys"
proof (induction xs arbitrary: ys)
  case Nil
  then show ?case by (cases ys) (auto simp: enc_list_def)
next
  case (Cons x xs)
  then show ?case by (cases ys) (auto simp: enc_list_def enc_bytes_inj)
qed

definition enc_abr :: "AddBlockRequest \<Rightarrow> bytes" where
  "enc_abr r = enc_bytes (abr_ObjectId r) @ enc_bytes (abr_PreviousTip r) @ enc_bytes (abr_NewTip r) @
     enc_bytes (abr_Payload r) @ uint64ToBytes (abr_Height r) @ enc_list (abr_State r)"

definition ref_proofs :: proof_lib where
  "ref_proofs = \<lparr>
     sw_WrapRound = (\<lambda>r. let e = enc_bytes (rnd_StateCid r) @ enc_bytes (rnd_CheckpointCid r) @ uint64ToBytes (rnd_Height r)
        in Ok \<lparr>node_Cid = Cid e, node_RawData = e\<rparr>),
     sw_WrapCheckpoint = (\<lambda>c. let e = enc_list (cp_AddBlockRequests c) in Ok \<lparr>node_Cid = Cid e, node_RawData = e\<rparr>),
     hamt_Put = (\<lambda>r. Ok (Cid (enc_abr r))),
     Cast = (\<lambda>b. Ok (Cid b))\<rparr>"

definition ref_keys :: "(u64, u64) SignKey list" where
  "ref_keys = [ref_signer 5, ref_signer 7, ref_signer 9]"

definition ref_abr :: AddBlockRequest where
  "ref_abr = \<lparr>abr_ObjectId = bytes_of ''did:tupelo:a'', abr_PreviousTip = [5], abr_Height = 1, abr_NewTip = [0],
     abr_Payload = uint64ToBytes 1, abr_State = [[5], [0]]\<rparr>"

text \<open>The state of the round: for the object of the request, its CID.\<close>

definition ref_state :: bytes where
  "ref_state = enc_list [bytes_of ''did:tupelo:a'', enc_abr ref_abr]"

definition ref_round :: Round where
  "ref_round = \<lparr>rnd_Height = 4, rnd_StateCid = ref_state, rnd_CheckpointCid = enc_list [enc_abr ref_abr]\<rparr>"

definition ref_cid :: bytes where
  "ref_cid = enc_bytes ref_state @ enc_bytes (enc_list [enc_abr ref_abr]) @ uint64ToBytes 4"

definition ref_signatures :: "Signature list" where
  "ref_signatures = map (\<lambda>(k, i). \<lparr>sig_Ownership = BLSToOwnership (sk_verKey (ref_signer k)),
     sig_Signers = [0, 0, 0][i := 1], sig_Signature = uint64ToBytes k @ ref_cid, sig_PreImage = []\<rparr>) [(5, 0), (9, 2)]"

definition ref_proof :: Proof where
  "ref_proof = \<lparr>prf_ObjectId = bytes_of ''did:tupelo:a'', prf_Tip = [0],
     prf_AddBlockRequest = ref_abr,
     prf_Checkpoint = \<lparr>cp_AddBlockRequests = [enc_abr ref_abr]\<rparr>, prf_Round = ref_round,
     prf_RoundConfirmation = \<lparr>rc_Height = 4, rc_RoundCid = ref_cid,
        rc_Signature = (case AggregateBLSSignatures ref_kyber ref_signatures of Ok s \<Rightarrow> s | _ \<Rightarrow> counted [])\<rparr>\<rparr>"

lemma ref_keys_members:
  "\<forall>key \<in> set ref_keys. sk_verKey key =
     \<lparr>vk_value = bytes_or_nil (Point_MarshalBinary ref_kyber (Point_Mul ref_kyber (sk_private key))),
      vk_public = Point_Mul ref_kyber (sk_private key)\<rparr>"
  by (simp add: ref_keys_def ref_signer_def bytes_or_nil_def)

lemma ref_signatures_signed:
  "list_all2 (\<lambda>s i. i < length ref_keys \<and>
     BLSSign ref_kyber (ref_keys ! i) ref_cid (int (length ref_keys)) (int i) = Ok s) ref_signatures [0, 2]"
  by (simp add: ref_keys_def ref_signatures_def BLSSign_def SignKey_VerKey_def SignKey_Sign_def ref_signer_def
      numeral_3_eq_3 numeral_2_eq_2)

lemma ref_signature:
  defines "agg \<equiv> rc_Signature (prf_RoundConfirmation ref_proof)"
  shows "AggregateBLSSignatures ref_kyber ref_signatures = Ok agg"
    "RestoreBLSPublicKey ref_kyber agg (map sk_verKey ref_keys) = Ok agg"
    "Valid ref_crypto ref_kyber agg ref_cid None = Ok True" "SignerCount agg = 2"
proof -
  have "ref_bls.members ref_keys" using ref_keys_members unfolding ref_bls.members_def .
  moreover have "ref_signatures \<noteq> []" "length ref_signatures < 2 ^ 32" by (simp_all add: ref_signatures_def)
  ultimately obtain a where a: "AggregateBLSSignatures ref_kyber ref_signatures = Ok a"
    "RestoreBLSPublicKey ref_kyber a (map sk_verKey ref_keys) = Ok a"
    "Valid ref_crypto ref_kyber a ref_cid None = Ok True" "SignerCount a = card (set [0, 2 :: nat])"
    using ref_bls.members_verify [OF _ _ _ ref_signatures_signed, of ref_crypto None] by blast
  then have "agg = a" by (simp add: agg_def ref_proof_def)
  with a show "AggregateBLSSignatures ref_kyber ref_signatures = Ok agg"
    "RestoreBLSPublicKey ref_kyber agg (map sk_verKey ref_keys) = Ok agg"
    "Valid ref_crypto ref_kyber agg ref_cid None = Ok True" "SignerCount agg = 2" by simp_all
qed

lemma ref_confirmation:
  "verifyRoundConfirmation ref_crypto ref_kyber (prf_RoundConfirmation ref_proof) 2 (map sk_verKey ref_keys) = Ok True"
proof -
  have "rc_RoundCid (prf_RoundConfirmation ref_proof) = ref_cid" by (simp add: ref_proof_def)
  then show ?thesis unfolding verifyRoundConfirmation_True using ref_signature by simp
qed

lemma ref_links:
  "sw_WrapRound ref_proofs (prf_Round ref_proof) = Ok \<lparr>node_Cid = Cid ref_cid, node_RawData = ref_cid\<rparr>"
  "sw_WrapCheckpoint ref_proofs (prf_Checkpoint ref_proof) =
     Ok \<lparr>node_Cid = Cid (enc_list [enc_abr ref_abr]), node_RawData = enc_list [enc_abr ref_abr]\<rparr>"
  "Cast ref_proofs b = Ok (Cid b)"
  "hamt_Put ref_proofs (prf_AddBlockRequest ref_proof) = Ok (Cid (enc_abr ref_abr))"
  "rc_RoundCid (prf_RoundConfirmation ref_proof) = ref_cid"
  "rnd_CheckpointCid (prf_Round ref_proof) = enc_list [enc_abr ref_abr]"
  "cp_AddBlockRequests (prf_Checkpoint ref_proof) = [enc_abr ref_abr]" "prf_Tip ref_proof = [0]"
  "abr_NewTip (prf_AddBlockRequest ref_proof) = [0]"
  "prf_ObjectId ref_proof = abr_ObjectId (prf_AddBlockRequest ref_proof)"
  by (simp_all add: ref_proofs_def ref_proof_def ref_round_def ref_cid_def Let_def) (simp_all add: ref_abr_def)

theorem Verify_complete_witness:
  "Verify ref_crypto ref_kyber ref_proofs ref_proof 2 (map sk_verKey ref_keys) = Ok True"
proof (rule Verify_complete [OF ref_bls.bls_scheme_axioms _ _ ref_keys_members _ _ _
      ref_links(1) _ ref_links(2) _ ref_links(4) _ _ _ _ ref_links(10), where tc = "Cid [0]"])
  show "list_all2 (\<lambda>s i. i < length ref_keys \<and> BLSSign ref_kyber (ref_keys ! i)
      (rc_RoundCid (prf_RoundConfirmation ref_proof)) (int (length ref_keys)) (int i) = Ok s) ref_signatures [0, 2]"
    using ref_signatures_signed by (simp add: ref_links)
  show "AggregateBLSSignatures ref_kyber ref_signatures = Ok (rc_Signature (prf_RoundConfirmation ref_proof))"
    by (rule ref_signature)
qed (simp_all add: ref_signatures_def ref_links)

lemma ref_proof_verifies: "Verify ref_crypto ref_kyber ref_proofs ref_proof 2 (map sk_verKey ref_keys) = Ok True"
  unfolding Verify_True_iff using ref_confirmation by (simp add: ref_links)

theorem Verify_sound_witness:
  "2 \<le> SignerCount (rc_Signature (prf_RoundConfirmation ref_proof)) \<and>
   length (sig_Signers (rc_Signature (prf_RoundConfirmation ref_proof))) = 3"
proof -
  have "length (map sk_verKey ref_keys) < 2 ^ 64" by (simp add: ref_keys_def)
  note Verify_sound [OF ref_bls.bls_scheme_axioms this ref_proof_verifies]
  then show ?thesis by (simp add: Let_def ref_keys_def)
qed

end
