(* ===== verification/Rounds.thy ===== *)
theory Rounds
  imports Proofs
begin

text \<open>
  \<^verbatim>\<open>src/gossip/types/rounds.go\<close>, \<^verbatim>\<open>checkpoint.go\<close> and \<^verbatim>\<open>src/gossip/hamtwrapper/hamtwrapper.go\<close>: the
  wrappers of rounds, checkpoints and round confirmations, which fetch what they link to
  from a store and keep it. The store, its network and the encodings are parameters; a
  wrapper is a state, and an operation that fills a cache returns the changed wrapper.
\<close>

section \<open>The libraries\<close>

text \<open>
  \<^verbatim>\<open>'st\<close> is a store handle (\<^verbatim>\<open>nodestore.DagStore\<close>), \<^verbatim>\<open>'w\<close> the world behind the handles: what the
  stores hold and the network answers at the time of a call. A hamt store reads and adds
  blocks through the two functions it is given.
\<close>

record 'w CborIpldStore =
  hs_GetBlock :: "cid \<Rightarrow> 'w \<Rightarrow> node res"
  hs_AddBlock :: "node \<Rightarrow> ('w, unit) eff"

record ('st, 'h, 'w) round_lib = proof_lib +
  sw_WrapConfirmation :: "RoundConfirmation \<Rightarrow> node res"
  store_Get :: "'st \<Rightarrow> cid \<Rightarrow> 'w \<Rightarrow> node res"
  store_Add :: "'st \<Rightarrow> node \<Rightarrow> ('w, unit) eff"
  format_Decode :: "node \<Rightarrow> node res"
  cis_Put :: "'w CborIpldStore \<Rightarrow> AddBlockRequest \<Rightarrow> ('w, cid) eff"
  hamt_LoadNode :: "'w CborIpldStore \<Rightarrow> cid \<Rightarrow> 'w \<Rightarrow> 'h res"
  hamt_Find :: "'h \<Rightarrow> string \<Rightarrow> 'w \<Rightarrow> cid res"
  decode_Round :: "bytes \<Rightarrow> Round res"
  decode_Checkpoint :: "bytes \<Rightarrow> Checkpoint res"
  decode_AddBlockRequest :: "bytes \<Rightarrow> AddBlockRequest res"
  decode_RoundConfirmation :: "bytes \<Rightarrow> RoundConfirmation res"

section \<open>The hamt store over a DAG store\<close>

record 'st dsWrapper =
  dw_store :: 'st

definition NewStore :: "'st \<Rightarrow> 'st dsWrapper" where
  "NewStore underlying = \<lparr>dw_store = underlying\<rparr>"

definition GetBlock :: "('st, 'h, 'w) round_lib \<Rightarrow> 'st dsWrapper \<Rightarrow> cid \<Rightarrow> 'w \<Rightarrow> node res" where
  "GetBlock L dw c w = store_Get L (dw_store dw) c w"

definition AddBlock :: "('st, 'h, 'w) round_lib \<Rightarrow> 'st dsWrapper \<Rightarrow> node \<Rightarrow> ('w, unit) eff" where
  "AddBlock L dw blk =
     ebind (elift (wrapf ''error decoding block: %w'' (format_Decode L blk))) (\<lambda>nd.
     store_Add L (dw_store dw) nd)"

definition DagStoreToCborIpld :: "('st, 'h, 'w) round_lib \<Rightarrow> 'st \<Rightarrow> 'w CborIpldStore" where
  "DagStoreToCborIpld L store =
     (let dw = NewStore store in \<lparr>hs_GetBlock = GetBlock L dw, hs_AddBlock = AddBlock L dw\<rparr>)"

section \<open>Checkpoints\<close>

text \<open>\<^verbatim>\<open>sw.WrapObject(x)\<close> is the nil node when it fails; \<^verbatim>\<open>Cid\<close> and \<^verbatim>\<open>RawData\<close> of it panic.\<close>

definition or_nil :: "'a res \<Rightarrow> 'a option" where
  "or_nil r = (case r of Ok x \<Rightarrow> Some x | _ \<Rightarrow> None)"

definition deref :: "'a option \<Rightarrow> 'a res" where
  "deref p = (case p of Some x \<Rightarrow> Ok x | None \<Rightarrow> Panic ''invalid memory address or nil pointer dereference'')"

record CheckpointWrapper =
  cw_value :: Checkpoint
  cw_wrapped :: "node option"

definition WrapCheckpoint :: "('st, 'h, 'w) round_lib \<Rightarrow> Checkpoint \<Rightarrow> CheckpointWrapper" where
  "WrapCheckpoint L c = \<lparr>cw_value = c, cw_wrapped = or_nil (sw_WrapCheckpoint L c)\<rparr>"

definition CheckpointWrapper_Wrapped :: "CheckpointWrapper \<Rightarrow> node option" where
  "CheckpointWrapper_Wrapped c = cw_wrapped c"

definition CheckpointWrapper_CID :: "CheckpointWrapper \<Rightarrow> cid res" where
  "CheckpointWrapper_CID c = rbind (deref (CheckpointWrapper_Wrapped c)) (\<lambda>n. Ok (node_Cid n))"

definition CheckpointWrapper_Value :: "CheckpointWrapper \<Rightarrow> Checkpoint" where
  "CheckpointWrapper_Value c = cw_value c"

definition CheckpointWrapper_Length :: "CheckpointWrapper \<Rightarrow> nat" where
  "CheckpointWrapper_Length c = length (cp_AddBlockRequests (cw_value c))"

definition CheckpointWrapper_AddBlockRequests :: "CheckpointWrapper \<Rightarrow> bytes list" where
  "CheckpointWrapper_AddBlockRequests c = cp_AddBlockRequests (cw_value c)"

section \<open>Rounds\<close>

record ('st, 'h) RoundWrapper =
  rw_round :: Round
  rw_wrapped :: "node option"
  rw_checkpoint :: "CheckpointWrapper option"
  rw_hamtNode :: "'h option"
  rw_store :: "'st option"

definition WrapRound :: "('st, 'h, 'w) round_lib \<Rightarrow> Round \<Rightarrow> ('st, 'h) RoundWrapper" where
  "WrapRound L round = \<lparr>rw_round = round, rw_wrapped = or_nil (sw_WrapRound L round),
     rw_checkpoint = None, rw_hamtNode = None, rw_store = None\<rparr>"

definition RoundWrapper_Value :: "('st, 'h) RoundWrapper \<Rightarrow> Round" where
  "RoundWrapper_Value r = rw_round r"

definition RoundWrapper_Wrapped :: "('st, 'h) RoundWrapper \<Rightarrow> node option" where
  "RoundWrapper_Wrapped r = rw_wrapped r"

definition RoundWrapper_CID :: "('st, 'h) RoundWrapper \<Rightarrow> cid res" where
  "RoundWrapper_CID r = rbind (deref (RoundWrapper_Wrapped r)) (\<lambda>n. Ok (node_Cid n))"

definition RoundWrapper_Height :: "('st, 'h) RoundWrapper \<Rightarrow> u64" where
  "RoundWrapper_Height r = rnd_Height (rw_round r)"

definition RoundWrapper_SetStore :: "'st \<Rightarrow> ('st, 'h) RoundWrapper \<Rightarrow> ('st, 'h) RoundWrapper" where
  "RoundWrapper_SetStore store r = r\<lparr>rw_store := Some store\<rparr>"

definition missing_round_store :: goerr where
  "missing_round_store = Errorf ''missing a store on the completed round, use SetStore'' []"

definition FetchCheckpoint ::
  "('st, 'h, 'w) round_lib \<Rightarrow> 'w \<Rightarrow> (('st, 'h) RoundWrapper, CheckpointWrapper) eff" where
  "FetchCheckpoint L w r =
     (case rw_checkpoint r of
        Some checkpoint \<Rightarrow> (Ok checkpoint, r)
      | None \<Rightarrow> (case rw_store r of
          None \<Rightarrow> (Fail missing_round_store, r)
        | Some store \<Rightarrow>
            (case
              rbind (wrapf ''error casting checkpoint cid: %v'' (Cast L (rnd_CheckpointCid (rw_round r)))) (\<lambda>checkpointCid.
              rbind (wrapf ''error fetching checkpoint %w'' (store_Get L store checkpointCid w)) (\<lambda>checkpointNode.
              wrapf ''error decoding %w'' (decode_Checkpoint L (node_RawData checkpointNode))))
             of
              Ok checkpoint \<Rightarrow>
                let wrapper = WrapCheckpoint L checkpoint in (Ok wrapper, r\<lparr>rw_checkpoint := Some wrapper\<rparr>)
            | Fail e \<Rightarrow> (Fail e, r)
            | Panic p \<Rightarrow> (Panic p, r))))"

definition FetchHamt :: "('st, 'h, 'w) round_lib \<Rightarrow> 'w \<Rightarrow> (('st, 'h) RoundWrapper, 'h) eff" where
  "FetchHamt L w r =
     (case rw_hamtNode r of
        Some n \<Rightarrow> (Ok n, r)
      | None \<Rightarrow> (case rw_store r of
          None \<Rightarrow> (Fail missing_round_store, r)
        | Some store \<Rightarrow>
            (case
              let hamtStore = DagStoreToCborIpld L store in
              rbind (wrapf ''error casting state cid: %v'' (Cast L (rnd_StateCid (rw_round r)))) (\<lambda>stateCid.
              wrapf ''error loading hamt %w'' (hamt_LoadNode L hamtStore stateCid w))
             of
              Ok n \<Rightarrow> (Ok n, r\<lparr>rw_hamtNode := Some n\<rparr>)
            | Fail e \<Rightarrow> (Fail e, r)
            | Panic p \<Rightarrow> (Panic p, r))))"

section \<open>Round confirmations\<close>

record ('st, 'h) RoundConfirmationWrapper =
  rcw_value :: RoundConfirmation
  rcw_wrapped :: "node option"
  rcw_completedRound :: "('st, 'h) RoundWrapper option"
  rcw_store :: "'st option"

definition WrapRoundConfirmation ::
  "('st, 'h, 'w) round_lib \<Rightarrow> RoundConfirmation \<Rightarrow> ('st, 'h) RoundConfirmationWrapper" where
  "WrapRoundConfirmation L conf = \<lparr>rcw_value = conf, rcw_wrapped = or_nil (sw_WrapConfirmation L conf),
     rcw_completedRound = None, rcw_store = None\<rparr>"

definition RoundConfirmationWrapper_Value :: "('st, 'h) RoundConfirmationWrapper \<Rightarrow> RoundConfirmation" where
  "RoundConfirmationWrapper_Value rc = rcw_value rc"

definition RoundConfirmationWrapper_SetStore ::
  "'st \<Rightarrow> ('st, 'h) RoundConfirmationWrapper \<Rightarrow> ('st, 'h) RoundConfirmationWrapper" where
  "RoundConfirmationWrapper_SetStore store rc = rc\<lparr>rcw_store := Some store\<rparr>"

definition RoundConfirmationWrapper_Height :: "('st, 'h) RoundConfirmationWrapper \<Rightarrow> u64" where
  "RoundConfirmationWrapper_Height rc = rc_Height (rcw_value rc)"

definition FetchCompletedRound ::
  "('st, 'h, 'w) round_lib \<Rightarrow> 'w \<Rightarrow> (('st, 'h) RoundConfirmationWrapper, ('st, 'h) RoundWrapper) eff" where
  "FetchCompletedRound L w rc =
     (case rcw_completedRound rc of
        Some completedRound \<Rightarrow> (Ok completedRound, rc)
      | None \<Rightarrow> (case rcw_store rc of
          None \<Rightarrow> (Fail (Errorf ''missing a store on the round confirmation, use SetStore'' []), rc)
        | Some store \<Rightarrow>
            (case
              rbind (wrapf ''error casting round cid: %v'' (Cast L (rc_RoundCid (rcw_value rc)))) (\<lambda>roundCid.
              rbind (wrapf ''error getting node: %w'' (store_Get L store roundCid w)) (\<lambda>roundNode.
              wrapf ''error decoding: %w'' (decode_Round L (node_RawData roundNode))))
             of
              Ok completedRound \<Rightarrow>
                let wrapper = RoundWrapper_SetStore store (WrapRound L completedRound)
                in (Ok wrapper, rc\<lparr>rcw_completedRound := Some wrapper\<rparr>)
            | Fail e \<Rightarrow> (Fail e, rc)
            | Panic p \<Rightarrow> (Panic p, rc))))"

text \<open>
  \<^verbatim>\<open>Wrapped\<close> encodes the wrapper itself, not its value, when there is no node yet; that
  encoding is the argument.
\<close>

definition RoundConfirmationWrapper_Wrapped ::
  "(('st, 'h) RoundConfirmationWrapper \<Rightarrow> node res) \<Rightarrow> (('st, 'h) RoundConfirmationWrapper, node option) eff" where
  "RoundConfirmationWrapper_Wrapped WrapObject rc =
     (case rcw_wrapped rc of
        Some n \<Rightarrow> (Ok (Some n), rc)
      | None \<Rightarrow> let n = or_nil (WrapObject rc) in (Ok n, rc\<lparr>rcw_wrapped := n\<rparr>))"

definition RoundConfirmationWrapper_Data ::
  "(('st, 'h) RoundConfirmationWrapper \<Rightarrow> node res) \<Rightarrow> (('st, 'h) RoundConfirmationWrapper, bytes) eff" where
  "RoundConfirmationWrapper_Data WrapObject =
     ebind (RoundConfirmationWrapper_Wrapped WrapObject) (\<lambda>p.
     ebind (elift (deref p)) (\<lambda>n. eret (node_RawData n)))"

text \<open>
  The completed round of a confirmation is shared: an operation on the round that
  \<^verbatim>\<open>FetchCompletedRound\<close> returned also fills the caches seen through the confirmation.
\<close>

definition on_completedRound ::
  "(('st, 'h) RoundWrapper, 'a) eff \<Rightarrow> (('st, 'h) RoundConfirmationWrapper, 'a) eff" where
  "on_completedRound m rc =
     (case rcw_completedRound rc of
        None \<Rightarrow> (Panic ''invalid memory address or nil pointer dereference'', rc)
      | Some r \<Rightarrow> (case m r of (x, r') \<Rightarrow> (x, rc\<lparr>rcw_completedRound := Some r'\<rparr>)))"

section \<open>What the links are worth\<close>

text \<open>
  What the sources rely on: a CID is the bytes it is cast from; a store answers a CID with
  a node that was made by wrapping an object, so that wrapping what it decodes to gives
  that CID again; putting a request into a store yields the request's CID.
\<close>

locale round_store =
  fixes L :: "('st, 'h, 'w) round_lib"
  assumes cast_exact: "Cast L b = Ok c \<Longrightarrow> cid_Bytes c = b"
    and stored_round: "store_Get L st c w = Ok n \<Longrightarrow> decode_Round L (node_RawData n) = Ok r \<Longrightarrow>
      \<exists>n'. sw_WrapRound L r = Ok n' \<and> node_Cid n' = c"
    and stored_checkpoint: "store_Get L st c w = Ok n \<Longrightarrow> decode_Checkpoint L (node_RawData n) = Ok cp \<Longrightarrow>
      \<exists>n'. sw_WrapCheckpoint L cp = Ok n' \<and> node_Cid n' = c"
    and put_cid: "cis_Put L hs abr w = (Ok c, w') \<Longrightarrow> hamt_Put L abr = Ok c"

definition links_checkpoint :: "('st, 'h, 'w) round_lib \<Rightarrow> Round \<Rightarrow> Checkpoint \<Rightarrow> bool" where
  "links_checkpoint L r cp \<longleftrightarrow>
     (\<exists>n. sw_WrapCheckpoint L cp = Ok n \<and> Cast L (rnd_CheckpointCid r) = Ok (node_Cid n))"

definition links_round :: "('st, 'h, 'w) round_lib \<Rightarrow> RoundConfirmation \<Rightarrow> Round \<Rightarrow> bool" where
  "links_round L conf r \<longleftrightarrow> (\<exists>n. sw_WrapRound L r = Ok n \<and> Cast L (rc_RoundCid conf) = Ok (node_Cid n))"

text \<open>Everything a confirmation's wrapper has fetched is what the CIDs name.\<close>

definition linked :: "('st, 'h, 'w) round_lib \<Rightarrow> ('st, 'h) RoundConfirmationWrapper \<Rightarrow> bool" where
  "linked L rc \<longleftrightarrow> (\<forall>r. rcw_completedRound rc = Some r \<longrightarrow> links_round L (rcw_value rc) (rw_round r) \<and>
     (\<forall>cp. rw_checkpoint r = Some cp \<longrightarrow> links_checkpoint L (rw_round r) (cw_value cp)))"

lemma linked_WrapRoundConfirmation [simp]:
  "linked L (RoundConfirmationWrapper_SetStore st (WrapRoundConfirmation L conf))"
  by (simp add: linked_def RoundConfirmationWrapper_SetStore_def WrapRoundConfirmation_def)

lemmas fetch_defs = FetchCompletedRound_def FetchCheckpoint_def FetchHamt_def

lemma FetchCompletedRound_Ok:
  assumes "FetchCompletedRound L w rc = (Ok r, rc')"
  shows "rcw_completedRound rc' = Some r \<and> rcw_value rc' = rcw_value rc \<and> FetchCompletedRound L w' rc' = (Ok r, rc')"
  using assms by (auto simp: FetchCompletedRound_def Let_def split: option.splits res.splits)

lemma FetchCompletedRound_keeps: "rcw_value (snd (FetchCompletedRound L w rc)) = rcw_value rc"
  by (auto simp: FetchCompletedRound_def Let_def split: option.splits res.splits)

lemma FetchCheckpoint_Ok:
  assumes "FetchCheckpoint L w r = (Ok cp, r')"
  shows "rw_checkpoint r' = Some cp \<and> rw_round r' = rw_round r \<and> FetchCheckpoint L w' r' = (Ok cp, r')"
  using assms by (auto simp: FetchCheckpoint_def Let_def split: option.splits res.splits)

lemma FetchCheckpoint_keeps: "rw_round (snd (FetchCheckpoint L w r)) = rw_round r"
  by (auto simp: FetchCheckpoint_def Let_def split: option.splits res.splits)

lemma FetchHamt_keeps:
  "rw_round (snd (FetchHamt L w r)) = rw_round r" "rw_checkpoint (snd (FetchHamt L w r)) = rw_checkpoint r"
  by (auto simp: FetchHamt_def Let_def split: option.splits res.splits)

lemma on_completedRound_keeps:
  "rcw_value (snd (on_completedRound m rc)) = rcw_value rc"
  by (auto simp: on_completedRound_def split: option.splits prod.splits)

context round_store
begin

lemma linked_FetchCompletedRound:
  assumes "linked L rc"
  shows "linked L (snd (FetchCompletedRound L w rc))"
proof (cases "rcw_completedRound rc")
  case None
  then show ?thesis
    using stored_round
    by (fastforce simp: FetchCompletedRound_def linked_def links_round_def WrapRound_def RoundWrapper_SetStore_def
        Let_def rbind_Ok_iff split: option.splits res.splits)
next
  case (Some r)
  then show ?thesis using assms by (simp add: FetchCompletedRound_def)
qed

lemma FetchCheckpoint_links:
  assumes "\<forall>cp. rw_checkpoint r = Some cp \<longrightarrow> links_checkpoint L (rw_round r) (cw_value cp)"
    and "rw_checkpoint (snd (FetchCheckpoint L w r)) = Some cp"
  shows "links_checkpoint L (rw_round r) (cw_value cp)"
  using assms stored_checkpoint
  by (fastforce simp: FetchCheckpoint_def links_checkpoint_def WrapCheckpoint_def Let_def rbind_Ok_iff
      split: option.splits res.splits)

lemma linked_FetchCheckpoint:
  assumes "linked L rc"
  shows "linked L (snd (on_completedRound (FetchCheckpoint L w) rc))"
proof (cases "rcw_completedRound rc")
  case None
  then show ?thesis using assms by (simp add: on_completedRound_def)
next
  case (Some r)
  then have r: "links_round L (rcw_value rc) (rw_round r)"
    "\<forall>cp. rw_checkpoint r = Some cp \<longrightarrow> links_checkpoint L (rw_round r) (cw_value cp)"
    using assms by (simp_all add: linked_def)
  show ?thesis
    using Some r(1) FetchCheckpoint_links [OF r(2)]
    by (simp add: on_completedRound_def linked_def case_prod_beta FetchCheckpoint_keeps)
qed

lemma linked_FetchHamt:
  assumes "linked L rc"
  shows "linked L (snd (on_completedRound (FetchHamt L w) rc))"
  using assms by (auto simp: on_completedRound_def linked_def case_prod_beta FetchHamt_keeps split: option.splits)

end

end
