(* ===== verification/Round_Subscriber.thy ===== *)
theory Round_Subscriber
  imports Rounds
begin

text \<open>
  \<^verbatim>\<open>src/gossip/client/roundsubscriber.go\<close>: the part of a client that follows the rounds. It
  collects round confirmations per height and round, aggregates their signatures, and
  when a quorum has signed makes the round current, drops what is in flight at or below
  its height, fetches the round and its checkpoint, and publishes what was accepted.
  The pubsub network and the event stream are libraries: a message is its data, and
  the stream is the list of the events published on it; a subscription is the closure
  that the stream calls with each of them.
\<close>

section \<open>Conflict sets\<close>

type_synonym roundConflictSet = "cid \<rightharpoonup> RoundConfirmation"

type_synonym conflictSetHolder = "u64 \<rightharpoonup> roundConflictSet"

definition isQuorum :: "('e, 'k, 'p, 'cfg) NotaryGroup \<Rightarrow> Signature \<Rightarrow> bool" where
  "isQuorum ng sig \<longleftrightarrow> (of_nat (SignerCount sig) :: u64) \<ge> QuorumCount ng"

definition rcs_add ::
  "('k, 'p) kyber \<Rightarrow> 'z proof_lib_scheme \<Rightarrow> ('e, 'k, 'p, 'cfg) NotaryGroup \<Rightarrow> RoundConfirmation
     \<Rightarrow> (roundConflictSet, bool \<times> RoundConfirmation) eff" where
  "rcs_add K L ng confirmation rcs =
     (case wrapf ''error casting round cid: %w'' (Cast L (rc_RoundCid confirmation)) of
        Fail e \<Rightarrow> (Fail e, rcs)
      | Panic p \<Rightarrow> (Panic p, rcs)
      | Ok c \<Rightarrow>
          (case rcs c of
             None \<Rightarrow> (Ok (isQuorum ng (rc_Signature confirmation), confirmation), rcs(c \<mapsto> confirmation))
           | Some existing \<Rightarrow>
               (case AggregateBLSSignatures K [rc_Signature existing, rc_Signature confirmation] of
                  Fail e \<Rightarrow> (Fail e, rcs)
                | Panic p \<Rightarrow> (Panic p, rcs)
                | Ok newSig \<Rightarrow>
                    let existing = existing\<lparr>rc_Signature := newSig\<rparr>
                    in (Ok (isQuorum ng (rc_Signature existing), existing), rcs(c \<mapsto> existing)))))"

section \<open>The subscriber\<close>

record ('st, 'h) ValidationNotification =
  vn_Accepted :: "cid list"
  vn_Checkpoint :: CheckpointWrapper
  vn_RoundConfirmation :: "('st, 'h) RoundConfirmationWrapper"
  vn_CompletedRound :: "('st, 'h) RoundWrapper"

fun includes_loop :: "cid \<Rightarrow> cid list \<Rightarrow> bool" where
  "includes_loop c [] = False"
| "includes_loop c (abrCid # accepted) = (if abrCid = c then True else includes_loop c accepted)"

definition vn_includes :: "cid \<Rightarrow> ('st, 'h) ValidationNotification \<Rightarrow> bool" where
  "vn_includes c vn = includes_loop c (vn_Accepted vn)"

record ('e, 'k, 'p, 'cfg, 'st, 'h, 'w) roundSubscriber =
  rs_dagStore :: 'st
  rs_hamtStore :: "'w CborIpldStore"
  rs_group :: "('e, 'k, 'p, 'cfg) NotaryGroup"
  rs_inflight :: conflictSetHolder
  rs_current :: "('st, 'h) RoundConfirmationWrapper option"
  rs_stream :: "('st, 'h) ValidationNotification list"

definition newRoundSubscriber ::
  "('st, 'h, 'w) round_lib \<Rightarrow> ('e, 'k, 'p, 'cfg) NotaryGroup \<Rightarrow> 'st \<Rightarrow>
     ('e, 'k, 'p, 'cfg, 'st, 'h, 'w) roundSubscriber" where
  "newRoundSubscriber L ng store =
     \<lparr>rs_dagStore = store, rs_hamtStore = DagStoreToCborIpld L store, rs_group = ng,
      rs_inflight = Map.empty, rs_current = None, rs_stream = []\<rparr>"

definition Current ::
  "('e, 'k, 'p, 'cfg, 'st, 'h, 'w) roundSubscriber \<Rightarrow> ('st, 'h) RoundConfirmationWrapper option" where
  "Current rs = rs_current rs"

definition pubsubMessageToRoundConfirmation ::
  "('st, 'h, 'w) round_lib \<Rightarrow> bytes \<Rightarrow> RoundConfirmation res" where
  "pubsubMessageToRoundConfirmation L bits = decode_RoundConfirmation L bits"

fun verKeys_loop :: "('e, 'k, 'p) Signer option list \<Rightarrow> 'p VerKey list res" where
  "verKeys_loop [] = Ok []"
| "verKeys_loop (s # signers) =
     rbind (deref s) (\<lambda>s. rbind (verKeys_loop signers) (\<lambda>keys. Ok (sg_VerKey s # keys)))"

definition verKeys :: "('e, 'k, 'p, 'cfg) NotaryGroup \<Rightarrow> 'p VerKey list res" where
  "verKeys ng = verKeys_loop (AllSigners ng)"

text \<open>The loop that casts the CIDs of the checkpoint's requests.\<close>

fun cast_accepted :: "'z proof_lib_scheme \<Rightarrow> bytes list \<Rightarrow> cid list res" where
  "cast_accepted L [] = Ok []"
| "cast_accepted L (cidBytes # rest) =
     rbind (wrapf ''error casting cid: %w'' (Cast L cidBytes)) (\<lambda>abrCid.
     rbind (cast_accepted L rest) (\<lambda>accepted. Ok (abrCid # accepted)))"

text \<open>An operation on the wrapper that \<^verbatim>\<open>rs.current\<close> points to.\<close>

definition on_current ::
  "(('st, 'h) RoundConfirmationWrapper, 'a) eff \<Rightarrow>
     (('e, 'k, 'p, 'cfg, 'st, 'h, 'w) roundSubscriber, 'a) eff" where
  "on_current m rs =
     (case rs_current rs of
        None \<Rightarrow> (Panic ''invalid memory address or nil pointer dereference'', rs)
      | Some rc \<Rightarrow> (case m rc of (x, rc') \<Rightarrow> (x, rs\<lparr>rs_current := Some rc'\<rparr>)))"

definition drop_inflight :: "u64 \<Rightarrow> conflictSetHolder \<Rightarrow> conflictSetHolder" where
  "drop_inflight height inflight = (\<lambda>key. if key \<le> height then None else inflight key)"

definition handleQuorum ::
  "('st, 'h, 'w) round_lib \<Rightarrow> 'w \<Rightarrow> RoundConfirmation \<Rightarrow>
     (('e, 'k, 'p, 'cfg, 'st, 'h, 'w) roundSubscriber, unit) eff" where
  "handleQuorum L w confirmation rs =
     (let wrappedConfirmation = RoundConfirmationWrapper_SetStore (rs_dagStore rs) (WrapRoundConfirmation L confirmation);
          rs = rs\<lparr>rs_current := Some wrappedConfirmation,
                  rs_inflight := drop_inflight (rc_Height confirmation) (rs_inflight rs)\<rparr>
      in ebind (ewrapf ''error fetching completed round: %w'' (on_current (FetchCompletedRound L w))) (\<lambda>_.
         ebind (ewrapf ''error fetching checkpoint: %w'' (on_current (on_completedRound (FetchCheckpoint L w))))
           (\<lambda>wrappedCheckpoint.
         ebind (elift (cast_accepted L (CheckpointWrapper_AddBlockRequests wrappedCheckpoint))) (\<lambda>accepted.
         ebind (on_current (\<lambda>rc. (Ok rc, rc))) (\<lambda>wrappedConfirmation.
         ebind (on_current (on_completedRound (\<lambda>r. (Ok r, r)))) (\<lambda>completedRound.
         (\<lambda>rs. (Ok (), rs\<lparr>rs_stream := rs_stream rs @
            [\<lparr>vn_Accepted = accepted, vn_Checkpoint = wrappedCheckpoint,
              vn_RoundConfirmation = wrappedConfirmation, vn_CompletedRound = completedRound\<rparr>]\<rparr>)))))))
         rs)"

definition stale_height :: goerr where
  "stale_height = Errorf ''confirmation of height %d is less than current %d'' []"

text \<open>\<^verbatim>\<open>if !verified || err != nil\<close>: both cases wrap \<^verbatim>\<open>err\<close>, which may be nil.\<close>

definition signature_invalid :: "bool res \<Rightarrow> unit res" where
  "signature_invalid r = (case r of
     Ok True \<Rightarrow> Ok ()
   | Ok False \<Rightarrow> Fail (Errorf ''signature invalid with error: %w'' [])
   | Fail e \<Rightarrow> Fail (Errorf ''signature invalid with error: %w'' [e])
   | Panic p \<Rightarrow> Panic p)"

text \<open>
  The two checks before the lock is taken, then the update under the lock: an error of
  \<^verbatim>\<open>add\<close> leaves the sets in flight as they were.
\<close>

definition check_confirmation ::
  "('e, 'd, 'sc) crypto_lib \<Rightarrow> ('k, 'p) kyber \<Rightarrow> ('st, 'h, 'w) round_lib \<Rightarrow> bytes \<Rightarrow>
     ('e, 'k, 'p, 'cfg, 'st, 'h, 'w) roundSubscriber \<Rightarrow> RoundConfirmation res" where
  "check_confirmation C K L bits rs =
     rbind (wrapf ''error unmarshaling: %w'' (pubsubMessageToRoundConfirmation L bits)) (\<lambda>confirmation.
     if (case rs_current rs of None \<Rightarrow> False
         | Some current \<Rightarrow> rc_Height confirmation \<le> RoundConfirmationWrapper_Height current)
     then Fail stale_height
     else
     rbind (verKeys (rs_group rs)) (\<lambda>keys.
     rbind (wrapf ''error restoring BLS key: %w'' (RestoreBLSPublicKey K (rc_Signature confirmation) keys)) (\<lambda>sig.
     rbind (signature_invalid (Valid C K sig (rc_RoundCid confirmation) None)) (\<lambda>_.
     Ok (confirmation\<lparr>rc_Signature := sig\<rparr>)))))"

definition handleMessage ::
  "('e, 'd, 'sc) crypto_lib \<Rightarrow> ('k, 'p) kyber \<Rightarrow> ('st, 'h, 'w) round_lib \<Rightarrow> 'w \<Rightarrow> bytes \<Rightarrow>
     (('e, 'k, 'p, 'cfg, 'st, 'h, 'w) roundSubscriber, unit) eff" where
  "handleMessage C K L w bits =
     ebind (eread (check_confirmation C K L bits)) (\<lambda>confirmation rs.
       let conflictSet = (case rs_inflight rs (rc_Height confirmation) of None \<Rightarrow> Map.empty | Some cs \<Rightarrow> cs) in
       case rcs_add K L (rs_group rs) confirmation conflictSet of
         (Fail e, _) \<Rightarrow> (Fail (Errorf ''error adding to conflictset: %w'' [e]), rs)
       | (Panic p, _) \<Rightarrow> (Panic p, rs)
       | (Ok (madeQuorum, updated), conflictSet) \<Rightarrow>
           let rs = rs\<lparr>rs_inflight := (rs_inflight rs)(rc_Height confirmation \<mapsto> conflictSet)\<rparr> in
           if madeQuorum then ewrapf ''error handling quorum: %w'' (handleQuorum L w updated) rs
           else (Ok (), rs))"

text \<open>
  The goroutine of \<^verbatim>\<open>start\<close>: handle what \<^verbatim>\<open>sub.Next\<close> returns until it returns an error; an error
  of \<^verbatim>\<open>handleMessage\<close> is logged, a panic ends the process. Each message comes with the
  world in which it is handled.
\<close>

fun start_loop ::
  "('e, 'd, 'sc) crypto_lib \<Rightarrow> ('k, 'p) kyber \<Rightarrow> ('st, 'h, 'w) round_lib \<Rightarrow> ('w \<times> bytes res) list \<Rightarrow>
     ('e, 'k, 'p, 'cfg, 'st, 'h, 'w) roundSubscriber \<Rightarrow> ('e, 'k, 'p, 'cfg, 'st, 'h, 'w) roundSubscriber" where
  "start_loop C K L [] rs = rs"
| "start_loop C K L ((w, nxt) # msgs) rs =
     (case nxt of
        Ok bits \<Rightarrow> (case handleMessage C K L w bits rs of
            (Panic p, rs') \<Rightarrow> rs'
          | (_, rs') \<Rightarrow> start_loop C K L msgs rs')
      | _ \<Rightarrow> rs)"

section \<open>Subscriptions\<close>

text \<open>
  The closure that \<^verbatim>\<open>subscribe\<close> registers: the request and its CID, the flag \<^verbatim>\<open>isDone\<close>, and the
  proofs it has sent on its channel.
\<close>

record abr_subscription =
  as_abr :: AddBlockRequest
  as_abrCid :: cid
  as_isDone :: bool
  as_ch :: "Proof list"

definition subscribe ::
  "('st, 'h, 'w) round_lib \<Rightarrow> ('e, 'k, 'p, 'cfg, 'st, 'h, 'w) roundSubscriber \<Rightarrow> AddBlockRequest \<Rightarrow>
     ('w, abr_subscription) eff" where
  "subscribe L rs abr =
     ebind (ewrapf ''error decoding add block request: %w'' (cis_Put L (rs_hamtStore rs) abr)) (\<lambda>abrCid.
     eret \<lparr>as_abr = abr, as_abrCid = abrCid, as_isDone = False, as_ch = []\<rparr>)"

text \<open>The closure itself; \<^verbatim>\<open>ctxDone\<close> says whether the context's channel is closed at the call.\<close>

definition notify :: "bool \<Rightarrow> ('st, 'h) ValidationNotification \<Rightarrow> abr_subscription \<Rightarrow> abr_subscription" where
  "notify ctxDone noti s =
     (if as_isDone s then s
      else if ctxDone then s\<lparr>as_isDone := True\<rparr>
      else if vn_includes (as_abrCid s) noti then
        let abr = as_abr s;
            proof = \<lparr>prf_ObjectId = abr_ObjectId abr, prf_Tip = abr_NewTip abr, prf_AddBlockRequest = abr,
              prf_Checkpoint = CheckpointWrapper_Value (vn_Checkpoint noti),
              prf_Round = RoundWrapper_Value (vn_CompletedRound noti),
              prf_RoundConfirmation = RoundConfirmationWrapper_Value (vn_RoundConfirmation noti)\<rparr>
        in s\<lparr>as_isDone := True, as_ch := as_ch s @ [proof]\<rparr>
      else s)"

end
