(* ===== verification/Subscriber_Laws.thy ===== *)
theory Subscriber_Laws
  imports Round_Subscriber
begin

text \<open>
  What the round subscriber guarantees, for every sequence of messages and every behaviour
  of the network: the current round carries the valid signature of a quorum, heights only
  grow, and every proof handed to a subscription is one that \<^verbatim>\<open>proof.Verify\<close> accepts.
\<close>

section \<open>The invariant\<close>

locale round_follower = bls_scheme K + round_store L
  for K :: "('k, 'p) kyber" and L :: "('st, 'h, 'w) round_lib" +
  fixes C :: "('e, 'd, 'sc) crypto_lib"
begin

definition confirmed :: "'p VerKey list \<Rightarrow> RoundConfirmation \<Rightarrow> bool" where
  "confirmed vks conf \<longleftrightarrow> endorsed vks (rc_RoundCid conf) (rc_Signature conf) \<and>
     Valid C K (rc_Signature conf) (rc_RoundCid conf) None = Ok True"

text \<open>What a notification says is what a quorum confirmed.\<close>

definition noti_ok ::
  "('e, 'k, 'p, 'cfg) NotaryGroup \<Rightarrow> 'p VerKey list \<Rightarrow> ('st, 'h) ValidationNotification \<Rightarrow> bool" where
  "noti_ok ng vks vn \<longleftrightarrow>
     (let conf = rcw_value (vn_RoundConfirmation vn); round = rw_round (vn_CompletedRound vn);
          cp = cw_value (vn_Checkpoint vn) in
      isQuorum ng (rc_Signature conf) \<and> confirmed vks conf \<and> links_round L conf round \<and>
      links_checkpoint L round cp \<and>
      list_all2 (\<lambda>b c. Cast L b = Ok c) (cp_AddBlockRequests cp) (vn_Accepted vn))"

definition set_ok ::
  "('e, 'k, 'p, 'cfg) NotaryGroup \<Rightarrow> 'p VerKey list \<Rightarrow> u64 \<Rightarrow> roundConflictSet \<Rightarrow> bool" where
  "set_ok ng vks h cs \<longleftrightarrow> (\<forall>c conf. cs c = Some conf \<longrightarrow> rc_Height conf = h \<and>
     Cast L (rc_RoundCid conf) = Ok c \<and> \<not> isQuorum ng (rc_Signature conf) \<and> confirmed vks conf)"

definition rs_inv :: "'p VerKey list \<Rightarrow> ('e, 'k, 'p, 'cfg, 'st, 'h, 'w) roundSubscriber \<Rightarrow> bool" where
  "rs_inv vks rs \<longleftrightarrow>
     (\<forall>h cs. rs_inflight rs h = Some cs \<longrightarrow> set_ok (rs_group rs) vks h cs \<and>
        (\<forall>cur. rs_current rs = Some cur \<longrightarrow> RoundConfirmationWrapper_Height cur < h)) \<and>
     (\<forall>cur. rs_current rs = Some cur \<longrightarrow> isQuorum (rs_group rs) (rc_Signature (rcw_value cur)) \<and>
        confirmed vks (rcw_value cur) \<and> linked L cur) \<and>
     (\<forall>vn \<in> set (rs_stream rs). noti_ok (rs_group rs) vks vn)"

lemma rs_inv_new [simp]: "rs_inv vks (newRoundSubscriber L ng st)"
  by (simp add: rs_inv_def newRoundSubscriber_def)

lemma check_confirmation_Ok:
  assumes "check_confirmation C K L bits rs = Ok conf" "verKeys (rs_group rs) = Ok vks"
  shows "confirmed vks conf \<and> (\<forall>cur. rs_current rs = Some cur \<longrightarrow> RoundConfirmationWrapper_Height cur < rc_Height conf)"
proof -
  obtain conf0 sig where dec: "decode_RoundConfirmation L bits = Ok conf0"
    and h: "\<forall>cur. rs_current rs = Some cur \<longrightarrow> RoundConfirmationWrapper_Height cur < rc_Height conf0"
    and sig: "RestoreBLSPublicKey K (rc_Signature conf0) vks = Ok sig"
      "signature_invalid (Valid C K sig (rc_RoundCid conf0) None) = Ok ()"
    and conf: "conf = conf0\<lparr>rc_Signature := sig\<rparr>"
    using assms
    by (auto simp: check_confirmation_def pubsubMessageToRoundConfirmation_def rbind_Ok_iff not_le
        split: if_splits option.splits)
  have "Valid C K sig (rc_RoundCid conf0) None = Ok True"
    using sig(2) by (auto simp: signature_invalid_def split: res.splits bool.splits)
  with restored_endorsed [OF sig(1) this] h conf show ?thesis by (simp add: confirmed_def)
qed

text \<open>Adding to a conflict set keeps every entry endorsed by the keys its counts stand for.\<close>

lemma rcs_add_Ok:
  assumes "rcs_add K L ng conf cs = (Ok (made, upd), cs')" "set_ok ng vks (rc_Height conf) cs" "confirmed vks conf"
  shows "\<exists>c. Cast L (rc_RoundCid conf) = Ok c \<and> cs' = cs(c \<mapsto> upd) \<and> rc_Height upd = rc_Height conf \<and>
    rc_RoundCid upd = rc_RoundCid conf \<and> confirmed vks upd \<and> (made \<longleftrightarrow> isQuorum ng (rc_Signature upd))"
proof -
  obtain c where c: "Cast L (rc_RoundCid conf) = Ok c"
    using assms(1) by (auto simp: rcs_add_def split: res.splits prod.splits)
  show ?thesis
  proof (cases "cs c")
    case None
    with assms(1,3) c show ?thesis by (auto simp: rcs_add_def)
  next
    case (Some old)
    then have old: "rc_Height old = rc_Height conf" "Cast L (rc_RoundCid old) = Ok c" "confirmed vks old"
      using assms(2) by (auto simp: set_ok_def)
    have same: "rc_RoundCid old = rc_RoundCid conf" using cast_exact [OF old(2)] cast_exact [OF c] by simp
    obtain sig where agg: "AggregateBLSSignatures K [rc_Signature old, rc_Signature conf] = Ok sig"
      and upd: "upd = old\<lparr>rc_Signature := sig\<rparr>" "cs' = cs(c \<mapsto> upd)" "made \<longleftrightarrow> isQuorum ng sig"
      using assms(1) c Some by (auto simp: rcs_add_def Let_def split: res.splits)
    have "list_all (endorsed vks (rc_RoundCid conf)) [rc_Signature old, rc_Signature conf]"
      using old(3) assms(3) same by (simp add: confirmed_def)
    from aggregate_endorsed [OF this agg] have ws: "well_signed vks (rc_RoundCid conf) sig" by simp
    then have "confirmed vks upd"
      using upd(1) same valid_well_signed [OF ws] by (simp add: confirmed_def well_signed_def)
    with c upd old(1) same show ?thesis by simp
  qed
qed

lemma cast_accepted_Ok: "cast_accepted L bs = Ok cs \<Longrightarrow> list_all2 (\<lambda>b c. Cast L b = Ok c) bs cs"
  by (induction bs arbitrary: cs) (auto simp: rbind_Ok_iff)

text \<open>
  \<^verbatim>\<open>handleQuorum\<close> makes the confirmation current whatever the network answers, and either
  publishes nothing and reports an error, or publishes one notification.
\<close>

lemma handleQuorum_effect:
  assumes "handleQuorum L w conf rs = (r, rs')"
  shows "rs_group rs' = rs_group rs \<and> rs_inflight rs' = drop_inflight (rc_Height conf) (rs_inflight rs) \<and>
    (\<exists>cur. rs_current rs' = Some cur \<and> rcw_value cur = conf \<and> linked L cur) \<and>
    (if r = Ok () then \<exists>vn. rs_stream rs' = rs_stream rs @ [vn] \<and> rcw_value (vn_RoundConfirmation vn) = conf \<and>
         links_round L conf (rw_round (vn_CompletedRound vn)) \<and>
         links_checkpoint L (rw_round (vn_CompletedRound vn)) (cw_value (vn_Checkpoint vn)) \<and>
         list_all2 (\<lambda>b c. Cast L b = Ok c) (cp_AddBlockRequests (cw_value (vn_Checkpoint vn))) (vn_Accepted vn)
     else rs_stream rs' = rs_stream rs)"
proof -
  let ?rc0 = "RoundConfirmationWrapper_SetStore (rs_dagStore rs) (WrapRoundConfirmation L conf)"
  obtain x1 rc1 where f1: "FetchCompletedRound L w ?rc0 = (x1, rc1)" by fastforce
  obtain x2 rc2 where f2: "on_completedRound (FetchCheckpoint L w) rc1 = (x2, rc2)" by fastforce
  have v0: "rcw_value ?rc0 = conf"
    by (simp add: RoundConfirmationWrapper_SetStore_def WrapRoundConfirmation_def)
  have v1: "rcw_value rc1 = conf" "linked L rc1"
    using FetchCompletedRound_keeps [of L w ?rc0] linked_FetchCompletedRound [of ?rc0 w] f1 v0 by simp_all
  have v2: "rcw_value rc2 = conf" "linked L rc2"
    using on_completedRound_keeps [of "FetchCheckpoint L w" rc1] linked_FetchCheckpoint [of rc1 w] f2 v1 by simp_all
  show ?thesis
  proof (cases "\<exists>r1 cp acc. x1 = Ok r1 \<and> x2 = Ok cp \<and> cast_accepted L (cp_AddBlockRequests (cw_value cp)) = Ok acc")
    case True
    then obtain r1 cp acc where ok: "x1 = Ok r1" "x2 = Ok cp"
      "cast_accepted L (cp_AddBlockRequests (cw_value cp)) = Ok acc" by blast
    then obtain r2 where r2: "rcw_completedRound rc2 = Some r2" "rw_checkpoint r2 = Some cp"
      using f2 FetchCheckpoint_Ok by (fastforce simp: on_completedRound_def split: option.splits prod.splits)
    with v2 have links: "links_round L conf (rw_round r2)" "links_checkpoint L (rw_round r2) (cw_value cp)"
      by (auto simp: linked_def)
    have "r = Ok ()" "rs_group rs' = rs_group rs" "rs_current rs' = Some rc2"
      "rs_inflight rs' = drop_inflight (rc_Height conf) (rs_inflight rs)"
      "rs_stream rs' = rs_stream rs @ [\<lparr>vn_Accepted = acc, vn_Checkpoint = cp, vn_RoundConfirmation = rc2,
         vn_CompletedRound = r2\<rparr>]"
      using assms f1 f2 ok r2
      by (auto simp: handleQuorum_def Let_def eff_defs on_current_def on_completedRound_def
          CheckpointWrapper_AddBlockRequests_def)
    with v2 links cast_accepted_Ok [OF ok(3)] show ?thesis by simp
  next
    case False
    have "r \<noteq> Ok () \<and> rs_group rs' = rs_group rs \<and> rs_stream rs' = rs_stream rs \<and>
      rs_inflight rs' = drop_inflight (rc_Height conf) (rs_inflight rs) \<and>
      (rs_current rs' = Some rc1 \<or> rs_current rs' = Some rc2)"
      using assms f1 f2 False
      by (auto simp: handleQuorum_def Let_def eff_defs on_current_def CheckpointWrapper_AddBlockRequests_def
          split: res.splits)
    with v1 v2 show ?thesis by auto
  qed
qed

text \<open>One message: what is in flight, what is current and what was published.\<close>

definition step_ok ::
  "('e, 'k, 'p, 'cfg, 'st, 'h, 'w) roundSubscriber \<Rightarrow> ('e, 'k, 'p, 'cfg, 'st, 'h, 'w) roundSubscriber \<Rightarrow> bool" where
  "step_ok rs rs' \<longleftrightarrow> rs_group rs' = rs_group rs \<and>
     (rs_current rs' = rs_current rs \<and> rs_stream rs' = rs_stream rs \<or>
      (\<exists>cur. rs_current rs' = Some cur \<and>
         (\<forall>old. rs_current rs = Some old \<longrightarrow> RoundConfirmationWrapper_Height old < RoundConfirmationWrapper_Height cur) \<and>
         (rs_stream rs' = rs_stream rs \<or>
          (\<exists>vn. rs_stream rs' = rs_stream rs @ [vn] \<and> rcw_value (vn_RoundConfirmation vn) = rcw_value cur))))"

lemma rs_inv_quorum:
  assumes inv: "rs_inv vks rs" and conf: "confirmed vks conf" "isQuorum (rs_group rs) (rc_Signature conf)"
    and infl: "\<forall>k. rc_Height conf < k \<longrightarrow> rs_inflight rs1 k = rs_inflight rs k"
    and rs1: "rs_group rs1 = rs_group rs" "rs_stream rs1 = rs_stream rs"
    and run: "handleQuorum L w conf rs1 = (r, rs')"
  shows "rs_inv vks rs' \<and> rs_group rs' = rs_group rs \<and>
    (\<exists>cur. rs_current rs' = Some cur \<and> rcw_value cur = conf) \<and>
    (rs_stream rs' = rs_stream rs \<or>
      (\<exists>vn. rs_stream rs' = rs_stream rs @ [vn] \<and> rcw_value (vn_RoundConfirmation vn) = conf))"
proof -
  note eff = handleQuorum_effect [OF run]
  obtain cur where cur: "rs_current rs' = Some cur" "rcw_value cur = conf" "linked L cur"
    and g: "rs_group rs' = rs_group rs" and i: "rs_inflight rs' = drop_inflight (rc_Height conf) (rs_inflight rs1)"
    using eff rs1(1) by auto
  have "\<forall>h cs. rs_inflight rs' h = Some cs \<longrightarrow> set_ok (rs_group rs') vks h cs \<and>
      RoundConfirmationWrapper_Height cur < h"
    using inv infl cur(2) g i
    by (auto simp: rs_inv_def drop_inflight_def RoundConfirmationWrapper_Height_def not_le split: if_splits)
  moreover have "\<forall>vn \<in> set (rs_stream rs'). noti_ok (rs_group rs') vks vn"
    using inv eff conf g rs1(2) by (auto simp: rs_inv_def noti_ok_def Let_def split: if_splits)
  ultimately have "rs_inv vks rs'"
    using cur conf g by (simp add: rs_inv_def)
  then show ?thesis using cur(1,2) g eff rs1(2) by (auto split: if_splits)
qed

lemma handleMessage_step:
  assumes inv: "rs_inv vks rs" and keys: "verKeys (rs_group rs) = Ok vks"
    and run: "handleMessage C K L w bits rs = (r, rs')"
  shows "rs_inv vks rs' \<and> step_ok rs rs'"
proof (cases "rs' = rs")
  case True
  then show ?thesis using inv by (simp add: step_ok_def)
next
  case False
  then obtain conf where chk: "check_confirmation C K L bits rs = Ok conf"
    using run by (auto simp: handleMessage_def eff_defs split: res.splits)
  note conf = check_confirmation_Ok [OF chk keys]
  let ?h = "rc_Height conf" and ?cs = "case rs_inflight rs (rc_Height conf) of None \<Rightarrow> Map.empty | Some cs \<Rightarrow> cs"
  have cs: "set_ok (rs_group rs) vks ?h ?cs"
    using inv by (auto simp: rs_inv_def set_ok_def split: option.splits)
  obtain made upd cs' where add: "rcs_add K L (rs_group rs) conf ?cs = (Ok (made, upd), cs')"
    using run chk False by (auto simp: handleMessage_def eff_defs Let_def split: res.splits prod.splits)
  let ?rs1 = "rs\<lparr>rs_inflight := (rs_inflight rs)(?h \<mapsto> cs')\<rparr>"
  from rcs_add_Ok [OF add cs] conf obtain c where c: "Cast L (rc_RoundCid conf) = Ok c" "cs' = ?cs(c \<mapsto> upd)"
    and upd: "rc_Height upd = ?h" "rc_RoundCid upd = rc_RoundCid conf" "confirmed vks upd"
      "made \<longleftrightarrow> isQuorum (rs_group rs) (rc_Signature upd)" by auto
  show ?thesis
  proof (cases made)
    case True
    then have q: "handleQuorum L w upd ?rs1 = (fst (handleQuorum L w upd ?rs1), rs')"
      using run chk add by (auto simp: handleMessage_def eff_defs Let_def split: prod.splits)
    have infl: "\<forall>k. rc_Height upd < k \<longrightarrow> rs_inflight ?rs1 k = rs_inflight rs k" using upd(1) by auto
    have "isQuorum (rs_group rs) (rc_Signature upd)" using True upd(4) by simp
    then have "rs_inv vks rs' \<and> rs_group rs' = rs_group rs \<and>
      (\<exists>cur. rs_current rs' = Some cur \<and> rcw_value cur = upd) \<and>
      (rs_stream rs' = rs_stream rs \<or>
        (\<exists>vn. rs_stream rs' = rs_stream rs @ [vn] \<and> rcw_value (vn_RoundConfirmation vn) = upd))"
      by (rule rs_inv_quorum [OF inv upd(3) _ infl _ _ q]) simp_all
    then show ?thesis using upd(1) conf by (auto simp: step_ok_def RoundConfirmationWrapper_Height_def)
  next
    case no: False
    then have rs': "rs' = ?rs1" using run chk add by (simp add: handleMessage_def eff_defs)
    have "set_ok (rs_group rs) vks ?h cs'" using cs c upd no by (auto simp: set_ok_def)
    then have "rs_inv vks rs'" using inv conf rs' by (auto simp: rs_inv_def)
    then show ?thesis using rs' by (simp add: step_ok_def)
  qed
qed

lemma start_loop_induct [consumes 2, case_names start step]:
  assumes "rs_inv vks rs" "verKeys (rs_group rs) = Ok vks"
    and "P rs"
    and step: "\<And>a b. rs_inv vks a \<Longrightarrow> rs_inv vks b \<Longrightarrow> step_ok a b \<Longrightarrow> P a \<Longrightarrow> P b"
  shows "rs_inv vks (start_loop C K L msgs rs) \<and> P (start_loop C K L msgs rs)"
  using assms(1-3)
proof (induction msgs arbitrary: rs)
  case (Cons m msgs)
  obtain w nxt where m: "m = (w, nxt)" by fastforce
  show ?case
  proof (cases nxt)
    case (Ok bits)
    obtain r rs' where run: "handleMessage C K L w bits rs = (r, rs')" by fastforce
    from handleMessage_step [OF Cons.prems(1,2) run] have ok: "rs_inv vks rs'" "step_ok rs rs'" by simp_all
    then have "P rs'" "verKeys (rs_group rs') = Ok vks"
      using step [OF Cons.prems(1) ok] Cons.prems by (simp_all add: step_ok_def)
    with Cons.IH [of rs'] ok(1) m Ok run show ?thesis by (cases r) simp_all
  qed (use Cons.prems m in simp_all)
qed simp

end

section \<open>Published heights\<close>

definition event_height :: "('st, 'h) ValidationNotification \<Rightarrow> u64" where
  "event_height vn = rc_Height (rcw_value (vn_RoundConfirmation vn))"

text \<open>The heights published so far grow strictly and end at or below the current height.\<close>

definition heights_ok :: "('e, 'k, 'p, 'cfg, 'st, 'h, 'w) roundSubscriber \<Rightarrow> bool" where
  "heights_ok rs \<longleftrightarrow> sorted_wrt (<) (map event_height (rs_stream rs)) \<and>
     (\<forall>vn \<in> set (rs_stream rs). \<exists>cur. rs_current rs = Some cur \<and> event_height vn \<le> RoundConfirmationWrapper_Height cur)"

context round_follower
begin

lemma heights_step:
  assumes "step_ok a b" "heights_ok a"
  shows "heights_ok b"
  using assms
  by (fastforce simp: step_ok_def heights_ok_def event_height_def RoundConfirmationWrapper_Height_def sorted_wrt_append)

lemma start_loop_ok:
  assumes "verKeys ng = Ok vks"
  shows "rs_inv vks (start_loop C K L msgs (newRoundSubscriber L ng st)) \<and>
    heights_ok (start_loop C K L msgs (newRoundSubscriber L ng st)) \<and>
    rs_group (start_loop C K L msgs (newRoundSubscriber L ng st)) = ng"
proof -
  let ?P = "\<lambda>rs. heights_ok rs \<and> rs_group rs = ng"
  have "verKeys (rs_group (newRoundSubscriber L ng st)) = Ok vks"
    using assms by (simp add: newRoundSubscriber_def)
  moreover have "?P (newRoundSubscriber L ng st)" by (simp add: newRoundSubscriber_def heights_ok_def)
  ultimately show ?thesis
    by (rule start_loop_induct [OF rs_inv_new, where P = ?P])
      (auto intro: heights_step simp: step_ok_def [THEN iffD1, THEN conjunct1])
qed

text \<open>A confirmed signature passes the checks of \<^verbatim>\<open>proof.verifyRoundConfirmation\<close>.\<close>

lemma confirmed_verifies:
  assumes "confirmed vks conf" "isQuorum ng (rc_Signature conf)"
  shows "verifyRoundConfirmation C K conf (QuorumCount ng) vks = Ok True"
proof -
  let ?s = "rc_Signature conf"
  have "length vks = length (sig_Signers ?s)" "own_PublicKey (sig_Ownership ?s) = \<lparr>pk_Type = KeyTypeBLSGroupSig,
      pk_PublicKey = key_bytes (dedis_AggregatePublicKeys K (gathered vks (sig_Signers ?s)))\<rparr>"
    using assms(1) by (simp_all add: confirmed_def endorsed_def well_keyed_def)
  then have "RestoreBLSPublicKey K ?s vks = Ok ?s"
    by (simp add: RestoreBLSPublicKey_def Let_def gathered_keys VerKey_Bytes_def)
  then show ?thesis using assms by (auto simp: verifyRoundConfirmation_True confirmed_def isQuorum_def)
qed

lemma vn_includes_iff: "vn_includes c vn \<longleftrightarrow> c \<in> set (vn_Accepted vn)"
proof -
  have "includes_loop c cs \<longleftrightarrow> c \<in> set cs" for cs by (induction cs) auto
  then show ?thesis by (simp add: vn_includes_def)
qed

lemma notified_proof_verifies:
  assumes "noti_ok ng vks vn" "hamt_Put L (as_abr s) = Ok (as_abrCid s)" "is_ok (Cast L (abr_NewTip (as_abr s)))"
    and "p \<in> set (as_ch (notify d vn s))" "p \<notin> set (as_ch s)"
  shows "prf_AddBlockRequest p = as_abr s \<and> Verify C K L p (QuorumCount ng) vks = Ok True"
proof -
  let ?conf = "rcw_value (vn_RoundConfirmation vn)" and ?cp = "cw_value (vn_Checkpoint vn)"
  have inc: "as_abrCid s \<in> set (vn_Accepted vn)"
    and p: "prf_AddBlockRequest p = as_abr s" "prf_RoundConfirmation p = ?conf" "prf_Checkpoint p = ?cp"
      "prf_Round p = rw_round (vn_CompletedRound vn)" "prf_Tip p = abr_NewTip (as_abr s)"
      "prf_ObjectId p = abr_ObjectId (as_abr s)"
    using assms(4,5)
    by (auto simp: notify_def Let_def vn_includes_iff CheckpointWrapper_Value_def RoundWrapper_Value_def
        RoundConfirmationWrapper_Value_def split: if_splits)
  have acc: "list_all2 (\<lambda>b c. Cast L b = Ok c) (cp_AddBlockRequests ?cp) (vn_Accepted vn)"
    and conf: "verifyRoundConfirmation C K ?conf (QuorumCount ng) vks = Ok True"
    and links: "links_round L ?conf (rw_round (vn_CompletedRound vn))"
      "links_checkpoint L (rw_round (vn_CompletedRound vn)) ?cp"
    using assms(1) confirmed_verifies by (auto simp: noti_ok_def Let_def)
  have "find_abr L (as_abrCid s) (cp_AddBlockRequests ?cp) = Ok True"
  proof (rule find_abr_complete)
    show "\<forall>b \<in> set (cp_AddBlockRequests ?cp). is_ok (Cast L b)"
      using list_all2_ex_right [OF acc] by (auto simp: is_ok_iff)
    show "\<exists>b \<in> set (cp_AddBlockRequests ?cp). Cast L b = Ok (as_abrCid s)"
      by (rule list_all2_ex_left [OF acc inc])
  qed
  with assms(2,3) p conf links show ?thesis
    unfolding Verify_True_iff by (auto simp: links_round_def links_checkpoint_def is_ok_iff)
qed

text \<open>A subscription along a sequence of events: at most one proof, and only good ones.\<close>

definition sub_ok :: "('f, 'k, 'p, 'cfg) NotaryGroup \<Rightarrow> 'p VerKey list \<Rightarrow> abr_subscription \<Rightarrow> bool" where
  "sub_ok ng vks s \<longleftrightarrow> hamt_Put L (as_abr s) = Ok (as_abrCid s) \<and> is_ok (Cast L (abr_NewTip (as_abr s))) \<and>
     (as_isDone s \<or> as_ch s = []) \<and> length (as_ch s) \<le> 1 \<and>
     (\<forall>p \<in> set (as_ch s). prf_AddBlockRequest p = as_abr s \<and> Verify C K L p (QuorumCount ng) vks = Ok True)"

lemma notify_keeps: "as_abr (notify d vn s) = as_abr s" "as_abrCid (notify d vn s) = as_abrCid s"
  by (simp_all add: notify_def Let_def)

lemma sub_ok_notify:
  assumes "noti_ok ng vks vn" "sub_ok ng vks s"
  shows "sub_ok ng vks (notify d vn s)"
proof -
  have "as_isDone (notify d vn s) \<or> as_ch (notify d vn s) = []" "length (as_ch (notify d vn s)) \<le> 1"
    using assms(2) by (auto simp: sub_ok_def notify_def Let_def)
  moreover have "prf_AddBlockRequest p = as_abr s \<and> Verify C K L p (QuorumCount ng) vks = Ok True"
    if "p \<in> set (as_ch (notify d vn s))" for p
    using notified_proof_verifies [OF assms(1) _ _ that] assms(2) by (auto simp: sub_ok_def)
  ultimately show ?thesis using assms(2) by (auto simp: sub_ok_def notify_keeps)
qed

lemma sub_ok_fold:
  assumes "\<forall>(d, vn) \<in> set evs. noti_ok ng vks vn" "sub_ok ng vks s"
  shows "sub_ok ng vks (fold (\<lambda>(d, vn). notify d vn) evs s) \<and>
    as_abr (fold (\<lambda>(d, vn). notify d vn) evs s) = as_abr s"
  using assms by (induction evs arbitrary: s) (auto simp: sub_ok_notify notify_keeps)

end

section \<open>Collecting a quorum\<close>

definition member_message ::
  "('k, 'p) kyber \<Rightarrow> ('st, 'h, 'w) round_lib \<Rightarrow> ('k, 'p) SignKey list \<Rightarrow> u64 \<Rightarrow> bytes \<Rightarrow> bytes \<Rightarrow> nat \<Rightarrow> bool" where
  "member_message K L keys h m bits i \<longleftrightarrow> i < length keys \<and>
     (\<exists>s. BLSSign K (keys ! i) m (int (length keys)) (int i) = Ok s \<and>
        decode_RoundConfirmation L bits = Ok \<lparr>rc_Height = h, rc_RoundCid = m, rc_Signature = s\<rparr>)"

context round_follower
begin

text \<open>Either the round is current, or the signatures of \<^verbatim>\<open>js\<close> are in flight and short of a quorum.\<close>

definition current_round :: "u64 \<Rightarrow> bytes \<Rightarrow> ('e, 'k, 'p, 'cfg, 'st, 'h, 'w) roundSubscriber \<Rightarrow> bool" where
  "current_round h m rs \<longleftrightarrow> (\<exists>cur. rs_current rs = Some cur \<and> rc_Height (rcw_value cur) = h \<and> rc_RoundCid (rcw_value cur) = m)"

definition counts :: "nat \<Rightarrow> nat list \<Rightarrow> Signature \<Rightarrow> bool" where
  "counts n js s \<longleftrightarrow> length (sig_Signers s) = n \<and> (\<forall>j < n. unat (sig_Signers s ! j) = count_list js j)"

definition gathering ::
  "'p VerKey list \<Rightarrow> u64 \<Rightarrow> bytes \<Rightarrow> cid \<Rightarrow> nat list \<Rightarrow> ('e, 'k, 'p, 'cfg, 'st, 'h, 'w) roundSubscriber \<Rightarrow> bool" where
  "gathering vks h m c js rs \<longleftrightarrow> rs_current rs = None \<and>
     (js = [] \<and> rs_inflight rs h = None \<or>
      (\<exists>cs conf. rs_inflight rs h = Some cs \<and> cs c = Some conf \<and> rc_Height conf = h \<and> rc_RoundCid conf = m \<and>
         confirmed vks conf \<and> counts (length vks) js (rc_Signature conf) \<and> \<not> isQuorum (rs_group rs) (rc_Signature conf)))"

lemma counts_card:
  assumes "counts n js s" "set js \<subseteq> {..<n}"
  shows "SignerCount s = card (set js)"
proof -
  have "0 < sig_Signers s ! j \<longleftrightarrow> j \<in> set js" if "j < n" for j
    using assms(1) that count_list_0_iff [of js j] by (auto simp: counts_def word_less_nat_alt)
  then have "signer_set s = set js" using assms by (auto simp: counts_def signer_set_def)
  then show ?thesis using card_signer_set [of s] by simp
qed

lemma member_checked:
  assumes "members keys" "member_message K L keys h m bits i"
    and "verKeys (rs_group rs) = Ok (map sk_verKey keys)" "rs_current rs = None"
  shows "\<exists>conf. check_confirmation C K L bits rs = Ok conf \<and> rc_Height conf = h \<and> rc_RoundCid conf = m \<and>
    confirmed (map sk_verKey keys) conf \<and> counts (length keys) [i] (rc_Signature conf)"
proof -
  obtain s where i: "i < length keys" and s: "BLSSign K (keys ! i) m (int (length keys)) (int i) = Ok s"
    and dec: "decode_RoundConfirmation L bits = Ok \<lparr>rc_Height = h, rc_RoundCid = m, rc_Signature = s\<rparr>"
    using assms(2) by (auto simp: member_message_def)
  from member_signature [OF assms(1) i s] have ws: "well_signed (map sk_verKey keys) m s"
    and cnt: "counts (length keys) [i] s"
    by (auto simp: counts_def nth_list_update)
  have "check_confirmation C K L bits rs = Ok \<lparr>rc_Height = h, rc_RoundCid = m, rc_Signature = s\<rparr>"
    using restore_well_signed [OF ws] valid_well_signed [OF ws, of C None] dec assms(3,4)
    by (simp add: check_confirmation_def pubsubMessageToRoundConfirmation_def signature_invalid_def)
  then show ?thesis
    using ws cnt valid_well_signed [OF ws] by (auto simp: confirmed_def well_signed_def)
qed

lemma aggregate_counts:
  assumes "confirmed vks a" "confirmed vks b" "rc_RoundCid a = m" "rc_RoundCid b = m"
    and "counts (length vks) js (rc_Signature a)" "counts (length vks) [i] (rc_Signature b)" "length js + 1 < 2 ^ 32"
  shows "\<exists>agg. AggregateBLSSignatures K [rc_Signature a, rc_Signature b] = Ok agg \<and> counts (length vks) (js @ [i]) agg"
proof -
  let ?ss = "[rc_Signature a, rc_Signature b]"
  have en: "list_all (endorsed vks m) ?ss" using assms(1-4) by (simp add: confirmed_def)
  have times: "times_signed j ?ss = count_list (js @ [i]) j" if "j < length vks" for j
    using assms(5,6) that by (simp add: counts_def)
  have "count_list (js @ [i]) j < 2 ^ 32" for j
    using count_le_length [of "js @ [i]" j] assms(7) by simp
  with times have "\<forall>j < length vks. times_signed j ?ss < 2 ^ 32" by simp
  from aggregate_endorsed_total [OF en _ this] obtain agg where agg: "AggregateBLSSignatures K ?ss = Ok agg" by auto
  have "list_all (bls_signature (length vks) K) ?ss"
    using en bls_endorsed [of vks m] by (auto simp: list_all_iff)
  with AggregateBLSSignatures_sums [of ?ss "length vks" K] agg have "counts (length vks) (js @ [i]) agg"
    using times by (auto simp: counts_def)
  with agg show ?thesis by blast
qed

lemma handleQuorum_current:
  assumes "handleQuorum L w conf rs = (r, rs')"
  shows "current_round (rc_Height conf) (rc_RoundCid conf) rs' \<and> rs_group rs' = rs_group rs"
  using handleQuorum_effect [OF assms] by (auto simp: current_round_def)

lemma gathering_step:
  assumes "members keys" "member_message K L keys h m bits i" "vks = map sk_verKey keys"
    and "verKeys (rs_group rs) = Ok vks" "Cast L m = Ok c" "gathering vks h m c js rs" "length js + 1 < 2 ^ 32"
    and run: "handleMessage C K L w bits rs = (r, rs')"
  shows "rs_group rs' = rs_group rs \<and>
    (current_round h m rs' \<or> gathering vks h m c (js @ [i]) rs' \<and> r = Ok ())"
proof -
  obtain conf where conf: "check_confirmation C K L bits rs = Ok conf" "rc_Height conf = h" "rc_RoundCid conf = m"
    "confirmed vks conf" "counts (length vks) [i] (rc_Signature conf)"
    using member_checked [OF assms(1,2)] assms(3,4,6) by (auto simp: gathering_def)
  let ?cs = "case rs_inflight rs h of None \<Rightarrow> Map.empty | Some cs \<Rightarrow> cs"
  have "\<exists>upd. rcs_add K L (rs_group rs) conf ?cs = (Ok (isQuorum (rs_group rs) (rc_Signature upd), upd), ?cs(c \<mapsto> upd)) \<and>
    rc_Height upd = h \<and> rc_RoundCid upd = m \<and> confirmed vks upd \<and> counts (length vks) (js @ [i]) (rc_Signature upd)"
  proof (cases "js = [] \<and> rs_inflight rs h = None")
    case True
    then show ?thesis using conf assms(5) by (simp add: rcs_add_def)
  next
    case False
    then obtain cs old where old: "rs_inflight rs h = Some cs" "cs c = Some old" "rc_Height old = h" "rc_RoundCid old = m"
      "confirmed vks old" "counts (length vks) js (rc_Signature old)" using assms(6) by (auto simp: gathering_def)
    from aggregate_counts [OF old(5) conf(4) old(4) conf(3) old(6) conf(5) assms(7)] obtain agg where
      agg: "AggregateBLSSignatures K [rc_Signature old, rc_Signature conf] = Ok agg"
        "counts (length vks) (js @ [i]) agg" by blast
    have "list_all (endorsed vks m) [rc_Signature old, rc_Signature conf]"
      using old(4,5) conf(3,4) by (simp add: confirmed_def)
    from aggregate_endorsed [OF this agg(1)] have ws: "well_signed vks m agg" by simp
    then have "confirmed vks (old\<lparr>rc_Signature := agg\<rparr>)"
      using valid_well_signed [OF ws] old(4) by (simp add: confirmed_def well_signed_def)
    then show ?thesis
      using old conf(3) agg assms(5) by (intro exI [of _ "old\<lparr>rc_Signature := agg\<rparr>"]) (simp add: rcs_add_def Let_def)
  qed
  then obtain upd where add: "rcs_add K L (rs_group rs) conf ?cs = (Ok (isQuorum (rs_group rs) (rc_Signature upd), upd), ?cs(c \<mapsto> upd))"
    and upd: "rc_Height upd = h" "rc_RoundCid upd = m" "confirmed vks upd" "counts (length vks) (js @ [i]) (rc_Signature upd)"
    by blast
  let ?rs1 = "rs\<lparr>rs_inflight := (rs_inflight rs)(h \<mapsto> ?cs(c \<mapsto> upd))\<rparr>"
  show ?thesis
  proof (cases "isQuorum (rs_group rs) (rc_Signature upd)")
    case True
    then have "handleQuorum L w upd ?rs1 = (fst (handleQuorum L w upd ?rs1), rs')"
      using run conf(1,2) add by (auto simp: handleMessage_def eff_defs Let_def split: prod.splits)
    from handleQuorum_current [OF this] upd show ?thesis by simp
  next
    case False
    then have "rs' = ?rs1" "r = Ok ()" using run conf(1,2) add by (simp_all add: handleMessage_def eff_defs)
    then show ?thesis using False upd assms(6) by (auto simp: gathering_def)
  qed
qed

lemma handleMessage_stale:
  assumes "rs_current rs = Some cur" "decode_RoundConfirmation L bits = Ok conf"
    "rc_Height conf \<le> RoundConfirmationWrapper_Height cur"
  shows "handleMessage C K L w bits rs = (Fail stale_height, rs)"
  using assms
  by (simp add: handleMessage_def eff_defs check_confirmation_def pubsubMessageToRoundConfirmation_def)

lemma start_loop_current:
  assumes "list_all2 (\<lambda>msg i. \<exists>w bits. msg = (w, Ok bits) \<and> member_message K L keys h m bits i) msgs ks"
    "current_round h m rs"
  shows "current_round h m (start_loop C K L msgs rs)"
  using assms
proof (induction arbitrary: rs rule: list_all2_induct)
  case (Cons msg msgs i ks)
  then obtain w bits s where msg: "msg = (w, Ok bits)"
    and dec: "decode_RoundConfirmation L bits = Ok \<lparr>rc_Height = h, rc_RoundCid = m, rc_Signature = s\<rparr>"
    by (auto simp: member_message_def)
  obtain cur where "rs_current rs = Some cur" "RoundConfirmationWrapper_Height cur = h"
    using Cons.prems by (auto simp: current_round_def RoundConfirmationWrapper_Height_def)
  from handleMessage_stale [OF this(1) dec] this(2) Cons msg show ?case by simp
qed simp

lemma start_loop_gathering:
  assumes "members keys" "vks = map sk_verKey keys" "verKeys ng = Ok vks" "Cast L m = Ok c"
    and "list_all2 (\<lambda>msg i. \<exists>w bits. msg = (w, Ok bits) \<and> member_message K L keys h m bits i) msgs ks"
    and "rs_group rs = ng" "gathering vks h m c js rs" "length js + length ks < 2 ^ 32"
  shows "current_round h m (start_loop C K L msgs rs) \<or>
    (gathering vks h m c (js @ ks) (start_loop C K L msgs rs) \<and> rs_group (start_loop C K L msgs rs) = ng)"
  using assms(5-8)
proof (induction arbitrary: rs js rule: list_all2_induct)
  case (Cons msg msgs i ks)
  then obtain w bits where msg: "msg = (w, Ok bits)" and mm: "member_message K L keys h m bits i" by auto
  obtain r rs' where run: "handleMessage C K L w bits rs = (r, rs')" by fastforce
  have "verKeys (rs_group rs) = Ok vks" "length js + 1 < 2 ^ 32" using Cons.prems assms(3) by simp_all
  note step = gathering_step [OF assms(1) mm assms(2) this(1) assms(4) Cons.prems(2) this(2) run]
  then consider "current_round h m rs'" | "gathering vks h m c (js @ [i]) rs'" "r = Ok ()" "rs_group rs' = ng"
    using Cons.prems(1) by auto
  then show ?case
  proof cases
    case 1
    then show ?thesis using start_loop_current [OF Cons.hyps(2) 1] msg run by (cases r) simp_all
  next
    case 2
    then show ?thesis using Cons.IH [of rs' "js @ [i]"] Cons.prems(3) msg run by simp
  qed
qed simp

lemma quorum_reached:
  assumes "members keys" "vks = map sk_verKey keys" "verKeys ng = Ok vks" "Cast L m = Ok c"
    and msgs: "list_all2 (\<lambda>msg i. \<exists>w bits. msg = (w, Ok bits) \<and> member_message K L keys h m bits i) msgs ks"
    and "length msgs < 2 ^ 32" "unat (QuorumCount ng) \<le> card (set ks)" "0 < QuorumCount ng"
  shows "current_round h m (start_loop C K L msgs (newRoundSubscriber L ng st))"
proof (rule ccontr)
  let ?rs = "start_loop C K L msgs (newRoundSubscriber L ng st)"
  have len: "length ks = length msgs" using list_all2_lengthD [OF msgs] by simp
  assume "\<not> current_round h m ?rs"
  with start_loop_gathering [OF assms(1-4) msgs, of "newRoundSubscriber L ng st" "[]"] assms(6) len
  have g: "gathering vks h m c ks ?rs" "rs_group ?rs = ng"
    by (auto simp: gathering_def newRoundSubscriber_def)
  have "ks \<noteq> []" using assms(7,8) by (auto simp: word_less_nat_alt)
  with g obtain conf :: RoundConfirmation where conf: "counts (length vks) ks (rc_Signature conf)" "\<not> isQuorum ng (rc_Signature conf)"
    by (auto simp: gathering_def)
  have "set ks \<subseteq> {..<length vks}"
    using list_all2_ex_left [OF msgs] assms(2) by (fastforce simp: member_message_def)
  from counts_card [OF conf(1) this] have "SignerCount (rc_Signature conf) = card (set ks)" .
  moreover have "card (set ks) < 2 ^ 64" using card_length [of ks] len assms(6) by simp
  ultimately show False
    using conf(2) assms(7) by (simp add: isQuorum_def word_le_nat_alt unat_of_nat)
qed

text \<open>A message that carries a quorum's signature by itself, at a height with nothing in flight.\<close>

lemma quorum_message:
  assumes "check_confirmation C K L bits rs = Ok conf" "rs_inflight rs (rc_Height conf) = None"
    "Cast L (rc_RoundCid conf) = Ok c" "isQuorum (rs_group rs) (rc_Signature conf)"
  shows "handleMessage C K L w bits rs =
    ewrapf ''error handling quorum: %w'' (handleQuorum L w conf)
      (rs\<lparr>rs_inflight := (rs_inflight rs)(rc_Height conf \<mapsto> [c \<mapsto> conf])\<rparr>)"
  using assms by (simp add: handleMessage_def ebind_def eread_def rcs_add_def)

lemma check_other_height:
  assumes "check_confirmation C K L bits rs = Ok conf'" "decode_RoundConfirmation L bits = Ok conf"
    "decode_RoundConfirmation L bits' = Ok (conf\<lparr>rc_Height := h\<rparr>)"
    "\<forall>cur. rs_current rs = Some cur \<longrightarrow> RoundConfirmationWrapper_Height cur < h"
  shows "check_confirmation C K L bits' rs = Ok (conf'\<lparr>rc_Height := h\<rparr>) \<and> rc_RoundCid conf' = rc_RoundCid conf"
  using assms
  by (auto simp: check_confirmation_def pubsubMessageToRoundConfirmation_def rbind_Ok_iff not_le
      split: if_splits option.splits)

text \<open>A checked message, by what adding it to the conflict set of its height and round makes.\<close>

lemma added_message:
  assumes "check_confirmation C K L bits rs = Ok conf" "Cast L (rc_RoundCid conf) = Ok c"
    and cs: "cs = (case rs_inflight rs (rc_Height conf) of None \<Rightarrow> Map.empty | Some cs \<Rightarrow> cs)"
    and upd: "cs c = None \<and> upd = conf \<or> (\<exists>old sig. cs c = Some old \<and>
      AggregateBLSSignatures K [rc_Signature old, rc_Signature conf] = Ok sig \<and> upd = old\<lparr>rc_Signature := sig\<rparr>)"
  shows "handleMessage C K L w bits rs =
    (let rs1 = rs\<lparr>rs_inflight := (rs_inflight rs)(rc_Height conf \<mapsto> cs(c \<mapsto> upd))\<rparr> in
     if isQuorum (rs_group rs) (rc_Signature upd) then ewrapf ''error handling quorum: %w'' (handleQuorum L w upd) rs1
     else (Ok (), rs1))"
proof -
  have "rcs_add K L (rs_group rs) conf cs = (Ok (isQuorum (rs_group rs) (rc_Signature upd), upd), cs(c \<mapsto> upd))"
    using upd assms(2) by (auto simp: rcs_add_def Let_def)
  with assms(1) show ?thesis by (simp add: handleMessage_def ebind_def eread_def cs Let_def)
qed

end

end
