(* ===== verification/Ref_Rounds.thy ===== *)
theory Ref_Rounds
  imports Subscriber_Laws
begin

text \<open>
  A concrete store and encoding that satisfies the laws of \<^verbatim>\<open>round_store\<close>, and a group of
  three signers with a confirmed round in it: the concrete inputs of the properties about
  rounds, subscribers and clients. A block's CID is the block; the world is the list of
  the blocks that can be reached.
\<close>

section \<open>Decoding\<close>

fun dec_bytes :: "bytes \<Rightarrow> (bytes \<times> bytes) option" where
  "dec_bytes (a # rest) =
     (if a = 0 then Some ([], rest)
      else (case rest of [] \<Rightarrow> None | b # rest' \<Rightarrow> map_option (\<lambda>(bs, r). (b # bs, r)) (dec_bytes rest')))"
| "dec_bytes [] = None"

fun dec_list :: "nat \<Rightarrow> bytes \<Rightarrow> (bytes list \<times> bytes) option" where
  "dec_list 0 bs = None"
| "dec_list (Suc fuel) [] = None"
| "dec_list (Suc fuel) (a # rest) =
     (if a = 0 then Some ([], rest)
      else Option.bind (dec_bytes rest) (\<lambda>(b, r).
           map_option (\<lambda>(bs, r'). (b # bs, r')) (dec_list fuel r)))"

lemma dec_enc_bytes [simp]: "dec_bytes (enc_bytes bs @ r) = Some (bs, r)"
  by (induction bs) (auto simp: enc_bytes_def)

lemma dec_enc_list: "length bss < fuel \<Longrightarrow> dec_list fuel (enc_list bss @ r) = Some (bss, r)"
proof (induction bss arbitrary: fuel)
  case Nil
  then show ?case by (cases fuel) (auto simp: enc_list_def)
next
  case (Cons b bss)
  then show ?case by (cases fuel) (auto simp: enc_list_def)
qed

lemma enc_list_length: "length bss < length (enc_list bss)"
  by (induction bss) (auto simp: enc_list_def)

definition enc_round :: "Round \<Rightarrow> bytes" where
  "enc_round r = enc_bytes (rnd_StateCid r) @ enc_bytes (rnd_CheckpointCid r) @ uint64ToBytes (rnd_Height r)"

definition dec_error :: "'a res" where
  "dec_error = Fail (LibErr ''decoding'')"

text \<open>A decoder accepts what encodes to the input.\<close>

definition checked :: "('a \<Rightarrow> bytes) \<Rightarrow> bytes \<Rightarrow> 'a option \<Rightarrow> 'a res" where
  "checked enc bs x = (case x of Some y \<Rightarrow> if enc y = bs then Ok y else dec_error | None \<Rightarrow> dec_error)"

lemma checked_Ok_iff [simp]: "checked enc bs x = Ok y \<longleftrightarrow> x = Some y \<and> enc y = bs"
  by (auto simp: checked_def dec_error_def split: option.splits)

definition dec_round :: "bytes \<Rightarrow> Round res" where
  "dec_round bs = checked enc_round bs
     (Option.bind (dec_bytes bs) (\<lambda>(state, r). Option.bind (dec_bytes r) (\<lambda>(cp, h).
      Some \<lparr>rnd_Height = u64_of_bytes h, rnd_StateCid = state, rnd_CheckpointCid = cp\<rparr>)))"

definition dec_checkpoint :: "bytes \<Rightarrow> Checkpoint res" where
  "dec_checkpoint bs = checked (\<lambda>c. enc_list (cp_AddBlockRequests c)) bs
     (map_option (\<lambda>(reqs, r). \<lparr>cp_AddBlockRequests = reqs\<rparr>) (dec_list (length bs) bs))"

definition dec_abr :: "bytes \<Rightarrow> AddBlockRequest res" where
  "dec_abr bs = checked enc_abr bs
     (Option.bind (dec_bytes bs) (\<lambda>(obj, r). Option.bind (dec_bytes r) (\<lambda>(prev, r).
      Option.bind (dec_bytes r) (\<lambda>(new, r). Option.bind (dec_bytes r) (\<lambda>(payload, r).
      map_option (\<lambda>(state, _). \<lparr>abr_ObjectId = obj, abr_PreviousTip = prev, abr_Height = u64_of_bytes (take 8 r),
        abr_NewTip = new, abr_Payload = payload, abr_State = state\<rparr>) (dec_list (length bs) (drop 8 r)))))))"

lemma dec_round_enc [simp]: "dec_round (enc_round r) = Ok r"
  by (simp add: dec_round_def) (simp add: enc_round_def)

lemma dec_checkpoint_enc [simp]: "dec_checkpoint (enc_list reqs) = Ok \<lparr>cp_AddBlockRequests = reqs\<rparr>"
  using dec_enc_list [OF enc_list_length, of reqs "[]"] by (simp add: dec_checkpoint_def)

lemma dec_abr_enc [simp]: "dec_abr (enc_abr r) = Ok r"
proof -
  have "length (abr_State r) < length (enc_abr r)"
    using enc_list_length [of "abr_State r"] by (simp add: enc_abr_def)
  from dec_enc_list [OF this, of "[]"] show ?thesis by (simp add: dec_abr_def) (simp add: enc_abr_def)
qed

section \<open>The store\<close>

type_synonym ref_world = "bytes list"

text \<open>
  The state of a round is a block that lists, for each object, its id and the CID of its last
  request, one after the other.
\<close>

fun ref_find :: "string \<Rightarrow> bytes list \<Rightarrow> cid res" where
  "ref_find did (k # v # kvs) = (if k = bytes_of did then Ok (Cid v) else ref_find did kvs)"
| "ref_find did _ = Fail (Sentinel ''hamt.ErrNotFound'')"

definition ref_get :: "cid \<Rightarrow> ref_world \<Rightarrow> node res" where
  "ref_get c w = (if cid_Bytes c \<in> set w then Ok \<lparr>node_Cid = c, node_RawData = cid_Bytes c\<rparr>
     else Fail (LibErr ''not found''))"

definition ref_rounds :: "(bytes \<Rightarrow> RoundConfirmation res) \<Rightarrow> (unit, bytes list, ref_world) round_lib" where
  "ref_rounds dec = \<lparr>
     sw_WrapRound = (\<lambda>r. Ok \<lparr>node_Cid = Cid (enc_round r), node_RawData = enc_round r\<rparr>),
     sw_WrapCheckpoint = sw_WrapCheckpoint ref_proofs, hamt_Put = hamt_Put ref_proofs, Cast = Cast ref_proofs,
     sw_WrapConfirmation = (\<lambda>conf. Fail (LibErr ''wrapping'')),
     store_Get = (\<lambda>_. ref_get),
     store_Add = (\<lambda>_ n w. (Ok (), node_RawData n # w)),
     format_Decode = Ok,
     cis_Put = (\<lambda>hs abr. ebind (hs_AddBlock hs \<lparr>node_Cid = Cid (enc_abr abr), node_RawData = enc_abr abr\<rparr>)
       (\<lambda>_. eret (Cid (enc_abr abr)))),
     hamt_LoadNode = (\<lambda>hs c w. rbind (hs_GetBlock hs c w) (\<lambda>n.
       case dec_list (length (node_RawData n)) (node_RawData n) of Some (kvs, _) \<Rightarrow> Ok kvs | None \<Rightarrow> dec_error)),
     hamt_Find = (\<lambda>h did w. ref_find did h),
     decode_Round = dec_round, decode_Checkpoint = dec_checkpoint, decode_AddBlockRequest = dec_abr,
     decode_RoundConfirmation = dec\<rparr>"

lemma ref_rounds_simps [simp]:
  "sw_WrapRound (ref_rounds dec) r = Ok \<lparr>node_Cid = Cid (enc_round r), node_RawData = enc_round r\<rparr>"
  "sw_WrapCheckpoint (ref_rounds dec) = sw_WrapCheckpoint ref_proofs" "hamt_Put (ref_rounds dec) = hamt_Put ref_proofs"
  "Cast (ref_rounds dec) b = Ok (Cid b)" "store_Get (ref_rounds dec) st = ref_get" "decode_Round (ref_rounds dec) = dec_round"
  "decode_Checkpoint (ref_rounds dec) = dec_checkpoint" "decode_AddBlockRequest (ref_rounds dec) = dec_abr"
  "decode_RoundConfirmation (ref_rounds dec) = dec"
  by (simp_all add: ref_rounds_def ref_links)

interpretation ref_rounds: round_store "ref_rounds dec"
proof
  fix hs abr c and w w' :: ref_world
  assume "cis_Put (ref_rounds dec) hs abr w = (Ok c, w')"
  then show "hamt_Put (ref_rounds dec) abr = Ok c"
    by (auto simp: ref_rounds_def ref_proofs_def ebind_Ok_iff eret_Ok_iff)
qed (auto simp: ref_get_def dec_round_def dec_checkpoint_def ref_proofs_def split: if_splits)

interpretation ref_follower: round_follower ref_kyber "ref_rounds dec" ref_crypto
  by unfold_locales

section \<open>A confirmed round\<close>

definition ref_member :: "string \<times> u64 \<Rightarrow> (bytes, u64, u64) Signer" where
  "ref_member m = \<lparr>sg_ID = fst m, sg_DstKey = [], sg_VerKey = sk_verKey (ref_signer (snd m)), sg_SignKey = None, sg_Actor = None\<rparr>"

text \<open>The group is the same whatever configuration it carries.\<close>

definition ref_group_of :: "'cfg \<Rightarrow> (bytes, u64, u64, 'cfg) NotaryGroup" where
  "ref_group_of cfg = group_of (\<lambda>_. ''ref'') cfg (map ref_member [(''c'', 9), (''a'', 5), (''b'', 7)])"

abbreviation ref_group :: "(bytes, u64, u64, unit) NotaryGroup" where
  "ref_group \<equiv> ref_group_of ()"

abbreviation ref_conf :: RoundConfirmation where
  "ref_conf \<equiv> prf_RoundConfirmation ref_proof"

definition ref_dec :: "bytes \<Rightarrow> RoundConfirmation res" where
  "ref_dec bits = (if bits = [1] then Ok ref_conf else dec_error)"

definition ref_world :: ref_world where
  "ref_world = [ref_cid, enc_list [enc_abr ref_abr]]"

definition ref_subscriber_of :: "'cfg \<Rightarrow> (bytes, u64, u64, 'cfg, unit, bytes list, ref_world) roundSubscriber" where
  "ref_subscriber_of cfg = start_loop ref_crypto ref_kyber (ref_rounds ref_dec) [(ref_world, Ok [1])]
     (newRoundSubscriber (ref_rounds ref_dec) (ref_group_of cfg) ())"

abbreviation ref_subscriber :: "(bytes, u64, u64, unit, unit, bytes list, ref_world) roundSubscriber" where
  "ref_subscriber \<equiv> ref_subscriber_of ()"

lemma ref_group_ids: "ng_sortedIds (ref_group_of cfg) = [''a'', ''b'', ''c'']"
  by (simp add: ref_group_of_def group_of_def ref_member_def AddSigner_def NewNotaryGroupFromConfig_def)

lemma ref_group_keys: "verKeys (ref_group_of cfg) = Ok (map sk_verKey ref_keys)"
  by (simp add: verKeys_def AllSigners_def ref_group_ids)
    (simp add: ref_group_of_def group_of_def ref_member_def AddSigner_def NewNotaryGroupFromConfig_def ref_keys_def deref_def)

lemma ref_quorum: "QuorumCount (ref_group_of cfg) = 2"
  by (simp add: QuorumCount_def ref_group_ids quorum_of_eq)

end
