(* ===== verification/Subscriber_Properties.thy ===== *)
theory Subscriber_Properties
  imports Ref_Rounds
begin

text \<open>
  The properties of the round subscriber (\<^verbatim>\<open>src/gossip/client/roundsubscriber.go\<close>), each with a
  concrete run.
\<close>

section \<open>The concrete run\<close>

lemma ref_checked:
  "check_confirmation ref_crypto ref_kyber (ref_rounds ref_dec) [1] (newRoundSubscriber (ref_rounds ref_dec) (ref_group_of cfg) ()) = Ok ref_conf"
  by (simp add: check_confirmation_def pubsubMessageToRoundConfirmation_def ref_dec_def newRoundSubscriber_def
      ref_group_keys ref_signature ref_links signature_invalid_def)

lemma ref_is_quorum: "isQuorum (ref_group_of cfg) (rc_Signature ref_conf)"
  by (simp add: isQuorum_def ref_quorum ref_signature)

lemma enc_round_ref: "enc_round ref_round = ref_cid"
  by (simp add: enc_round_def ref_round_def ref_cid_def)

lemma ref_round_ref: "prf_Round ref_proof = ref_round"
  by (simp add: ref_proof_def)

lemma dec_round_ref [simp]: "dec_round ref_cid = Ok ref_round"
  using dec_round_enc [of ref_round] by (simp add: enc_round_ref)

lemma ref_handled:
  "\<exists>cur vn. rs_current (ref_subscriber_of cfg) = Some cur \<and> rcw_value cur = ref_conf \<and> rs_stream (ref_subscriber_of cfg) = [vn] \<and>
     vn_Accepted vn = [Cid (enc_abr ref_abr)] \<and> rs_inflight (ref_subscriber_of cfg) = Map.empty"
proof -
  have conf: "rc_RoundCid ref_conf = ref_cid" "rc_Height ref_conf = 4" by (simp_all add: ref_proof_def)
  show ?thesis
    by (simp add: ref_subscriber_of_def handleMessage_def ebind_def eread_def ref_checked)
      (simp add: newRoundSubscriber_def rcs_add_def conf ref_is_quorum handleQuorum_def eff_defs Let_def
        on_current_def on_completedRound_def FetchCompletedRound_def FetchCheckpoint_def
        RoundConfirmationWrapper_SetStore_def WrapRoundConfirmation_def RoundWrapper_SetStore_def WrapRound_def
        WrapCheckpoint_def CheckpointWrapper_AddBlockRequests_def ref_get_def ref_world_def ref_round_def
        drop_inflight_def fun_eq_iff)
qed

section \<open>Properties\<close>

lemma follower: "bls_scheme K \<Longrightarrow> round_store L \<Longrightarrow> round_follower K L"
  by (rule round_follower.intro)

lemma reached:
  assumes "bls_scheme K" "round_store L" "verKeys ng = Ok vks"
    and rs: "rs = start_loop C K L msgs (newRoundSubscriber L ng st)"
  shows "round_follower.rs_inv K L C vks rs" "heights_ok rs" "rs_group rs = ng"
  unfolding rs using round_follower.start_loop_ok [OF follower [OF assms(1,2)] assms(3)] by blast+

lemma isQuorum_nat:
  assumes "length (sig_Signers s) < 2 ^ 64"
  shows "isQuorum ng s \<longleftrightarrow> unat (QuorumCount ng) \<le> SignerCount s"
proof -
  have "SignerCount s \<le> length (sig_Signers s)" by (simp add: SignerCount_eq)
  then show ?thesis using assms by (simp add: isQuorum_def word_le_nat_alt unat_of_nat)
qed

text \<open>C22: the current round is a confirmed round. However messages and network behave, whenever the
  subscriber has a current confirmation, at least a quorum of the group has signed it and
  its signature, over its round CID, verifies against the keys of those who signed; what it
  has fetched for it is what the CIDs name. What is still in flight is short of a
  quorum and strictly above the current height.\<close>

theorem current_has_quorum:
  assumes "bls_scheme K" "round_store L" "verKeys ng = Ok vks" "length vks < 2 ^ 64"
    and "rs = start_loop C K L msgs (newRoundSubscriber L ng st)"
  shows "(\<forall>cur. Current rs = Some cur \<longrightarrow>
      (let conf = RoundConfirmationWrapper_Value cur; sig = rc_Signature conf in
       unat (QuorumCount ng) \<le> SignerCount sig \<and> length (sig_Signers sig) = length vks \<and>
       dedis_Verify K (dedis_AggregatePublicKeys K (gathered vks (sig_Signers sig))) (rc_RoundCid conf) (sig_Signature sig) = Ok () \<and>
       linked L cur)) \<and>
    (\<forall>h cs c conf. rs_inflight rs h = Some cs \<longrightarrow> cs c = Some conf \<longrightarrow>
       SignerCount (rc_Signature conf) < unat (QuorumCount ng) \<and> rc_Height conf = h \<and>
       (\<forall>cur. Current rs = Some cur \<longrightarrow> RoundConfirmationWrapper_Height cur < h))"
proof -
  note f = follower [OF assms(1,2)]
  note defs = round_follower.rs_inv_def [OF f] round_follower.set_ok_def [OF f] round_follower.confirmed_def [OF f]
    bls_scheme.endorsed_def [OF assms(1)] bls_scheme.well_keyed_def [OF assms(1)] verifies_def
  have inv: "round_follower.rs_inv K L C vks rs" "rs_group rs = ng"
    by (rule reached [OF assms(1,2,3,5)])+
  have q: "isQuorum ng s \<longleftrightarrow> unat (QuorumCount ng) \<le> SignerCount s" if "length (sig_Signers s) = length vks" for s
    using isQuorum_nat [of s ng] that assms(4) by simp
  have cur: "\<forall>cur. rs_current rs = Some cur \<longrightarrow> isQuorum ng (rc_Signature (rcw_value cur)) \<and>
      length (sig_Signers (rc_Signature (rcw_value cur))) = length vks \<and>
      dedis_Verify K (dedis_AggregatePublicKeys K (gathered vks (sig_Signers (rc_Signature (rcw_value cur)))))
        (rc_RoundCid (rcw_value cur)) (sig_Signature (rc_Signature (rcw_value cur))) = Ok () \<and> linked L cur"
    using inv(1) unfolding defs inv(2) by blast
  have infl: "\<forall>h cs c conf. rs_inflight rs h = Some cs \<longrightarrow> cs c = Some conf \<longrightarrow> rc_Height conf = h \<and>
      \<not> isQuorum ng (rc_Signature conf) \<and> length (sig_Signers (rc_Signature conf)) = length vks \<and>
      (\<forall>cur. rs_current rs = Some cur \<longrightarrow> RoundConfirmationWrapper_Height cur < h)"
    using inv(1) unfolding defs inv(2) by blast
  from cur infl q show ?thesis
    unfolding Current_def RoundConfirmationWrapper_Value_def Let_def not_le [symmetric] by blast
qed

theorem current_has_quorum_witness:
  "\<exists>cur. Current ref_subscriber = Some cur \<and> rcw_value cur = ref_conf \<and>
     2 \<le> SignerCount (rc_Signature (RoundConfirmationWrapper_Value cur)) \<and> linked (ref_rounds ref_dec) cur"
proof -
  have "length (map sk_verKey ref_keys) < 2 ^ 64" by (simp add: ref_keys_def)
  from current_has_quorum [OF ref_bls.bls_scheme_axioms ref_rounds.round_store_axioms ref_group_keys [of "()"] this ref_subscriber_of_def [of "()"]]
  show ?thesis using ref_handled [of "()"] by (auto simp: Current_def Let_def ref_quorum)
qed

text \<open>C21: every proof a subscription is handed verifies. Take a subscription to a request, made with
  \<^verbatim>\<open>subscribe\<close>, and let it see any of the events a subscriber publishes, with its context
  cancelled at any time: it sends at most one proof; that proof is for its request, and
  \<^verbatim>\<open>proof.Verify\<close> accepts it with the group's quorum and keys.\<close>

theorem delivered_proofs_verify:
  assumes "bls_scheme K" "round_store L" "verKeys ng = Ok vks"
    and "rs = start_loop C K L msgs (newRoundSubscriber L ng st)"
    and "subscribe L rs0 abr w = (Ok s, w')" "is_ok (Cast L (abr_NewTip abr))"
    and "snd ` set evs \<subseteq> set (rs_stream rs)"
  shows "length (as_ch (fold (\<lambda>(ctxDone, vn). notify ctxDone vn) evs s)) \<le> 1 \<and>
    (\<forall>p \<in> set (as_ch (fold (\<lambda>(ctxDone, vn). notify ctxDone vn) evs s)).
       prf_AddBlockRequest p = abr \<and> Verify C K L p (QuorumCount ng) vks = Ok True)"
proof -
  note f = follower [OF assms(1,2)]
  have inv: "round_follower.rs_inv K L C vks rs" "rs_group rs = ng"
    by (rule reached [OF assms(1,2,3,4)])+
  then have ev: "\<forall>(d, vn) \<in> set evs. round_follower.noti_ok K L C ng vks vn"
    using assms(7) by (fastforce simp: round_follower.rs_inv_def [OF f])
  have s: "as_abr s = abr" "hamt_Put L abr = Ok (as_abrCid s)" "\<not> as_isDone s" "as_ch s = []"
    using assms(5) round_store.put_cid [OF assms(2)] by (auto simp: subscribe_def go_ok)
  then have "round_follower.sub_ok K L C ng vks s"
    using assms(6) by (simp add: round_follower.sub_ok_def [OF f])
  from round_follower.sub_ok_fold [OF f ev this] s(1) show ?thesis
    by (auto simp: round_follower.sub_ok_def [OF f])
qed

theorem delivered_proofs_verify_witness:
  "\<exists>s w'. subscribe (ref_rounds ref_dec) (newRoundSubscriber (ref_rounds ref_dec) ref_group ()) ref_abr [] = (Ok s, w') \<and>
     (\<exists>p. as_ch (fold (\<lambda>(ctxDone, vn). notify ctxDone vn) (map (Pair False) (rs_stream ref_subscriber)) s) = [p] \<and>
        Verify ref_crypto ref_kyber (ref_rounds ref_dec) p 2 (map sk_verKey ref_keys) = Ok True)"
proof -
  let ?L = "ref_rounds ref_dec" and ?rs0 = "newRoundSubscriber (ref_rounds ref_dec) ref_group ()"
  let ?evs = "map (Pair False) (rs_stream ref_subscriber)"
  let ?s = "\<lparr>as_abr = ref_abr, as_abrCid = Cid (enc_abr ref_abr), as_isDone = False, as_ch = []\<rparr>"
  have s: "subscribe ?L ?rs0 ref_abr [] = (Ok ?s, [enc_abr ref_abr])"
    by (simp add: subscribe_def newRoundSubscriber_def DagStoreToCborIpld_def AddBlock_def NewStore_def
        ref_rounds_def eff_defs Let_def)
  obtain p where p: "as_ch (fold (\<lambda>(ctxDone, vn). notify ctxDone vn) ?evs ?s) = [p]"
    using ref_handled [of "()"] by (auto simp: notify_def vn_includes_def Let_def)
  have "is_ok (Cast ?L (abr_NewTip ref_abr))" "snd ` set ?evs \<subseteq> set (rs_stream ref_subscriber)" by auto
  from delivered_proofs_verify [OF ref_bls.bls_scheme_axioms ref_rounds.round_store_axioms ref_group_keys [of "()"]
      ref_subscriber_of_def [of "()"] s this] p s show ?thesis by (auto simp: ref_quorum)
qed

text \<open>C24: rounds are published in order and once. The heights of the published events grow strictly
  and never exceed the current height; a message whose height is not above the current
  one is refused with its error and changes nothing.\<close>

theorem rounds_in_order:
  assumes "bls_scheme K" "round_store L" "verKeys ng = Ok vks"
    and "rs = start_loop C K L msgs (newRoundSubscriber L ng st)"
  shows "sorted_wrt (<) (map event_height (rs_stream rs)) \<and>
    (\<forall>vn \<in> set (rs_stream rs). \<exists>cur. Current rs = Some cur \<and> event_height vn \<le> RoundConfirmationWrapper_Height cur) \<and>
    (\<forall>cur bits conf w. Current rs = Some cur \<longrightarrow> decode_RoundConfirmation L bits = Ok conf \<longrightarrow>
       rc_Height conf \<le> RoundConfirmationWrapper_Height cur \<longrightarrow>
       handleMessage C K L w bits rs = (Fail stale_height, rs))"
  using reached(2) [OF assms] round_follower.handleMessage_stale [OF follower [OF assms(1,2)]]
  unfolding heights_ok_def Current_def by blast

theorem rounds_in_order_witness:
  "map event_height (rs_stream ref_subscriber) \<noteq> [] \<and> sorted_wrt (<) (map event_height (rs_stream ref_subscriber)) \<and>
   handleMessage ref_crypto ref_kyber (ref_rounds ref_dec) [] [1] ref_subscriber = (Fail stale_height, ref_subscriber)"
proof -
  obtain cur where cur: "Current ref_subscriber = Some cur" "rcw_value cur = ref_conf" "rs_stream ref_subscriber \<noteq> []"
    using ref_handled [of "()"] by (auto simp: Current_def)
  have "decode_RoundConfirmation (ref_rounds ref_dec) [1] = Ok ref_conf" by (simp add: ref_dec_def)
  with rounds_in_order [OF ref_bls.bls_scheme_axioms ref_rounds.round_store_axioms ref_group_keys [of "()"] ref_subscriber_of_def [of "()"]] cur
  show ?thesis by (simp add: RoundConfirmationWrapper_Height_def)
qed

text \<open>C23: a quorum gets through. If distinct members enough for a quorum each sign the CID of a round
  with \<^verbatim>\<open>BLSSign\<close> and publish their confirmations at one height, then after the subscriber has
  handled these messages, in any order, repeated or not, and whatever the network answers to
  its fetches, that round is its current round.\<close>

theorem quorum_becomes_current:
  assumes "bls_scheme K" "round_store L" "verKeys ng = Ok (map sk_verKey keys)" "is_ok (Cast L m)"
    and "\<forall>key \<in> set keys. sk_verKey key = \<lparr>vk_value = bytes_or_nil (Point_MarshalBinary K (Point_Mul K (sk_private key))),
        vk_public = Point_Mul K (sk_private key)\<rparr>"
    and "list_all2 (\<lambda>msg i. \<exists>w bits. msg = (w, Ok bits) \<and> member_message K L keys h m bits i) msgs js"
    and "length msgs < 2 ^ 32" "unat (QuorumCount ng) \<le> card (set js)" "0 < QuorumCount ng"
  shows "\<exists>cur. Current (start_loop C K L msgs (newRoundSubscriber L ng st)) = Some cur \<and>
    RoundConfirmationWrapper_Height cur = h \<and> rc_RoundCid (RoundConfirmationWrapper_Value cur) = m"
proof -
  note f = follower [OF assms(1,2)]
  have "bls_scheme.members K keys" using assms(5) unfolding bls_scheme.members_def [OF assms(1)] .
  moreover obtain c where "Cast L m = Ok c" using assms(4) by (auto simp: is_ok_iff)
  ultimately show ?thesis
    using round_follower.quorum_reached [OF f _ refl assms(3) _ assms(6-9), of c C st]
    unfolding round_follower.current_round_def [OF f] Current_def RoundConfirmationWrapper_Height_def
      RoundConfirmationWrapper_Value_def by blast
qed

definition ref_votes :: "bytes \<Rightarrow> RoundConfirmation res" where
  "ref_votes bits = (if bits = [0] then Ok \<lparr>rc_Height = 4, rc_RoundCid = ref_cid, rc_Signature = ref_signatures ! 0\<rparr>
     else if bits = [2] then Ok \<lparr>rc_Height = 4, rc_RoundCid = ref_cid, rc_Signature = ref_signatures ! 1\<rparr> else dec_error)"

lemma ref_votes_messages:
  "list_all2 (\<lambda>msg i. \<exists>w bits. msg = (w, Ok bits) \<and> member_message ref_kyber (ref_rounds ref_votes) ref_keys 4 ref_cid bits i)
     [([], Ok [2]), ([], Ok [2]), ([], Ok [0])] [2, 2, 0]"
proof -
  have s: "ref_signatures = [ref_signatures ! 0, ref_signatures ! 1]" by (simp add: ref_signatures_def)
  have "member_message ref_kyber (ref_rounds ref_votes) ref_keys 4 ref_cid [0] 0"
    "member_message ref_kyber (ref_rounds ref_votes) ref_keys 4 ref_cid [2] 2"
    using ref_signatures_signed by (subst (asm) s; simp add: member_message_def ref_votes_def)+
  then show ?thesis by simp
qed

theorem quorum_becomes_current_witness:
  "\<exists>cur. Current (start_loop ref_crypto ref_kyber (ref_rounds ref_votes) [([], Ok [2]), ([], Ok [2]), ([], Ok [0])]
       (newRoundSubscriber (ref_rounds ref_votes) ref_group ())) = Some cur \<and>
     RoundConfirmationWrapper_Height cur = 4 \<and> rc_RoundCid (RoundConfirmationWrapper_Value cur) = ref_cid"
  by (rule quorum_becomes_current [OF ref_bls.bls_scheme_axioms ref_rounds.round_store_axioms ref_group_keys [of "()"] _
        ref_keys_members ref_votes_messages])
    (simp_all add: ref_quorum)

text \<open>C25: the height of a confirmation is not protected by its signature. Take any message that passes the subscriber's checks, of one
  member or of many, and change nothing but its height, to any other. At or below the current height it is refused as stale. At any other height it passes the
  same checks, and counts there: the subscriber takes it up as the first of its round at that height, or adds its signature to what it has of that round at that
  height; if that is short of a quorum it is kept in flight there, and if it is a quorum, that height becomes the current one and from then on
  every message at or below it is refused (with the largest height, every message). What is in flight at a height is assumed to say that height, as it
  does in every state that messages lead to.\<close>

theorem height_not_signed:
  assumes "bls_scheme K" "round_store L"
    and "check_confirmation C K L bits rs = Ok conf'" "decode_RoundConfirmation L bits = Ok conf"
    and "decode_RoundConfirmation L bits' = Ok (conf\<lparr>rc_Height := h\<rparr>)"
    and "\<forall>cs c old. rs_inflight rs h = Some cs \<longrightarrow> cs c = Some old \<longrightarrow> rc_Height old = h"
  shows "if \<exists>cur. Current rs = Some cur \<and> h \<le> RoundConfirmationWrapper_Height cur
    then handleMessage C K L w bits' rs = (Fail stale_height, rs)
    else check_confirmation C K L bits' rs = Ok (conf'\<lparr>rc_Height := h\<rparr>) \<and>
      (let cs = (case rs_inflight rs h of None \<Rightarrow> Map.empty | Some cs \<Rightarrow> cs) in
       \<forall>c upd. Cast L (rc_RoundCid conf) = Ok c \<longrightarrow>
         cs c = None \<and> upd = conf'\<lparr>rc_Height := h\<rparr> \<or>
           (\<exists>old sig. cs c = Some old \<and> AggregateBLSSignatures K [rc_Signature old, rc_Signature conf'] = Ok sig \<and>
              upd = old\<lparr>rc_Signature := sig\<rparr>) \<longrightarrow>
         (if isQuorum (rs_group rs) (rc_Signature upd)
          then \<exists>r rs' cur. handleMessage C K L w bits' rs = (r, rs') \<and> Current rs' = Some cur \<and>
            RoundConfirmationWrapper_Value cur = upd \<and> RoundConfirmationWrapper_Height cur = h \<and>
            (\<forall>w'' bits'' conf''. decode_RoundConfirmation L bits'' = Ok conf'' \<longrightarrow> rc_Height conf'' \<le> h \<longrightarrow>
               handleMessage C K L w'' bits'' rs' = (Fail stale_height, rs'))
          else handleMessage C K L w bits' rs = (Ok (), rs\<lparr>rs_inflight := (rs_inflight rs)(h \<mapsto> cs(c \<mapsto> upd))\<rparr>)))"
proof (cases "\<exists>cur. Current rs = Some cur \<and> h \<le> RoundConfirmationWrapper_Height cur")
  case True
  then show ?thesis
    using round_follower.handleMessage_stale [OF follower [OF assms(1,2)] _ assms(5)] by (auto simp: Current_def)
next
  case False
  note f = follower [OF assms(1,2)]
  have chk: "check_confirmation C K L bits' rs = Ok (conf'\<lparr>rc_Height := h\<rparr>)" and cid: "rc_RoundCid conf' = rc_RoundCid conf"
    using round_follower.check_other_height [OF f assms(3-5)] False by (auto simp: Current_def not_le)
  let ?cs = "case rs_inflight rs h of None \<Rightarrow> Map.empty | Some cs \<Rightarrow> cs"
  show ?thesis
    unfolding if_not_P [OF False] Let_def
  proof (intro conjI allI impI chk)
    fix c upd
    assume c: "Cast L (rc_RoundCid conf) = Ok c"
      and upd: "?cs c = None \<and> upd = conf'\<lparr>rc_Height := h\<rparr> \<or>
           (\<exists>old sig. ?cs c = Some old \<and> AggregateBLSSignatures K [rc_Signature old, rc_Signature conf'] = Ok sig \<and>
              upd = old\<lparr>rc_Signature := sig\<rparr>)"
    let ?rs1 = "rs\<lparr>rs_inflight := (rs_inflight rs)(h \<mapsto> ?cs(c \<mapsto> upd))\<rparr>"
    have run: "handleMessage C K L w bits' rs = (if isQuorum (rs_group rs) (rc_Signature upd)
        then ewrapf ''error handling quorum: %w'' (handleQuorum L w upd) ?rs1 else (Ok (), ?rs1))"
      using round_follower.added_message [OF f chk, of c ?cs upd w] c upd cid by (simp add: Let_def)
    obtain r rs' where q: "handleQuorum L w upd ?rs1 = (r, rs')" by fastforce
    obtain cur where cur: "rs_current rs' = Some cur" "rcw_value cur = upd"
      using round_follower.handleQuorum_effect [OF f q] by blast
    moreover have "rc_Height upd = h" using upd assms(6) by (auto split: option.splits)
    ultimately show "if isQuorum (rs_group rs) (rc_Signature upd)
          then \<exists>r rs' cur. handleMessage C K L w bits' rs = (r, rs') \<and> Current rs' = Some cur \<and>
            RoundConfirmationWrapper_Value cur = upd \<and> RoundConfirmationWrapper_Height cur = h \<and>
            (\<forall>w'' bits'' conf''. decode_RoundConfirmation L bits'' = Ok conf'' \<longrightarrow> rc_Height conf'' \<le> h \<longrightarrow>
               handleMessage C K L w'' bits'' rs' = (Fail stale_height, rs'))
          else handleMessage C K L w bits' rs = (Ok (), ?rs1)"
      using run q round_follower.handleMessage_stale [OF f cur(1)]
      by (auto simp: ewrapf_def Current_def RoundConfirmationWrapper_Height_def RoundConfirmationWrapper_Value_def)
  qed
qed

definition ref_forged :: "bytes \<Rightarrow> RoundConfirmation res" where
  "ref_forged bits = (if bits = [1] then Ok ref_conf else Ok (ref_conf\<lparr>rc_Height := 0xFFFFFFFFFFFFFFFF\<rparr>))"

theorem height_not_signed_witness:
  "\<exists>rs'. snd (handleMessage ref_crypto ref_kyber (ref_rounds ref_forged) [] [2]
        (newRoundSubscriber (ref_rounds ref_forged) ref_group ())) = rs' \<and>
     handleMessage ref_crypto ref_kyber (ref_rounds ref_forged) [] [1] rs' = (Fail stale_height, rs')"
proof -
  let ?L = "ref_rounds ref_forged" and ?rs = "newRoundSubscriber (ref_rounds ref_forged) ref_group ()"
  have chk: "check_confirmation ref_crypto ref_kyber ?L [1] ?rs = Ok ref_conf"
    by (simp add: check_confirmation_def pubsubMessageToRoundConfirmation_def ref_forged_def newRoundSubscriber_def
        ref_group_keys [of "()"] ref_signature ref_links signature_invalid_def)
  have dec: "decode_RoundConfirmation ?L [1] = Ok ref_conf"
    "decode_RoundConfirmation ?L [2] = Ok (ref_conf\<lparr>rc_Height := 0xFFFFFFFFFFFFFFFF\<rparr>)" by (simp_all add: ref_forged_def)
  have h: "rc_Height ref_conf \<le> 0xFFFFFFFFFFFFFFFF" by (simp add: ref_proof_def)
  have q: "isQuorum (rs_group ?rs) (rc_Signature ref_conf)" "rs_inflight ?rs = Map.empty" "Current ?rs = None"
    using ref_is_quorum [of "()"] by (simp_all add: newRoundSubscriber_def Current_def)
  obtain c where "Cast ?L (rc_RoundCid ref_conf) = Ok c" by simp
  with height_not_signed [OF ref_bls.bls_scheme_axioms ref_rounds.round_store_axioms chk dec, of "[]"] q
  obtain r rs' where "handleMessage ref_crypto ref_kyber ?L [] [2] ?rs = (r, rs')"
    "handleMessage ref_crypto ref_kyber ?L [] [1] rs' = (Fail stale_height, rs')" using dec(1) h by (auto simp: Let_def)
  then show ?thesis by simp
qed

text \<open>A round that cannot be fetched is lost. When a quorum is reached but the round's node is not
  in the store at that moment, the error is reported and nothing is published, yet the round
  is current; so neither the message that completed it nor any other of its height is ever
  handled again, and its subscribers are never told.\<close>

theorem unfetched_round_is_lost:
  assumes "bls_scheme K" "round_store L"
    and "check_confirmation C K L bits rs = Ok conf" "isQuorum (rs_group rs) (rc_Signature conf)"
    and "rs_inflight rs (rc_Height conf) = None" "Cast L (rc_RoundCid conf) = Ok c"
    and "store_Get L (rs_dagStore rs) c w = Fail e"
  shows "\<exists>e' rs' cur. handleMessage C K L w bits rs = (Fail e', rs') \<and> rs_stream rs' = rs_stream rs \<and>
    Current rs' = Some cur \<and> RoundConfirmationWrapper_Value cur = conf \<and>
    (\<forall>w'' bits'' conf''. decode_RoundConfirmation L bits'' = Ok conf'' \<longrightarrow> rc_Height conf'' = rc_Height conf \<longrightarrow>
       handleMessage C K L w'' bits'' rs' = (Fail stale_height, rs'))"
proof -
  note f = follower [OF assms(1,2)]
  let ?rs1 = "rs\<lparr>rs_inflight := (rs_inflight rs)(rc_Height conf \<mapsto> [c \<mapsto> conf])\<rparr>"
  obtain r rs' where q: "handleQuorum L w conf ?rs1 = (r, rs')" by fastforce
  have run: "handleMessage C K L w bits rs = (wrapf ''error handling quorum: %w'' r, rs')"
    using round_follower.quorum_message [OF f assms(3,5,6,4), of w] q by (simp add: ewrapf_def)
  have "\<exists>e'. r = Fail e'"
    using q assms(6,7)
    by (auto simp: handleQuorum_def Let_def eff_defs on_current_def FetchCompletedRound_def
        RoundConfirmationWrapper_SetStore_def WrapRoundConfirmation_def)
  moreover obtain cur where cur: "rs_current rs' = Some cur" "rcw_value cur = conf"
    using round_follower.handleQuorum_effect [OF f q] by auto
  moreover have "r = Ok () \<or> rs_stream rs' = rs_stream rs"
    using round_follower.handleQuorum_effect [OF f q] by (auto split: if_splits)
  moreover have "handleMessage C K L w'' bits'' rs' = (Fail stale_height, rs')"
    if "decode_RoundConfirmation L bits'' = Ok conf''" "rc_Height conf'' = rc_Height conf" for w'' bits'' conf''
    using round_follower.handleMessage_stale [OF f cur(1) that(1)] that(2) cur(2)
    by (simp add: RoundConfirmationWrapper_Height_def)
  ultimately show ?thesis
    using run by (auto simp: Current_def RoundConfirmationWrapper_Value_def)
qed

theorem unfetched_round_is_lost_witness:
  "\<exists>e' rs'. handleMessage ref_crypto ref_kyber (ref_rounds ref_dec) [] [1]
       (newRoundSubscriber (ref_rounds ref_dec) ref_group ()) = (Fail e', rs') \<and> rs_stream rs' = [] \<and>
     handleMessage ref_crypto ref_kyber (ref_rounds ref_dec) ref_world [1] rs' = (Fail stale_height, rs')"
proof -
  let ?L = "ref_rounds ref_dec" and ?rs = "newRoundSubscriber (ref_rounds ref_dec) ref_group ()"
  have new: "isQuorum (rs_group ?rs) (rc_Signature ref_conf)" "rs_inflight ?rs (rc_Height ref_conf) = None" "rs_stream ?rs = []"
    using ref_is_quorum [of "()"] by (simp_all add: newRoundSubscriber_def)
  have c: "Cast ?L (rc_RoundCid ref_conf) = Ok (Cid ref_cid)"
    and miss: "store_Get ?L (rs_dagStore ?rs) (Cid ref_cid) [] = Fail (LibErr ''not found'')"
    by (simp_all add: ref_proof_def ref_get_def)
  have "decode_RoundConfirmation ?L [1] = Ok ref_conf" by (simp add: ref_dec_def)
  with unfetched_round_is_lost [OF ref_bls.bls_scheme_axioms ref_rounds.round_store_axioms ref_checked [of "()"] new(1,2) c miss] new(3)
  show ?thesis by auto
qed

end
