(* ===== verification/Blocks.thy ===== *)
theory Blocks
  imports Signature_Laws Token_Names "HOL-Library.AList"
begin

unbundle bit_operations_syntax

text \<open>
  \<^verbatim>\<open>src/consensus/consensus.go\<close> and \<^verbatim>\<open>types.go\<close>: maps of signatures, the hash of a block, signing a
  block and checking who signed it, the empty tree, and keys from passphrases. Wrapping,
  multihashes and the conversion of dynamic headers (\<^verbatim>\<open>safewrap\<close>, \<^verbatim>\<open>go-cid\<close>, \<^verbatim>\<open>typecaster\<close>)
  and the key derivation functions are parameters.
\<close>

section \<open>Maps of signatures\<close>

text \<open>
  A Go map, as the list of its entries in the order a \<^verbatim>\<open>range\<close> loop visits them, each key once;
  \<^verbatim>\<open>m[k] = v\<close> is \<^verbatim>\<open>AList.update\<close>.
\<close>

type_synonym SignatureMap = "(string \<times> Signature) list"

fun put_all :: "SignatureMap \<Rightarrow> SignatureMap \<Rightarrow> SignatureMap" where
  "put_all newSm [] = newSm"
| "put_all newSm ((k, v) # sm) = put_all (AList.update k v newSm) sm"

definition Merge :: "SignatureMap \<Rightarrow> SignatureMap \<Rightarrow> SignatureMap" where
  "Merge sm other = put_all (put_all [] sm) other"

fun Subtract_loop :: "SignatureMap \<Rightarrow> SignatureMap \<Rightarrow> SignatureMap \<Rightarrow> SignatureMap" where
  "Subtract_loop other newSm [] = newSm"
| "Subtract_loop other newSm ((k, v) # sm) =
     Subtract_loop other (if map_of other k = None then AList.update k v newSm else newSm) sm"

definition Subtract :: "SignatureMap \<Rightarrow> SignatureMap \<Rightarrow> SignatureMap" where
  "Subtract sm other = Subtract_loop other [] sm"

fun Only_loop :: "SignatureMap \<Rightarrow> SignatureMap \<Rightarrow> string list \<Rightarrow> SignatureMap" where
  "Only_loop sm newSm [] = newSm"
| "Only_loop sm newSm (key # keys) =
     Only_loop sm (case map_of sm key of Some v \<Rightarrow> AList.update key v newSm | None \<Rightarrow> newSm) keys"

definition Only :: "SignatureMap \<Rightarrow> string list \<Rightarrow> SignatureMap" where
  "Only sm keys = Only_loop sm [] keys"

record StandardHeaders =
  sh_Signatures :: "SignatureMap option"

section \<open>Blocks\<close>

record Block =
  blk_Height :: u64
  blk_PreviousTip :: "cid option"
  blk_Transactions :: "Transaction list"

record BlockWithHeaders =
  bwh_Block :: Block
  bwh_Headers :: goval

record block_lib =
  sw_WrapBlock :: "Block \<Rightarrow> node res"
  cid_Hash :: "cid \<Rightarrow> bytes"
  ToStandardHeaders :: "goval \<Rightarrow> StandardHeaders res"
  FromStandardHeaders :: "StandardHeaders \<Rightarrow> goval res"

definition ObjToHash :: "block_lib \<Rightarrow> node res \<Rightarrow> bytes res" where
  "ObjToHash B wrapped =
     rbind (wrapf ''error wrapping block: %v'' wrapped) (\<lambda>wrapped.
     let hsh = cid_Hash B (node_Cid wrapped) in
     if length hsh < 2 then Panic ''slice bounds out of range'' else Ok (drop 2 hsh))"

definition MustObjToHash :: "block_lib \<Rightarrow> node res \<Rightarrow> bytes res" where
  "MustObjToHash B wrapped =
     (case ObjToHash B wrapped of Ok hsh \<Rightarrow> Ok hsh | Fail e \<Rightarrow> Panic ''error hashing %v'' | Panic p \<Rightarrow> Panic p)"

definition BlockToHash :: "block_lib \<Rightarrow> Block \<Rightarrow> bytes res" where
  "BlockToHash B block = ObjToHash B (sw_WrapBlock B block)"

definition EcdsaPubkeyToDid :: "('e, 'd, 'sc) crypto_lib \<Rightarrow> 'e \<Rightarrow> string" where
  "EcdsaPubkeyToDid C key = (let keyAddr = Address_String C (PubkeyToAddress C key) in AddrToDid keyAddr)"

text \<open>The address of a key, the signature stored for it, and the signatures of the headers (nil or not).\<close>

definition key_addr :: "('e, 'd, 'sc) crypto_lib \<Rightarrow> 'd \<Rightarrow> string" where
  "key_addr C key = Address_String C (PubkeyToAddress C (ecdsa_Public C key))"

definition ecdsa_sig :: "bytes \<Rightarrow> Signature" where
  "ecdsa_sig sigBytes = \<lparr>sig_Ownership = \<lparr>own_PublicKey = \<lparr>pk_Type = KeyTypeSecp256k1, pk_PublicKey = []\<rparr>,
     own_Conditions = []\<rparr>, sig_Signers = [], sig_Signature = sigBytes, sig_PreImage = []\<rparr>"

definition sigs_of :: "StandardHeaders \<Rightarrow> SignatureMap" where
  "sigs_of headers = (case sh_Signatures headers of None \<Rightarrow> [] | Some m \<Rightarrow> m)"

definition SignBlock ::
  "('e, 'd, 'sc) crypto_lib \<Rightarrow> block_lib \<Rightarrow> BlockWithHeaders \<Rightarrow> 'd \<Rightarrow> BlockWithHeaders res" where
  "SignBlock C B blockWithHeaders key =
     rbind (wrapf ''error hashing block: %v'' (BlockToHash B (bwh_Block blockWithHeaders))) (\<lambda>hsh.
     rbind (wrapf ''error signing: %v'' (crypto_Sign C hsh key)) (\<lambda>sigBytes.
     let addr = key_addr C key; sig = ecdsa_sig sigBytes in
     rbind (wrapf ''error casting headers: %v'' (ToStandardHeaders B (bwh_Headers blockWithHeaders))) (\<lambda>headers.
     let headers = headers\<lparr>sh_Signatures := Some (AList.update addr sig (sigs_of headers))\<rparr> in
     rbind (wrapf ''error casting headers: %v'' (FromStandardHeaders B headers)) (\<lambda>marshaledHeaders.
     Ok (blockWithHeaders\<lparr>bwh_Headers := marshaledHeaders\<rparr>)))))"

definition unsigned_by :: goerr where
  "unsigned_by = Errorf ''unsigned by address %s != %s'' []"

definition IsBlockSignedBy ::
  "('e, 'd, 'sc) crypto_lib \<Rightarrow> ('k, 'p) kyber \<Rightarrow> block_lib \<Rightarrow> BlockWithHeaders \<Rightarrow> string \<Rightarrow> bool res" where
  "IsBlockSignedBy C K B blockWithHeaders addr =
     rbind (if bwh_Headers blockWithHeaders \<noteq> GNil
            then wrapf ''error converting headers: %v'' (ToStandardHeaders B (bwh_Headers blockWithHeaders))
            else Ok \<lparr>sh_Signatures = None\<rparr>) (\<lambda>headers.
     case map_of (sigs_of headers) addr of
       None \<Rightarrow> Ok False
     | Some sig \<Rightarrow>
         rbind (wrapf ''error wrapping block: %v'' (BlockToHash B (bwh_Block blockWithHeaders))) (\<lambda>hsh.
         case pk_Type (own_PublicKey (sig_Ownership sig)) of
           KeyTypeSecp256k1 \<Rightarrow>
             rbind (wrapf ''error restoring public key: %v'' (RestoreEcdsaPublicKey C sig hsh)) (\<lambda>sig.
             rbind (wrapf ''error getting address from signature: %v'' (Address C (sig_Ownership sig))) (\<lambda>sigAddr.
             if Address_String C sigAddr \<noteq> addr then Fail unsigned_by
             else Valid C K sig hsh None))
         | _ \<Rightarrow> Fail (Errorf ''unkown signature type'' [])))"

section \<open>The empty tree\<close>

text \<open>
  \<^verbatim>\<open>dag.NewDagWithNodes\<close> adds the nodes to a store and takes the first as the tip; the nodes are
  wrapped objects. A failed wrap leaves a nil node, and its \<^verbatim>\<open>Cid()\<close> or the check of \<^verbatim>\<open>sw.Err\<close>
  panics; a failure of the store panics as well.
\<close>

record 's tree_lib =
  sw_WrapValue :: "goval \<Rightarrow> node res"
  NewDagWithNodes :: "node list \<Rightarrow> ('s, cid) eff"

definition must :: "'a res \<Rightarrow> 'a res" where
  "must r = (case r of Ok x \<Rightarrow> Ok x | Fail e \<Rightarrow> Panic ''error'' | Panic p \<Rightarrow> Panic p)"

definition NewEmptyTree :: "'s tree_lib \<Rightarrow> string \<Rightarrow> ('s, cid) eff" where
  "NewEmptyTree T did =
     ebind (elift (must (sw_WrapValue T (GMap [])))) (\<lambda>treeNode.
     ebind (elift (must (sw_WrapValue T (GMap [])))) (\<lambda>chainNode.
     ebind (elift (must (sw_WrapValue T (GMap [(''chain'', GCid (node_Cid chainNode)),
         (''tree'', GCid (node_Cid treeNode)), (''id'', GString did)])))) (\<lambda>root.
     (\<lambda>s. case NewDagWithNodes T [root, treeNode, chainNode] s of (r, s') \<Rightarrow> (must r, s')))))"

section \<open>Keys from passphrases\<close>

record 'd kdf_lib =
  sha256_Sum256 :: "bytes \<Rightarrow> bytes"
  scrypt_Key :: "bytes \<Rightarrow> bytes \<Rightarrow> nat \<Rightarrow> nat \<Rightarrow> nat \<Rightarrow> nat \<Rightarrow> bytes res"
  pbkdf2_Key :: "bytes \<Rightarrow> bytes \<Rightarrow> nat \<Rightarrow> nat \<Rightarrow> bytes"
  ToECDSA :: "bytes \<Rightarrow> 'd res"

fun safeXORBytes_loop :: "bytes \<Rightarrow> bytes \<Rightarrow> bytes \<Rightarrow> nat \<Rightarrow> nat \<Rightarrow> bytes res" where
  "safeXORBytes_loop dst a b i 0 = Ok dst"
| "safeXORBytes_loop dst a b i (Suc left) =
     (if i < length a \<and> i < length b \<and> i < length dst
      then safeXORBytes_loop (dst[i := a ! i XOR b ! i]) a b (Suc i) left
      else Panic ''index out of range'')"

definition safeXORBytes :: "bytes \<Rightarrow> bytes \<Rightarrow> bytes \<Rightarrow> nat \<Rightarrow> bytes res" where
  "safeXORBytes dst a b n = safeXORBytes_loop dst a b 0 n"

definition no_passphrase :: goerr where
  "no_passphrase = Errorf ''error, must specify a passPhrase'' []"

definition PassPhraseKey :: "'d kdf_lib \<Rightarrow> bytes \<Rightarrow> bytes \<Rightarrow> 'd res" where
  "PassPhraseKey H passPhrase salt =
     (if length passPhrase = 0 then Fail no_passphrase
      else
        let (firstSalt, secondSalt) =
          (if length salt = 0 then ([1], [2])
           else let hashedSalt = sha256_Sum256 H salt in (hashedSalt, hashedSalt)) in
        rbind (wrapf ''error running scyrpt: %v'' (scrypt_Key H passPhrase firstSalt 256 8 1 32)) (\<lambda>s1.
        let s2 = pbkdf2_Key H passPhrase secondSalt 216 32; dst = replicate 32 0 in
        rbind (safeXORBytes dst s1 s2 32) (\<lambda>dst.
        ToECDSA H dst)))"

section \<open>Facts about maps\<close>

lemma map_of_put_all: "distinct (map fst sm) \<Longrightarrow> map_of (put_all acc sm) = map_of acc ++ map_of sm"
proof (induction acc sm rule: put_all.induct)
  case (2 newSm k v sm)
  then have "map_of sm k = None" by (simp add: map_of_eq_None_iff)
  with 2 show ?case by (auto simp: update_conv' map_add_def fun_eq_iff split: option.splits)
qed simp

lemma distinct_put_all: "distinct (map fst acc) \<Longrightarrow> distinct (map fst (put_all acc sm))"
  by (induction acc sm rule: put_all.induct) (auto simp: distinct_update)

lemma map_of_Subtract_loop:
  "distinct (map fst sm) \<Longrightarrow>
     map_of (Subtract_loop other acc sm) = map_of acc ++ (map_of sm |` (- dom (map_of other)))"
proof (induction other acc sm rule: Subtract_loop.induct)
  case (2 other newSm k v sm)
  then have "map_of sm k = None" by (simp add: map_of_eq_None_iff)
  with 2 show ?case
    by (auto simp: update_conv' map_add_def restrict_map_def fun_eq_iff dom_def split: option.splits)
qed auto

lemma distinct_Subtract: "distinct (map fst (Subtract sm other))"
proof -
  have "distinct (map fst acc) \<Longrightarrow> distinct (map fst (Subtract_loop other acc sm))" for acc
    by (induction other acc sm rule: Subtract_loop.induct) (auto simp: distinct_update)
  then show ?thesis by (simp add: Subtract_def)
qed

lemma distinct_Only: "distinct (map fst (Only sm keys))"
proof -
  have "distinct (map fst acc) \<Longrightarrow> distinct (map fst (Only_loop sm acc keys))" for acc
    by (induction sm acc keys rule: Only_loop.induct) (auto simp: distinct_update split: option.splits)
  then show ?thesis by (simp add: Only_def)
qed

lemma map_of_Only_loop:
  "map_of (Only_loop sm acc keys) = map_of acc ++ (map_of sm |` set keys)"
proof (induction keys arbitrary: acc)
  case (Cons key keys)
  then show ?case
    by (auto simp: update_conv' map_add_def restrict_map_def fun_eq_iff split: option.splits)
qed simp

lemma safeXORBytes_eq:
  assumes "n \<le> length a" "n \<le> length b" "n \<le> length dst"
  shows "safeXORBytes dst a b n = Ok (map2 (XOR) (take n a) (take n b) @ drop n dst)"
proof -
  have "safeXORBytes_loop dst a b i k = Ok (take i dst @ map2 (XOR) (take k (drop i a)) (take k (drop i b)) @ drop (i + k) dst)"
    if "i + k \<le> length a" "i + k \<le> length b" "i + k \<le> length dst" for i k dst
    using that
  proof (induction k arbitrary: i dst)
    case (Suc k)
    have "take (Suc i) (dst[i := a ! i XOR b ! i]) = take i dst @ [a ! i XOR b ! i]"
      using Suc.prems(3) by (simp add: take_Suc_conv_app_nth)
    moreover have "drop i a = a ! i # drop (Suc i) a" "drop i b = b ! i # drop (Suc i) b"
      using Suc.prems by (simp_all add: Cons_nth_drop_Suc)
    ultimately show ?case using Suc by simp
  qed simp
  from this [of 0 n dst] assms show ?thesis by (simp add: safeXORBytes_def)
qed

section \<open>Signed blocks\<close>

text \<open>
  What the sources rely on: a signature's public key can be recovered from it and it
  verifies with that key (the last byte of a signature is the recovery id); keys survive
  their encoding; and headers survive their conversion.
\<close>

locale ecdsa_scheme =
  fixes C :: "('e, 'd, 'sc) crypto_lib"
  assumes recover: "crypto_Sign C h key = Ok s \<Longrightarrow> SigToPub C h s = Ok (ecdsa_Public C key)"
    and sign_ne: "crypto_Sign C h key = Ok s \<Longrightarrow> s \<noteq> []"
    and verify: "crypto_Sign C h key = Ok s \<Longrightarrow>
      VerifySignature C (FromECDSAPub C (ecdsa_Public C key)) h (take (length s - 1) s)"
    and unmarshal: "UnmarshalPubkey C (FromECDSAPub C e) = Ok e"
    and pub_ne: "FromECDSAPub C e \<noteq> []"

locale header_codec =
  fixes B :: block_lib
  assumes headers_roundtrip: "FromStandardHeaders B hs = Ok v \<Longrightarrow> sh_Signatures hs = Some m \<Longrightarrow> m \<noteq> [] \<Longrightarrow>
      v \<noteq> GNil \<and> ToStandardHeaders B v = Ok hs"

locale block_signing = ecdsa_scheme C + header_codec B
  for C :: "('e, 'd, 'sc) crypto_lib" and B :: block_lib
begin

lemma restored_signature:
  assumes "crypto_Sign C h key = Ok s"
  shows "\<exists>sig'. RestoreEcdsaPublicKey C (ecdsa_sig s) h = Ok sig' \<and>
    Address C (sig_Ownership sig') = Ok (PubkeyToAddress C (ecdsa_Public C key)) \<and> Valid C K sig' h scope = Ok True"
  using recover [OF assms] sign_ne [OF assms] verify [OF assms] unmarshal pub_ne
  by (auto simp: RestoreEcdsaPublicKey_def set_PublicKey_def Address_def Valid_def validConditions_def ecdsa_sig_def)

lemma SignBlock_Ok:
  assumes "SignBlock C B b key = Ok b'"
  obtains h s hs hs' where "BlockToHash B (bwh_Block b) = Ok h" "crypto_Sign C h key = Ok s"
    "bwh_Block b' = bwh_Block b" "ToStandardHeaders B (bwh_Headers b) = Ok hs" "bwh_Headers b' \<noteq> GNil"
    "ToStandardHeaders B (bwh_Headers b') = Ok hs'"
    "sigs_of hs' = AList.update (key_addr C key) (ecdsa_sig s) (sigs_of hs)"
proof -
  obtain h s hs v where h: "BlockToHash B (bwh_Block b) = Ok h" "crypto_Sign C h key = Ok s"
      "ToStandardHeaders B (bwh_Headers b) = Ok hs"
    and v: "FromStandardHeaders B (hs\<lparr>sh_Signatures := Some (AList.update (key_addr C key) (ecdsa_sig s) (sigs_of hs))\<rparr>) = Ok v"
    and b': "b' = b\<lparr>bwh_Headers := v\<rparr>"
    using assms by (auto simp: SignBlock_def Let_def rbind_Ok_iff)
  from headers_roundtrip [OF v] have "v \<noteq> GNil" "ToStandardHeaders B v =
      Ok (hs\<lparr>sh_Signatures := Some (AList.update (key_addr C key) (ecdsa_sig s) (sigs_of hs))\<rparr>)"
    by (simp_all add: update_nonempty)
  with that [OF h(1,2) _ h(3)] b' show thesis by (simp add: sigs_of_def)
qed

lemma SignBlock_signs:
  assumes "SignBlock C B b key = Ok b'"
  shows "IsBlockSignedBy C K B b' (key_addr C key) = Ok True"
proof -
  obtain h s hs hs' where b': "BlockToHash B (bwh_Block b) = Ok h" "crypto_Sign C h key = Ok s"
    "bwh_Block b' = bwh_Block b" "bwh_Headers b' \<noteq> GNil" "ToStandardHeaders B (bwh_Headers b') = Ok hs'"
    "sigs_of hs' = AList.update (key_addr C key) (ecdsa_sig s) (sigs_of hs)"
    using SignBlock_Ok [OF assms] by metis
  obtain sig' where "RestoreEcdsaPublicKey C (ecdsa_sig s) h = Ok sig'"
    "Address C (sig_Ownership sig') = Ok (PubkeyToAddress C (ecdsa_Public C key))" "Valid C K sig' h None = Ok True"
    using restored_signature [OF b'(2)] by blast
  moreover have "pk_Type (own_PublicKey (sig_Ownership (ecdsa_sig s))) = KeyTypeSecp256k1" by (simp add: ecdsa_sig_def)
  ultimately show ?thesis using b' by (simp add: IsBlockSignedBy_def update_conv' key_addr_def)
qed

lemma SignBlock_keeps:
  assumes "SignBlock C B b key = Ok b'" "bwh_Headers b \<noteq> GNil" "addr \<noteq> key_addr C key"
  shows "IsBlockSignedBy C K B b' addr = IsBlockSignedBy C K B b addr"
proof -
  obtain s hs hs' where "bwh_Block b' = bwh_Block b" "ToStandardHeaders B (bwh_Headers b) = Ok hs"
    "bwh_Headers b' \<noteq> GNil" "ToStandardHeaders B (bwh_Headers b') = Ok hs'"
    "sigs_of hs' = AList.update (key_addr C key) (ecdsa_sig s) (sigs_of hs)"
    using SignBlock_Ok [OF assms(1)] by metis
  then show ?thesis using assms(2,3) by (simp add: IsBlockSignedBy_def update_conv' split: option.split)
qed

lemma SignBlock_only:
  assumes "SignBlock C B b key = Ok b'" "ToStandardHeaders B (bwh_Headers b) = Ok hs" "sigs_of hs = []"
  shows "IsBlockSignedBy C K B b' addr = Ok (addr = key_addr C key)"
proof (cases "addr = key_addr C key")
  case True
  then show ?thesis using SignBlock_signs [OF assms(1)] by simp
next
  case False
  obtain s hs' where "bwh_Headers b' \<noteq> GNil" "ToStandardHeaders B (bwh_Headers b') = Ok hs'"
    "sigs_of hs' = AList.update (key_addr C key) (ecdsa_sig s) (sigs_of hs)"
    using SignBlock_Ok [OF assms(1)] assms(2) by (metis res.inject(1))
  then show ?thesis using False assms(3) by (simp add: IsBlockSignedBy_def)
qed

end

lemma sigs_of_nil [simp]: "sigs_of \<lparr>sh_Signatures = None\<rparr> = []"
  by (simp add: sigs_of_def)

text \<open>What a positive answer of \<^verbatim>\<open>IsBlockSignedBy\<close> rests on.\<close>

definition signed_by_address ::
  "('e, 'd, 'sc) crypto_lib \<Rightarrow> block_lib \<Rightarrow> BlockWithHeaders \<Rightarrow> string \<Rightarrow> bool" where
  "signed_by_address C B b addr \<longleftrightarrow> (\<exists>hs sig h pub a. ToStandardHeaders B (bwh_Headers b) = Ok hs \<and>
     map_of (sigs_of hs) addr = Some sig \<and> BlockToHash B (bwh_Block b) = Ok h \<and>
     SigToPub C h (sig_Signature sig) = Ok pub \<and>
     VerifySignature C (FromECDSAPub C pub) h (take (length (sig_Signature sig) - 1) (sig_Signature sig)) \<and>
     Address_String C a = addr \<and>
     a = (if own_Conditions (sig_Ownership sig) = [] then PubkeyToAddress C pub
          else bytesToAddress C (FromECDSAPub C pub @ bytes_of (own_Conditions (sig_Ownership sig)))))"

lemma IsBlockSignedBy_sound:
  assumes "ecdsa_scheme C" "IsBlockSignedBy C K B b addr = Ok True"
  shows "signed_by_address C B b addr"
proof -
  obtain hs sig where hs: "ToStandardHeaders B (bwh_Headers b) = Ok hs" "map_of (sigs_of hs) addr = Some sig"
      "bwh_Headers b \<noteq> GNil"
    using assms(2) by (auto simp: IsBlockSignedBy_def rbind_Ok_iff split: if_splits option.splits)
  note run = assms(2) [unfolded IsBlockSignedBy_def] hs
  obtain h where h: "BlockToHash B (bwh_Block b) = Ok h" using run by (auto simp: rbind_Ok_iff)
  have type: "pk_Type (own_PublicKey (sig_Ownership sig)) = KeyTypeSecp256k1"
    using run h by (cases "pk_Type (own_PublicKey (sig_Ownership sig))") simp_all
  obtain sig' a where sig': "RestoreEcdsaPublicKey C sig h = Ok sig'" "Address C (sig_Ownership sig') = Ok a"
      "Address_String C a = addr" "Valid C K sig' h None = Ok True"
    using run h type by (auto simp: rbind_Ok_iff split: if_splits)
  obtain pub where pub: "SigToPub C h (sig_Signature sig) = Ok pub" "sig' = set_PublicKey (FromECDSAPub C pub) sig"
    using sig'(1) by (auto simp: RestoreEcdsaPublicKey_def rbind_Ok_iff split: if_splits)
  have "a = (if own_Conditions (sig_Ownership sig) = [] then PubkeyToAddress C pub
      else bytesToAddress C (FromECDSAPub C pub @ bytes_of (own_Conditions (sig_Ownership sig))))"
    using sig'(2) type pub(2) ecdsa_scheme.unmarshal [OF assms(1)]
    by (auto simp: Address_def set_PublicKey_def split: if_splits)
  moreover have "VerifySignature C (FromECDSAPub C pub) h (take (length (sig_Signature sig) - 1) (sig_Signature sig))"
    using sig'(4) type pub(2) by (auto simp: Valid_def set_PublicKey_def rbind_Ok_iff split: if_splits)
  ultimately show ?thesis using hs h pub(1) sig'(3) unfolding signed_by_address_def by blast
qed

section \<open>A reference instance\<close>

text \<open>The header value of \<^verbatim>\<open>ref_blocks\<close> encodes the signature bytes per address.\<close>

definition ref_blocks :: block_lib where
  "ref_blocks = \<lparr>
     sw_WrapBlock = (\<lambda>b. Ok \<lparr>node_Cid = Cid (uint64ToBytes (blk_Height b)), node_RawData = []\<rparr>),
     cid_Hash = (\<lambda>c. [0, 0] @ cid_Bytes c),
     ToStandardHeaders = (\<lambda>v. case v of
         GMap kvs \<Rightarrow> Ok \<lparr>sh_Signatures = Some (map (\<lambda>(k, v). (k, ecdsa_sig (case v of GBytes b \<Rightarrow> b | _ \<Rightarrow> []))) kvs)\<rparr>
       | _ \<Rightarrow> Ok \<lparr>sh_Signatures = None\<rparr>),
     FromStandardHeaders = (\<lambda>hs. let m = sigs_of hs in
       if \<forall>(k, s) \<in> set m. s = ecdsa_sig (sig_Signature s) then Ok (GMap (map (\<lambda>(k, s). (k, GBytes (sig_Signature s))) m))
       else Fail (LibErr ''headers''))\<rparr>"

interpretation ref_signing: block_signing ref_crypto ref_blocks
proof
  fix hs v m
  assume "FromStandardHeaders ref_blocks hs = Ok v" "sh_Signatures hs = Some m" "m \<noteq> []"
  then have m: "v = GMap (map (\<lambda>(k, s). (k, GBytes (sig_Signature s))) m)" "\<forall>(k, s) \<in> set m. s = ecdsa_sig (sig_Signature s)"
    by (auto simp: ref_blocks_def sigs_of_def Let_def split: if_splits)
  have "map ((\<lambda>(k, v). (k, ecdsa_sig (case v of GBytes b \<Rightarrow> b | _ \<Rightarrow> []))) \<circ> (\<lambda>(k, s). (k, GBytes (sig_Signature s)))) m = m"
    using m(2) by (intro map_idI) auto
  then have "ToStandardHeaders ref_blocks v = Ok \<lparr>sh_Signatures = Some m\<rparr>"
    using m(1) by (simp add: ref_blocks_def)
  moreover have "hs = \<lparr>sh_Signatures = Some m\<rparr>" using \<open>sh_Signatures hs = Some m\<close> by (cases hs) simp
  ultimately show "v \<noteq> GNil \<and> ToStandardHeaders ref_blocks v = Ok hs" using m(1) by simp
qed (auto simp: ref_crypto_def butlast_append)

section \<open>Properties\<close>

text \<open>Signing a block is seen by \<^verbatim>\<open>IsBlockSignedBy\<close>. A block that \<^verbatim>\<open>SignBlock\<close> returns has the same
  content and is signed by the address of the key; whoever had signed it before still has,
  whoever had not still has not. And no block is ever taken to be signed by an address without
  a signature in its headers, over the block's hash, that verifies with the key recovered from
  it and whose key (with its conditions) has that address.\<close>

theorem block_signatures:
  assumes "block_signing C B" "SignBlock C B b key = Ok b'"
  shows "bwh_Block b' = bwh_Block b \<and> IsBlockSignedBy C K B b' (key_addr C key) = Ok True \<and>
    (\<forall>addr. addr \<noteq> key_addr C key \<longrightarrow> bwh_Headers b \<noteq> GNil \<longrightarrow>
       IsBlockSignedBy C K B b' addr = IsBlockSignedBy C K B b addr) \<and>
    (\<forall>b'' addr. IsBlockSignedBy C K B b'' addr = Ok True \<longrightarrow> signed_by_address C B b'' addr)"
proof -
  have "bwh_Block b' = bwh_Block b" using assms(2) by (auto simp: SignBlock_def Let_def rbind_Ok_iff)
  moreover have "ecdsa_scheme C" using assms(1) by (simp add: block_signing_def)
  ultimately show ?thesis
    using block_signing.SignBlock_signs [OF assms] block_signing.SignBlock_keeps [OF assms]
    by (auto intro: IsBlockSignedBy_sound)
qed

definition ref_block :: BlockWithHeaders where
  "ref_block = \<lparr>bwh_Block = \<lparr>blk_Height = 0, blk_PreviousTip = None, blk_Transactions = []\<rparr>, bwh_Headers = GNil\<rparr>"

lemma ref_addr: "key_addr ref_crypto [7] = [CHR 0x07]" "key_addr ref_crypto [9] = [CHR 0x09]"
  by (simp_all add: key_addr_def ref_crypto_def char_of_def bit_0)

lemma ref_block_hash: "BlockToHash ref_blocks (bwh_Block b) = Ok (uint64ToBytes (blk_Height (bwh_Block b)))"
  by (simp add: BlockToHash_def ObjToHash_def ref_blocks_def Let_def)

lemma ref_crypto_sign: "crypto_Sign ref_crypto h k = Ok (h @ k @ [0])"
  by (simp add: ref_crypto_def)

lemma ref_headers:
  "ToStandardHeaders ref_blocks GNil = Ok \<lparr>sh_Signatures = None\<rparr>"
  "ToStandardHeaders ref_blocks (GMap [(a, GBytes x)]) = Ok \<lparr>sh_Signatures = Some [(a, ecdsa_sig x)]\<rparr>"
  "FromStandardHeaders ref_blocks \<lparr>sh_Signatures = Some [(a, ecdsa_sig x)]\<rparr> = Ok (GMap [(a, GBytes x)])"
  "FromStandardHeaders ref_blocks \<lparr>sh_Signatures = Some [(a, ecdsa_sig x), (b, ecdsa_sig y)]\<rparr> =
     Ok (GMap [(a, GBytes x), (b, GBytes y)])"
  by (simp_all add: ref_blocks_def sigs_of_def ecdsa_sig_def)

theorem block_signatures_witness:
  "\<exists>b' b''. SignBlock ref_crypto ref_blocks ref_block [7] = Ok b' \<and> SignBlock ref_crypto ref_blocks b' [9] = Ok b'' \<and>
     IsBlockSignedBy ref_crypto ref_kyber ref_blocks b'' (key_addr ref_crypto [7]) = Ok True \<and>
     IsBlockSignedBy ref_crypto ref_kyber ref_blocks b'' (key_addr ref_crypto [9]) = Ok True"
proof -
  let ?h = "uint64ToBytes 0"
  let ?b1 = "ref_block\<lparr>bwh_Headers := GMap [([CHR 0x07], GBytes (?h @ [7, 0]))]\<rparr>"
  let ?b2 = "ref_block\<lparr>bwh_Headers := GMap [([CHR 0x07], GBytes (?h @ [7, 0])), ([CHR 0x09], GBytes (?h @ [9, 0]))]\<rparr>"
  have s1: "SignBlock ref_crypto ref_blocks ref_block [7] = Ok ?b1"
    by (simp add: SignBlock_def ref_block_hash ref_crypto_sign ref_addr Let_def)
      (simp add: ref_block_def ref_headers)
  have s2: "SignBlock ref_crypto ref_blocks ?b1 [9] = Ok ?b2"
    by (simp add: SignBlock_def ref_block_hash ref_crypto_sign ref_addr Let_def)
      (simp add: ref_block_def ref_headers sigs_of_def)
  from block_signatures [OF ref_signing.block_signing_axioms s1, of ref_kyber]
    block_signatures [OF ref_signing.block_signing_axioms s2, of ref_kyber] s1 s2
  show ?thesis by (simp add: ref_addr)
qed

text \<open>The operations on signature maps are those of finite maps, whatever order Go visits the
  entries in: \<^verbatim>\<open>Merge\<close> overrides with the other map, \<^verbatim>\<open>Subtract\<close> keeps the entries whose key the other
  map lacks, \<^verbatim>\<open>Only\<close> restricts to the given keys; the results hold each key once. So a map is
  what is left after subtracting another, merged with what the two share.\<close>

theorem signature_maps:
  assumes "distinct (map fst sm)" "distinct (map fst other)"
  shows "map_of (Merge sm other) = map_of sm ++ map_of other \<and> distinct (map fst (Merge sm other)) \<and>
    map_of (Subtract sm other) = map_of sm |` (- dom (map_of other)) \<and>
    map_of (Only sm keys) = map_of sm |` set keys \<and>
    map_of (Merge (Subtract sm other) (Only sm (map fst other))) = map_of sm"
proof -
  have m: "map_of (Merge a b) = map_of a ++ map_of b" if "distinct (map fst a)" "distinct (map fst b)" for a b
    using map_of_put_all [OF that(1), of "[]"] map_of_put_all [OF that(2)] by (simp add: Merge_def)
  have sub: "map_of (Subtract sm other) = map_of sm |` (- dom (map_of other))"
    using map_of_Subtract_loop [OF assms(1), of other "[]"] by (simp add: Subtract_def)
  have only: "map_of (Only sm keys) = map_of sm |` set keys" for keys
    using map_of_Only_loop [of sm "[]"] by (simp add: Only_def)
  have "distinct (map fst (Subtract sm other))" "distinct (map fst (Only sm (map fst other)))"
    by (simp_all add: distinct_Subtract distinct_Only)
  then have "map_of (Merge (Subtract sm other) (Only sm (map fst other))) = map_of sm"
    by (simp add: m sub only) (auto simp: map_add_def restrict_map_def fun_eq_iff dom_map_of_conv_image_fst split: option.splits)
  then show ?thesis using m [OF assms] sub only distinct_put_all [of "put_all [] sm"] distinct_put_all [of "[]" sm]
    by (simp add: Merge_def)
qed

theorem signature_maps_witness:
  "map_of (Merge [(''a'', ecdsa_sig [1])] [(''a'', ecdsa_sig [2]), (''b'', ecdsa_sig [3])]) ''a'' = Some (ecdsa_sig [2]) \<and>
   map_of (Subtract [(''a'', ecdsa_sig [1])] [(''b'', ecdsa_sig [3])]) ''a'' = Some (ecdsa_sig [1])"
  using signature_maps [of "[(''a'', ecdsa_sig [1])]" "[(''a'', ecdsa_sig [2]), (''b'', ecdsa_sig [3])]"]
    signature_maps [of "[(''a'', ecdsa_sig [1])]" "[(''b'', ecdsa_sig [3])]"]
  by (simp add: map_add_def restrict_map_def dom_def)

text \<open>A key from a passphrase never panics. With derivation functions that return the 32 bytes asked
  of them, \<^verbatim>\<open>PassPhraseKey\<close> refuses an empty passphrase and otherwise makes the key from the exclusive
  or of the two derived strings; with a salt, both are derived from the same hash of it.\<close>

theorem PassPhraseKey_total:
  assumes "\<forall>p s n r q. \<exists>k. scrypt_Key H p s n r q 32 = Ok k \<and> length k = 32"
    and "\<forall>p s n. length (pbkdf2_Key H p s n 32) = 32"
  shows "PassPhraseKey H [] salt = Fail no_passphrase \<and>
    (pass \<noteq> [] \<longrightarrow> (\<exists>k. scrypt_Key H pass (if salt = [] then [1] else sha256_Sum256 H salt) 256 8 1 32 = Ok k \<and>
       PassPhraseKey H pass salt = ToECDSA H (map2 (XOR) k
         (pbkdf2_Key H pass (if salt = [] then [2] else sha256_Sum256 H salt) 216 32))))"
proof -
  obtain k where k: "scrypt_Key H pass (if salt = [] then [1] else sha256_Sum256 H salt) 256 8 1 32 = Ok k" "length k = 32"
    using assms(1) by meson
  let ?s2 = "pbkdf2_Key H pass (if salt = [] then [2] else sha256_Sum256 H salt) 216 32"
  have "safeXORBytes (replicate 32 0) k ?s2 32 = Ok (map2 (XOR) k ?s2)"
    using k(2) assms(2) by (simp add: safeXORBytes_eq)
  with k show ?thesis by (auto simp: PassPhraseKey_def Let_def)
qed

definition ref_kdf :: "bytes kdf_lib" where
  "ref_kdf = \<lparr>sha256_Sum256 = (\<lambda>s. s), scrypt_Key = (\<lambda>p s n r q l. Ok (replicate l 1)),
     pbkdf2_Key = (\<lambda>p s n l. replicate l 3), ToECDSA = Ok\<rparr>"

theorem PassPhraseKey_total_witness: "PassPhraseKey ref_kdf [5] [] = Ok (replicate 32 2)"
proof -
  have "\<forall>p s n r q. \<exists>k. scrypt_Key ref_kdf p s n r q 32 = Ok k \<and> length k = 32"
    "\<forall>p s n. length (pbkdf2_Key ref_kdf p s n 32) = 32" by (simp_all add: ref_kdf_def)
  from PassPhraseKey_total [OF this, of "[]" "[5]"] show ?thesis
    by (simp add: ref_kdf_def numeral_eq_Suc)
qed

end
