(* ===== verification/Validators.thy ===== *)
theory Validators
  imports Blocks Transactions Proofs
begin

text \<open>
  \<^verbatim>\<open>src/gossip/types/validators.go\<close>, \<^verbatim>\<open>config.go\<close> and \<^verbatim>\<open>humanconfig.go\<close>: the block validators of a notary
  group, and the configuration from which a group and its validators are made. A validator
  looks at a tree and a block and says whether the group accepts it.
\<close>

section \<open>Block validators\<close>

type_synonym 's validator = "cid \<times> 's \<Rightarrow> BlockWithHeaders \<Rightarrow> bool res"

fun getReceiveTokenPayloads_loop ::
  "txn_lib \<Rightarrow> ReceiveTokenPayload list \<Rightarrow> Transaction list \<Rightarrow> ReceiveTokenPayload list res" where
  "getReceiveTokenPayloads_loop E receiveTokens [] = Ok receiveTokens"
| "getReceiveTokenPayloads_loop E receiveTokens (t # txns) =
     (if txn_Type t = RECEIVETOKEN then
        rbind (wrapc ErrUnknown ''error reading payload: %v'' (EnsureReceiveTokenPayload E t)) (\<lambda>rt.
        getReceiveTokenPayloads_loop E (receiveTokens @ [rt]) txns)
      else getReceiveTokenPayloads_loop E receiveTokens txns)"

definition getReceiveTokenPayloads :: "txn_lib \<Rightarrow> Transaction list \<Rightarrow> ReceiveTokenPayload list res" where
  "getReceiveTokenPayloads E txns = getReceiveTokenPayloads_loop E [] txns"

text \<open>\<^verbatim>\<open>id.(string)\<close>\<close>

definition as_string :: "goval \<Rightarrow> string res" where
  "as_string v = (case v of GString s \<Rightarrow> Ok s | _ \<Rightarrow> Panic ''interface conversion: interface {} is not string'')"

fun recipients_loop ::
  "'s dag_lib \<Rightarrow> visit_order \<Rightarrow> goval \<Rightarrow> ReceiveTokenPayload list \<Rightarrow> bool res" where
  "recipients_loop D visit i [] = Ok True"
| "recipients_loop D visit i (rt # receiveTokens) =
     rbind (GetSenderDagFromReceive D rt) (\<lambda>senderDag.
     rbind (GetTokenNameFromReceive D visit senderDag) (\<lambda>tokenName.
     rbind (GetSendTokenFromReceive D visit senderDag tokenName) (\<lambda>sendToken.
     rbind (as_string i) (\<lambda>did.
     if did \<noteq> ts_Destination sendToken then Ok False
     else recipients_loop D visit i receiveTokens))))"

definition IsTokenRecipient :: "'s dag_lib \<Rightarrow> txn_lib \<Rightarrow> visit_order \<Rightarrow> 's validator" where
  "IsTokenRecipient D E visit tree blockWithHeaders =
     rbind (wrapc ErrUnknown ''error getting RECEIVE_TOKEN transactions: %v''
       (getReceiveTokenPayloads E (blk_Transactions (bwh_Block blockWithHeaders)))) (\<lambda>receiveTokens.
     if length receiveTokens = 0 then Ok True
     else
     rbind (wrapc ErrUnknown ''error: %v'' (dag_Resolve D (fst tree) [''id''] (snd tree))) (\<lambda>(i, _).
     recipients_loop D visit i receiveTokens))"

fun proofs_loop ::
  "(bytes \<Rightarrow> cid res) \<Rightarrow> (Proof \<Rightarrow> bool res) \<Rightarrow> ReceiveTokenPayload list \<Rightarrow> bool res" where
  "proofs_loop cast proofVerifier [] = Ok True"
| "proofs_loop cast proofVerifier (rt # receiveTokens) =
     rbind (wrapc ErrInvalidTip ''error casting tip to CID: %v'' (cast (rtp_Tip rt))) (\<lambda>tip.
     rbind (case rtp_Proof rt of
         None \<Rightarrow> Panic ''invalid memory address or nil pointer dereference''
       | Some receiveProof \<Rightarrow> Ok receiveProof) (\<lambda>receiveProof.
     rbind (wrapc ErrInvalidTip ''error casting proof tip to CID: %v'' (cast (prf_Tip receiveProof))) (\<lambda>proofTip.
     if \<not> proofTip = tip then Ok False
     else
     rbind (wrapc ErrUnknown ''error verifying proof: %v'' (proofVerifier receiveProof)) (\<lambda>valid.
     if \<not> valid then Ok False else proofs_loop cast proofVerifier receiveTokens))))"

definition GenerateHasValidProof ::
  "txn_lib \<Rightarrow> (bytes \<Rightarrow> cid res) \<Rightarrow> (Proof \<Rightarrow> bool res) \<Rightarrow> 's validator" where
  "GenerateHasValidProof E cast proofVerifier tree blockWithHeaders =
     rbind (wrapc ErrUnknown ''error getting RECEIVE_TOKEN transactions: %v''
       (getReceiveTokenPayloads E (blk_Transactions (bwh_Block blockWithHeaders)))) (\<lambda>receiveTokens.
     if length receiveTokens = 0 then Ok True else proofs_loop cast proofVerifier receiveTokens)"

definition isTokenBurn :: "string \<Rightarrow> u64 \<Rightarrow> Transaction \<Rightarrow> bool res" where
  "isTokenBurn tokenName burnAmount tx =
     (let amount = (if burnAmount = 0 then 1 else burnAmount) in
      if txn_Type tx = SENDTOKEN then
        (case txn_SendTokenPayload tx of
           None \<Rightarrow> Panic ''invalid memory address or nil pointer dereference''
         | Some p \<Rightarrow> Ok (stp_Name p = tokenName \<and> stp_Amount p \<ge> amount \<and> stp_Destination p = []))
      else Ok False)"

fun burns_loop :: "string \<Rightarrow> u64 \<Rightarrow> Transaction list \<Rightarrow> bool res" where
  "burns_loop tokenName burnAmount [] = Ok False"
| "burns_loop tokenName burnAmount (tx # txns) =
     rbind (isTokenBurn tokenName burnAmount tx) (\<lambda>b.
     if b then Ok True else burns_loop tokenName burnAmount txns)"

fun owners_loop :: "(string \<Rightarrow> bool res) \<Rightarrow> string list \<Rightarrow> bool res" where
  "owners_loop isSignedBy [] = Ok False"
| "owners_loop isSignedBy (addr # addrs) =
     rbind (wrapc ErrUnknown ''error finding if signed: %v'' (isSignedBy addr)) (\<lambda>isSigned.
     if isSigned then Ok True else owners_loop isSignedBy addrs)"

text \<open>\<^verbatim>\<open>ToStrings\<close> stands for \<^verbatim>\<open>typecaster.ToType\<close> into a slice of strings.\<close>

definition authentications_path :: path where
  "authentications_path = Split (''tree/'' @ TreePathForAuthentications) CHR ''/''"

definition IsOwner ::
  "'s dag_lib \<Rightarrow> ('e, 'd, 'sc) crypto_lib \<Rightarrow> ('k, 'p) kyber \<Rightarrow> block_lib \<Rightarrow> (goval \<Rightarrow> string list res) \<Rightarrow> 's validator" where
  "IsOwner D C K B ToStrings tree blockWithHeaders =
     rbind (wrapc ErrUnknown ''error: %v'' (dag_Resolve D (fst tree) [''id''] (snd tree))) (\<lambda>(i, _).
     rbind (wrapc ErrUnknown ''error: %v'' (ToStandardHeaders B (bwh_Headers blockWithHeaders))) (\<lambda>_.
     rbind (wrapc ErrUnknown ''err resolving: %v'' (dag_Resolve D (fst tree) authentications_path (snd tree)))
       (\<lambda>(uncastAuths, _).
     rbind (if uncastAuths = GNil then rbind (as_string i) (\<lambda>did. Ok [DidToAddr did])
            else wrapc ErrUnknown ''err casting: %v'' (ToStrings uncastAuths)) (\<lambda>addrs.
     owners_loop (IsBlockSignedBy C K B blockWithHeaders) addrs))))"

section \<open>The configuration of a group\<close>

record ('e, 'p) PublicKeySet =
  pks_VerKey :: "'p VerKey"
  pks_DestKey :: 'e

text \<open>
  \<^verbatim>\<open>'g\<close> are the validator generators, \<^verbatim>\<open>'t\<close> the transactors a configuration names.
\<close>

record ('e, 'p, 'g, 't) Config =
  cfg_ID :: string
  cfg_TransactionToken :: string
  cfg_BurnAmount :: u64
  cfg_TransactionTopic :: string
  cfg_CommitTopic :: string
  cfg_ValidatorGenerators :: "'g list"
  cfg_Transactions :: "Transaction_Type \<rightharpoonup> 't"
  cfg_Signers :: "('e, 'p) PublicKeySet list"
  cfg_BootstrapAddresses :: "string list"

text \<open>
  The generators of the repository: a validator that needs nothing of the group, wrapped, and
  the generator of the burn validator; \<^verbatim>\<open>generate\<close> is the call of a generator.
\<close>

datatype 's ValidatorGenerator = WrapStatelessValidator "'s validator" | HasBurn

definition no_token :: goerr where
  "no_token = Errorf ''error you must specify a TransactionCurrency to use the HasBurnGenerator'' []"

definition HasBurnGenerator ::
  "('e, 'k, 'p, ('e, 'p, 'g, 't) Config) NotaryGroup \<Rightarrow> 's validator res" where
  "HasBurnGenerator ng =
     (let tokenName = cfg_TransactionToken (Config_of ng) in
      if tokenName = [] then Fail no_token
      else let burnAmount = cfg_BurnAmount (Config_of ng) in
        Ok (\<lambda>tree blockWithHeaders. burns_loop tokenName burnAmount (blk_Transactions (bwh_Block blockWithHeaders))))"

fun generate ::
  "'s ValidatorGenerator \<Rightarrow> ('e, 'k, 'p, ('e, 'p, 'g, 't) Config) NotaryGroup \<Rightarrow> 's validator res" where
  "generate (WrapStatelessValidator fn) ng = Ok fn"
| "generate HasBurn ng = HasBurnGenerator ng"

fun blockValidators_loop :: "('g \<Rightarrow> 'v res) \<Rightarrow> 'g list \<Rightarrow> 'v list res" where
  "blockValidators_loop gen [] = Ok []"
| "blockValidators_loop gen (generator # generators) =
     rbind (wrapf ''error generating validator: %v'' (gen generator)) (\<lambda>validator.
     rbind (blockValidators_loop gen generators) (\<lambda>validators. Ok (validator # validators)))"

definition blockValidators ::
  "('e, 'p, 's ValidatorGenerator, 't) Config \<Rightarrow>
     ('e, 'k, 'p, ('e, 'p, 's ValidatorGenerator, 't) Config) NotaryGroup \<Rightarrow> 's validator list res" where
  "blockValidators c ng = blockValidators_loop (\<lambda>g. generate g ng) (cfg_ValidatorGenerators c)"

definition BlockValidators ::
  "('e, 'k, 'p, ('e, 'p, 's ValidatorGenerator, 't) Config) NotaryGroup \<Rightarrow> 's validator list res" where
  "BlockValidators ng = blockValidators (Config_of ng) ng"

definition defaultGenerators ::
  "'s dag_lib \<Rightarrow> txn_lib \<Rightarrow> visit_order \<Rightarrow> ('e, 'd, 'sc) crypto_lib \<Rightarrow> ('k, 'p) kyber \<Rightarrow> block_lib \<Rightarrow>
     (goval \<Rightarrow> string list res) \<Rightarrow> 's ValidatorGenerator list" where
  "defaultGenerators D E visit C K B ToStrings =
     [WrapStatelessValidator (IsOwner D C K B ToStrings), WrapStatelessValidator (IsTokenRecipient D E visit)]"

definition DefaultConfig ::
  "'g list \<Rightarrow> (Transaction_Type \<rightharpoonup> 't) \<Rightarrow> ('e, 'p, 'g, 't) Config" where
  "DefaultConfig generators transactors =
     \<lparr>cfg_ID = [], cfg_TransactionToken = [], cfg_BurnAmount = 0,
      cfg_TransactionTopic = ''tupelo-transaction-broadcast'', cfg_CommitTopic = ''tupelo-commits'',
      cfg_ValidatorGenerators = generators, cfg_Transactions = transactors, cfg_Signers = [],
      cfg_BootstrapAddresses = []\<rparr>"

definition NewNotaryGroup ::
  "'g list \<Rightarrow> (Transaction_Type \<rightharpoonup> 't) \<Rightarrow> string \<Rightarrow> ('e, 'k, 'p, ('e, 'p, 'g, 't) Config) NotaryGroup" where
  "NewNotaryGroup generators transactors gid =
     NewNotaryGroupFromConfig cfg_ID ((DefaultConfig generators transactors)\<lparr>cfg_ID := gid\<rparr>)"

fun add_signers_loop ::
  "('e, 'd, 'sc) crypto_lib \<Rightarrow> ('e \<Rightarrow> string res) \<Rightarrow> ('e, 'k, 'p) Signer option \<Rightarrow> ('e, 'p) PublicKeySet list \<Rightarrow>
     ('e, 'k, 'p, 'cfg) NotaryGroup \<Rightarrow> ('e, 'k, 'p, 'cfg) NotaryGroup res" where
  "add_signers_loop C peer loc [] ng = Ok ng"
| "add_signers_loop C peer loc (keySet # signers) ng =
     (case loc of
        None \<Rightarrow> add_signers_loop C peer loc signers (AddSigner (NewRemoteSigner C (pks_DestKey keySet) (pks_VerKey keySet)) ng)
      | Some l \<Rightarrow>
          if FromECDSAPub C (sg_DstKey l) = FromECDSAPub C (pks_DestKey keySet)
          then add_signers_loop C peer loc signers ng
          else
            let signer = NewRemoteSigner C (pks_DestKey keySet) (pks_VerKey keySet) in
            rbind (ActorAddress peer (sg_DstKey l) signer) (\<lambda>addr.
            add_signers_loop C peer loc signers (AddSigner (signer\<lparr>sg_Actor := Some (addr, ActorName signer)\<rparr>) ng)))"

definition Config_NotaryGroup ::
  "('e, 'd, 'sc) crypto_lib \<Rightarrow> ('e \<Rightarrow> string res) \<Rightarrow> ('e, 'p, 'g, 't) Config \<Rightarrow> ('e, 'k, 'p) Signer option \<Rightarrow>
     ('e, 'k, 'p, ('e, 'p, 'g, 't) Config) NotaryGroup res" where
  "Config_NotaryGroup C peer c loc =
     (let ng = NewNotaryGroupFromConfig cfg_ID c;
          ng = (case loc of None \<Rightarrow> ng | Some l \<Rightarrow> AddSigner l ng) in
      add_signers_loop C peer loc (cfg_Signers c) ng)"

end
