(* ===== verification/Validator_Properties.thy ===== *)
theory Validator_Properties
  imports Validators Transaction_Runs
begin

text \<open>
  What a notary group's validators are worth: who may add a block, what a required burn is, and
  what a receive-token transaction that passes them can have been sent. The last two
  properties show where the checks of a received send leave a gap.
\<close>

section \<open>Inversions of the validators\<close>

lemma getReceiveTokenPayloads_loop_Ok:
  "getReceiveTokenPayloads_loop E acc txns = Ok rts \<Longrightarrow>
     set acc \<subseteq> set rts \<and> (\<forall>t \<in> set txns. txn_Type t = RECEIVETOKEN \<longrightarrow>
       (\<exists>p \<in> set rts. EnsureReceiveTokenPayload E t = Ok p))"
proof (induction E acc txns rule: getReceiveTokenPayloads_loop.induct)
  case (2 E acc t txns)
  then show ?case by (fastforce simp: rbind_Ok_iff split: if_splits)
qed simp

lemma getReceiveTokenPayloads_Ok:
  "getReceiveTokenPayloads E txns = Ok rts \<Longrightarrow> t \<in> set txns \<Longrightarrow> txn_Type t = RECEIVETOKEN \<Longrightarrow>
     \<exists>p \<in> set rts. EnsureReceiveTokenPayload E t = Ok p"
  using getReceiveTokenPayloads_loop_Ok by (fastforce simp: getReceiveTokenPayloads_def)

lemma recipients_loop_True:
  "recipients_loop D visit i rts = Ok True \<Longrightarrow> rt \<in> set rts \<Longrightarrow>
     \<exists>sd nm snt. GetSenderDagFromReceive D rt = Ok sd \<and> GetTokenNameFromReceive D visit sd = Ok nm \<and>
       GetSendTokenFromReceive D visit sd nm = Ok snt \<and> i = GString (ts_Destination snt)"
  by (induction rts)
    (auto simp: rbind_Ok_iff as_string_def split: if_splits goval.splits)

lemma proofs_loop_True:
  "proofs_loop cast verifier rts = Ok True \<Longrightarrow> rt \<in> set rts \<Longrightarrow>
     \<exists>pf tip. rtp_Proof rt = Some pf \<and> cast (rtp_Tip rt) = Ok tip \<and> cast (prf_Tip pf) = Ok tip \<and>
       verifier pf = Ok True"
  by (induction rts) (auto simp: rbind_Ok_iff split: if_splits option.splits)

lemma owners_loop_True: "owners_loop f addrs = Ok True \<Longrightarrow> \<exists>addr \<in> set addrs. f addr = Ok True"
  by (induction addrs) (auto simp: rbind_Ok_iff split: if_splits)

lemma owners_loop_eq:
  "\<forall>a \<in> set addrs. f a = Ok (P a) \<Longrightarrow> owners_loop f addrs = Ok (\<exists>a \<in> set addrs. P a)"
  by (induction addrs) auto

section \<open>Owners\<close>

text \<open>The addresses that may add a block to a tree: the authentications, or the genesis key's.\<close>

definition owner_addrs :: "(goval \<Rightarrow> string list res) \<Rightarrow> string \<Rightarrow> goval \<Rightarrow> string list res" where
  "owner_addrs ToStrings did auths = (if auths = GNil then Ok [DidToAddr did] else ToStrings auths)"

lemma IsOwner_eq:
  assumes "dag_Resolve D t [''id''] s = Ok (GString did, r)"
    "dag_Resolve D t authentications_path s = Ok (auths, r')"
    "owner_addrs ToStrings did auths = Ok addrs" "ToStandardHeaders B (bwh_Headers b) = Ok hs"
  shows "IsOwner D C K B ToStrings (t, s) b = owners_loop (IsBlockSignedBy C K B b) addrs"
  using assms by (auto simp: IsOwner_def owner_addrs_def as_string_def split: if_splits)


text \<open>C26: only an owner's signature lets a block in, and an owner's does. A block is accepted by
  \<^verbatim>\<open>IsOwner\<close> only if one of the tree's owners (its authentications, or while there are none the
  genesis address of its DID) has signed the block's hash; and an unsigned block, once
  signed with a key by \<^verbatim>\<open>SignBlock\<close>, is accepted exactly if the key's address is an owner's.\<close>

theorem owner_signs:
  assumes "block_signing C B"
    and "dag_Resolve D t [''id''] s = Ok (GString did, r)"
    and "dag_Resolve D t authentications_path s = Ok (auths, r')"
    and "owner_addrs ToStrings did auths = Ok addrs"
  shows "(\<forall>b. IsOwner D C K B ToStrings (t, s) b = Ok True \<longrightarrow> (\<exists>addr \<in> set addrs. signed_by_address C B b addr)) \<and>
    (\<forall>b hs key b'. ToStandardHeaders B (bwh_Headers b) = Ok hs \<longrightarrow> sigs_of hs = [] \<longrightarrow> SignBlock C B b key = Ok b' \<longrightarrow>
       IsOwner D C K B ToStrings (t, s) b' = Ok (key_addr C key \<in> set addrs))"
proof (intro conjI allI impI)
  fix b assume own: "IsOwner D C K B ToStrings (t, s) b = Ok True"
  then obtain hs where "ToStandardHeaders B (bwh_Headers b) = Ok hs" by (auto simp: IsOwner_def rbind_Ok_iff)
  with own have "owners_loop (IsBlockSignedBy C K B b) addrs = Ok True"
    using IsOwner_eq [OF assms(2-4)] by metis
  from owners_loop_True [OF this] show "\<exists>addr \<in> set addrs. signed_by_address C B b addr"
    using IsBlockSignedBy_sound block_signing.axioms(1) [OF assms(1)] by blast
next
  fix b hs key b'
  assume b: "ToStandardHeaders B (bwh_Headers b) = Ok hs" "sigs_of hs = []" "SignBlock C B b key = Ok b'"
  obtain hs' where "ToStandardHeaders B (bwh_Headers b') = Ok hs'"
    using block_signing.SignBlock_Ok [OF assms(1) b(3)] by metis
  then have "IsOwner D C K B ToStrings (t, s) b' = owners_loop (IsBlockSignedBy C K B b') addrs"
    by (rule IsOwner_eq [OF assms(2-4)])
  also have "\<dots> = Ok (\<exists>a \<in> set addrs. a = key_addr C key)"
    by (rule owners_loop_eq) (simp add: block_signing.SignBlock_only [OF assms(1) b(3,1,2)])
  finally show "IsOwner D C K B ToStrings (t, s) b' = Ok (key_addr C key \<in> set addrs)" by simp
qed

text \<open>A library whose only tree has the DID and the authentications given.\<close>

definition owned_dag :: "string \<Rightarrow> goval \<Rightarrow> ref_store dag_lib" where
  "owned_dag did auths = ref_dag\<lparr>dag_Resolve := \<lambda>t p s. if p = [''id''] then Ok (GString did, []) else Ok (auths, [])\<rparr>"

theorem owner_signs_witness:
  "\<exists>b'. SignBlock ref_crypto ref_blocks ref_block [7] = Ok b' \<and>
     IsOwner (owned_dag (''did:tupelo:'' @ [CHR 0x07]) GNil) ref_crypto ref_kyber ref_blocks (\<lambda>_. Ok []) (ref_tip 0, ref_start) b' = Ok True \<and>
     IsOwner (owned_dag ''did:tupelo:x'' (GList [])) ref_crypto ref_kyber ref_blocks (\<lambda>_. Ok [''y'']) (ref_tip 0, ref_start) b' = Ok False"
proof -
  let ?b1 = "ref_block\<lparr>bwh_Headers := GMap [([CHR 0x07], GBytes (uint64ToBytes 0 @ [7, 0]))]\<rparr>"
  have s1: "SignBlock ref_crypto ref_blocks ref_block [7] = Ok ?b1"
    by (simp add: SignBlock_def ref_block_hash ref_crypto_sign ref_addr Let_def)
      (simp add: ref_block_def ref_headers)
  have h: "ToStandardHeaders ref_blocks (bwh_Headers ref_block) = Ok \<lparr>sh_Signatures = None\<rparr>"
    by (simp add: ref_block_def ref_headers)
  have p: "authentications_path \<noteq> [''id'']" by code_simp
  have d: "DidToAddr (''did:tupelo:'' @ [CHR 0x07]) = [CHR 0x07]" by code_simp
  let ?D = "owned_dag (''did:tupelo:'' @ [CHR 0x07]) GNil" and ?D' = "owned_dag ''did:tupelo:x'' (GList [])"
  have o: "owner_addrs (\<lambda>_. Ok []) (''did:tupelo:'' @ [CHR 0x07]) GNil = Ok [[CHR 0x07]]"
    using d by (simp add: owner_addrs_def)
  note own = owner_signs [OF ref_signing.block_signing_axioms, THEN conjunct2, rule_format, OF _ _ _ h sigs_of_nil s1]
  have "IsOwner ?D ref_crypto ref_kyber ref_blocks (\<lambda>_. Ok []) (ref_tip 0, ref_start) ?b1 = Ok True"
    by (subst own [OF _ _ o]) (use p in \<open>auto simp: owned_dag_def ref_addr\<close>)
  moreover have "IsOwner ?D' ref_crypto ref_kyber ref_blocks (\<lambda>_. Ok [''y'']) (ref_tip 0, ref_start) ?b1 = Ok False"
    by (subst own [where did = "''did:tupelo:x''" and auths = "GList []" and addrs = "[''y'']"])
      (use p in \<open>auto simp: owned_dag_def owner_addrs_def ref_addr\<close>)
  ultimately show ?thesis using s1 by blast
qed

section \<open>Burns\<close>

lemma burn_threshold: "(if b = 0 then 1 else b) \<le> x \<longleftrightarrow> 0 < x \<and> b \<le> x" for b x :: u64
proof -
  have "1 \<le> x \<longleftrightarrow> 0 < x" by (simp add: word_le_nat_alt word_less_nat_alt Suc_le_eq)
  moreover have "b \<noteq> 0 \<Longrightarrow> b \<le> x \<Longrightarrow> 0 < x" by (auto simp: word_gt_0)
  ultimately show ?thesis by auto
qed

definition nil_payload :: "Transaction \<Rightarrow> bool" where
  "nil_payload tx \<longleftrightarrow> txn_Type tx = SENDTOKEN \<and> txn_SendTokenPayload tx = None"

definition burns :: "string \<Rightarrow> u64 \<Rightarrow> Transaction \<Rightarrow> bool" where
  "burns tokenName burnAmount tx \<longleftrightarrow> txn_Type tx = SENDTOKEN \<and> (\<exists>p. txn_SendTokenPayload tx = Some p \<and>
     stp_Name p = tokenName \<and> stp_Destination p = [] \<and> 0 < stp_Amount p \<and> burnAmount \<le> stp_Amount p)"

lemma isTokenBurn_eq:
  "isTokenBurn tokenName burnAmount tx = (if nil_payload tx
     then Panic ''invalid memory address or nil pointer dereference'' else Ok (burns tokenName burnAmount tx))"
  unfolding isTokenBurn_def nil_payload_def burns_def Let_def burn_threshold by (auto split: option.splits)

lemma burns_loop_find:
  "burns_loop tokenName burnAmount txns = (case find (\<lambda>tx. nil_payload tx \<or> burns tokenName burnAmount tx) txns of
     None \<Rightarrow> Ok False
   | Some tx \<Rightarrow> if nil_payload tx then Panic ''invalid memory address or nil pointer dereference'' else Ok True)"
  by (induction txns) (auto simp: isTokenBurn_eq)

text \<open>C30: the burn validator accepts exactly the blocks with a burn. Without a configured token no
  validator is made. With one, a transaction burns if it is a send-token transaction that sends at least the configured amount (one, if none is
  configured) of exactly that token to no destination; the validator looks for the first transaction that burns or is a send-token transaction without a
  payload: it accepts the block if that one burns, panics if it has no payload, and rejects the block if there is neither. This holds for every block and tree.\<close>

theorem burn_exact:
  "HasBurnGenerator ng =
    (let tokenName = cfg_TransactionToken (Config_of ng); burnAmount = cfg_BurnAmount (Config_of ng) in
     if tokenName = [] then Fail no_token
     else Ok (\<lambda>tree b. case find (\<lambda>tx. nil_payload tx \<or> burns tokenName burnAmount tx) (blk_Transactions (bwh_Block b)) of
         None \<Rightarrow> Ok False
       | Some tx \<Rightarrow> if nil_payload tx then Panic ''invalid memory address or nil pointer dereference'' else Ok True))"
  by (simp add: HasBurnGenerator_def Let_def burns_loop_find)

text \<open>A group that asks for a burn of ten, and a block that burns twelve.\<close>

definition burning_group :: "(bytes, unit, unit, (bytes, unit, unit, unit) Config) NotaryGroup" where
  "burning_group = NewNotaryGroupFromConfig cfg_ID
     ((DefaultConfig [] Map.empty)\<lparr>cfg_TransactionToken := ''did:tupelo:b:coin'', cfg_BurnAmount := 10\<rparr>)"

definition burning_block :: BlockWithHeaders where
  "burning_block = ref_block\<lparr>bwh_Block := (bwh_Block ref_block)\<lparr>blk_Transactions :=
     [(empty_txn SENDTOKEN)\<lparr>txn_SendTokenPayload :=
        Some \<lparr>stp_Id = ''tx'', stp_Name = ''did:tupelo:b:coin'', stp_Amount = 12, stp_Destination = []\<rparr>\<rparr>]\<rparr>\<rparr>"

theorem burn_exact_witness:
  "\<exists>validator :: unit validator. HasBurnGenerator burning_group = Ok validator \<and> validator (Cid [], ()) burning_block = Ok True"
  unfolding burn_exact
  by (simp add: burning_group_def burning_block_def empty_txn_def Config_of_def NewNotaryGroupFromConfig_def DefaultConfig_def
      nil_payload_def burns_def)

section \<open>What a received token was\<close>

text \<open>The sends that the leaves of a receive-token payload contain, with the names of their tokens.\<close>

definition linked_sends :: "'s dag_lib \<Rightarrow> cid \<times> 's \<Rightarrow> (string \<times> TokenSend) set" where
  "linked_sends D sd = {(nm, snt). \<exists>sends c n.
     dag_Resolve D (fst sd) [''tree'', ''_tupelo'', ''tokens'', nm, ''sends''] (snd sd) = Ok (GList sends, []) \<and>
     GCid c \<in> set sends \<and> dag_Get D c (snd sd) = Ok n \<and> cbor_DecodeIntoSend D (node_RawData n) = Ok snt}"

lemma GetSendTokenFromReceive_linked:
  "GetSendTokenFromReceive D visit sd nm = Ok snt \<Longrightarrow> \<forall>m. set (visit m) = set m \<Longrightarrow>
     (TokenName_String nm, snt) \<in> linked_sends D sd"
  using GetSendTokenFromReceive_OkD [of D visit sd nm snt] by (auto simp: linked_sends_def)

text \<open>C27: tokens are received only where they were sent. Take a block that \<^verbatim>\<open>IsTokenRecipient\<close> and the
  validator of \<^verbatim>\<open>GenerateHasValidProof\<close> with \<^verbatim>\<open>Verify\<close> both accept for a tree, and a
  receive-token transaction in it that succeeds; assume that the leaves of its payload contain one
  send, as \<^verbatim>\<open>TokenPayloadForTransaction\<close> makes them. Then the payload carries a proof that the notary
  group confirmed the sender's tip, the leaves form a DAG with that very tip, the send it
  contains names this tree as its destination, and exactly that send's amount is credited,
  even if validator and transactor visit Go's maps in different orders.\<close>

theorem received_where_sent:
  assumes "dag_laws D" "tokens_rel D (t, s) A" "\<forall>m. set (visit m) = set m" "\<forall>m. set (visit' m) = set m"
    and "IsTokenRecipient D E visit tree b = Ok True"
    and "GenerateHasValidProof E (cid_Cast D) (\<lambda>pf. Verify C K L pf q vks) tree b = Ok True"
    and "txn \<in> set (blk_Transactions (bwh_Block b))" "txn_Type txn = RECEIVETOKEN"
    and "EnsureReceiveTokenPayload E txn = Ok p" "\<forall>sd. GetSenderDagFromReceive D p = Ok sd \<longrightarrow> (\<exists>x. linked_sends D sd \<subseteq> {x})"
    and "ReceiveTokenTransaction D E visit' did t txn s = (Ok t', s')"
  shows "\<exists>pf tip sds nm snt. rtp_Proof p = Some pf \<and> Verify C K L pf q vks = Ok True \<and>
    cid_Cast D (prf_Tip pf) = Ok tip \<and> GetSenderDagFromReceive D p = Ok (tip, sds) \<and>
    linked_sends D (tip, sds) = {(TokenName_String nm, snt)} \<and>
    resolves D (fst tree) [''id''] (snd tree) (GString (ts_Destination snt)) \<and>
    tokens_rel D (t', s') (A(TokenName_String nm \<mapsto> add_receive (rtp_SendTokenTransactionId p) (ts_Amount snt)
      (case A (TokenName_String nm) of None \<Rightarrow> fresh_token None | Some k \<Rightarrow> k)))"
  using assms(11)
proof (rule ReceiveTokenTransaction_OkE)
  fix p' sd nm snt l'
  assume p': "EnsureReceiveTokenPayload E txn = Ok p'" and tip: "cid_Cast D (rtp_Tip p') = Ok (fst sd)"
    and sd: "GetSenderDagFromReceive D p' = Ok sd" and snt: "GetSendTokenFromReceive D visit' sd nm = Ok snt"
    and op: "run_op D (OpReceive (rtp_SendTokenTransactionId p') (ts_Amount snt)) (NewTreeLedger t nm s) = (Ok t', l')"
    and s': "s' = l_store l'"
  have [simp]: "p' = p" using p' assms(9) by simp
  obtain rts where rts: "getReceiveTokenPayloads E (blk_Transactions (bwh_Block b)) = Ok rts" "p \<in> set rts"
    using assms(5,7-9) getReceiveTokenPayloads_Ok by (fastforce simp: IsTokenRecipient_def rbind_Ok_iff)
  obtain pf where pf: "rtp_Proof p = Some pf" "cid_Cast D (prf_Tip pf) = Ok (fst sd)" "Verify C K L pf q vks = Ok True"
    using assms(6) rts tip proofs_loop_True [of _ _ rts p] by (fastforce simp: GenerateHasValidProof_def split: if_splits)
  obtain i r where i: "dag_Resolve D (fst tree) [''id''] (snd tree) = Ok (i, r)" "recipients_loop D visit i rts = Ok True"
    using assms(5) rts by (auto simp: IsTokenRecipient_def rbind_Ok_iff split: if_splits)
  obtain nm' snt' where snt': "GetSendTokenFromReceive D visit sd nm' = Ok snt'" "i = GString (ts_Destination snt')"
    using recipients_loop_True [OF i(2) rts(2)] sd by auto
  have "GetSenderDagFromReceive D p = Ok sd" using sd by simp
  with assms(10) obtain x where "linked_sends D sd \<subseteq> {x}" by blast
  with GetSendTokenFromReceive_linked [OF snt assms(4)] GetSendTokenFromReceive_linked [OF snt'(1) assms(3)]
  have one: "linked_sends D sd = {(TokenName_String nm, snt)}" and [simp]: "snt' = snt" by auto
  obtain k' where "spec_step (OpReceive (rtp_SendTokenTransactionId p) (ts_Amount snt)) (A (TokenName_String nm)) k'"
    "tokens_rel D (t', l_store l') (A(TokenName_String nm \<mapsto> k'))"
    using dag_laws.run_op_tokens [OF assms(1,2) op] by auto
  moreover have "GetSenderDagFromReceive D p = Ok (fst sd, snd sd)" using sd by simp
  ultimately show ?thesis
    using pf one i(1) snt'(2) s'
    by (intro exI [of _ pf] exI [of _ "fst sd"] exI [of _ "snd sd"] exI [of _ nm] exI [of _ snt])
      (auto simp: spec_step_simps resolves_def split: option.splits)
qed

definition sent_coin :: ReceiveTokenPayload where
  "sent_coin = receive_coin\<lparr>rtp_Proof := Some ref_proof\<rparr>"

definition sent_coin_block :: BlockWithHeaders where
  "sent_coin_block = ref_block\<lparr>bwh_Block := (bwh_Block ref_block)\<lparr>blk_Transactions :=
     [(empty_txn RECEIVETOKEN)\<lparr>txn_ReceiveTokenPayload := Some sent_coin\<rparr>]\<rparr>\<rparr>"

text \<open>The receiving tree: its DID is the destination of the send.\<close>

definition receiver_tree :: "cid \<times> ref_store" where
  "receiver_tree = (ref_tip 0, \<lparr>rs_trees = [[([''id''], GString ''did:tupelo:a'')]], rs_nodes = []\<rparr>)"

lemma sent_coin_steps:
  "EnsureReceiveTokenPayload ref_txns ((empty_txn RECEIVETOKEN)\<lparr>txn_ReceiveTokenPayload := Some sent_coin\<rparr>) = Ok sent_coin"
  "cid_Cast receiving_dag (rtp_Tip sent_coin) = Ok (ref_tip 0)" "cid_Cast receiving_dag [0] = Ok (ref_tip 0)"
  "GetSenderDagFromReceive receiving_dag sent_coin = Ok (ref_tip 0, sender_store)"
  "rtp_SendTokenTransactionId sent_coin = ''tx''" "rtp_Proof sent_coin = Some ref_proof"
  using receiving_steps
  by (simp_all add: sent_coin_def GetSenderDagFromReceive_def ref_txns_def ensured_def receive_coin_def)

lemma sent_coin_accepted:
  "IsTokenRecipient receiving_dag ref_txns id receiver_tree sent_coin_block = Ok True"
  "GenerateHasValidProof ref_txns (cid_Cast receiving_dag)
     (\<lambda>pf. Verify ref_crypto ref_kyber ref_proofs pf 2 (map sk_verKey ref_keys)) receiver_tree sent_coin_block = Ok True"
proof -
  have "getReceiveTokenPayloads ref_txns (blk_Transactions (bwh_Block sent_coin_block)) = Ok [sent_coin]"
    using sent_coin_steps(1) by (simp add: getReceiveTokenPayloads_def sent_coin_block_def empty_txn_def)
  moreover have "dag_Resolve receiving_dag (fst receiver_tree) [''id''] (snd receiver_tree) = Ok (GString ''did:tupelo:a'', [])"
    by (simp add: receiving_dag_def ref_dag_def ref_read_def ref_tree_def ref_tip_def ref_resolve_def receiver_tree_def)
  ultimately show "IsTokenRecipient receiving_dag ref_txns id receiver_tree sent_coin_block = Ok True"
    "GenerateHasValidProof ref_txns (cid_Cast receiving_dag)
     (\<lambda>pf. Verify ref_crypto ref_kyber ref_proofs pf 2 (map sk_verKey ref_keys)) receiver_tree sent_coin_block = Ok True"
    using sent_coin_steps receiving_steps ref_proof_verifies ref_links(8)
    by (simp_all add: IsTokenRecipient_def GenerateHasValidProof_def as_string_def coin_sent_def)
qed

lemma receiving_start: "tokens_rel receiving_dag (ref_tip 0, ref_start) (\<lambda>_. None)"
  using no_token_at_start by (simp add: tokens_rel_def tree_rel_def resolves_def receiving_dag_def)

lemma receiving_laws: "dag_laws receiving_dag"
  using receiving_dag_total by (rule dag_total.axioms)

lemma sender_one_send: "linked_sends receiving_dag (ref_tip 0, sender_store) \<subseteq> {(''did:tupelo:b:coin'', coin_sent)}"
proof (rule subrelI)
  fix nm snt assume "(nm, snt) \<in> linked_sends receiving_dag (ref_tip 0, sender_store)"
  then obtain sends c n where
    r: "dag_Resolve receiving_dag (ref_tip 0) [''tree'', ''_tupelo'', ''tokens'', nm, ''sends''] sender_store = Ok (GList sends, [])"
    and n: "GCid c \<in> set sends" "dag_Get receiving_dag c sender_store = Ok n" "cbor_DecodeIntoSend receiving_dag (node_RawData n) = Ok snt"
    by (auto simp: linked_sends_def)
  have nm: "nm = ''did:tupelo:b:coin''" and sends: "sends = [GCid (Cid (1 # ref_enc (GTokenSend coin_sent)))]"
    using r by (auto simp: receiving_dag_def ref_dag_def ref_read_def ref_tree_def ref_tip_def sender_store_def
        ref_resolve_def Let_def split: if_splits)
  have "dag_Get receiving_dag (Cid (1 # ref_enc (GTokenSend coin_sent))) sender_store =
       Ok \<lparr>node_Cid = Cid (1 # ref_enc (GTokenSend coin_sent)), node_RawData = ref_enc (GTokenSend coin_sent)\<rparr>"
    by (simp add: receiving_dag_def ref_get_def sender_store_def)
  moreover have "cbor_DecodeIntoSend receiving_dag (ref_enc (GTokenSend coin_sent)) = Ok coin_sent"
    by (simp add: receiving_dag_def ref_dec_send_def)
  ultimately show "(nm, snt) \<in> {(''did:tupelo:b:coin'', coin_sent)}" using n nm sends by auto
qed

section \<open>Receiving a send again\<close>

text \<open>A chain tree plays the transactions of a block one after the other.\<close>

fun play :: "'s transactor \<Rightarrow> string \<Rightarrow> Transaction list \<Rightarrow> cid \<Rightarrow> ('s, cid) eff" where
  "play tr did [] t = eret t"
| "play tr did (txn # txns) t = ebind (tr did t txn) (play tr did txns)"

definition add_receives :: "string list \<Rightarrow> u64 \<Rightarrow> token_state \<Rightarrow> token_state" where
  "add_receives ids amount k = fold (\<lambda>i. add_receive i amount) ids k"

lemma add_receives_eq:
  "add_receives ids amount k = k\<lparr>a_receives := a_receives k @ map (\<lambda>i. \<lparr>tr_SendTokenTransactionId = i, tr_Amount = amount\<rparr>) ids,
     a_balance := a_balance k + of_nat (length ids) * amount\<rparr>"
  by (induction ids arbitrary: k) (simp_all add: add_receives_def add_receive_def algebra_simps)

context dag_total
begin

lemma receive_any_id:
  assumes A: "tokens_rel D (t, s) A"
    and p: "EnsureReceiveTokenPayload E txn = Ok p" "cid_Cast D (rtp_Tip p) = Ok (fst sd)" "GetSenderDagFromReceive D p = Ok sd"
      "GetTokenNameFromReceive D visit sd = Ok nm" "GetSendTokenFromReceive D visit sd nm = Ok snt"
    and k: "k = (case A (TokenName_String nm) of None \<Rightarrow> fresh_token None | Some k \<Rightarrow> k)"
    and new: "rtp_SendTokenTransactionId p \<notin> set (received_ids k)"
  shows "\<exists>t' s'. ReceiveTokenTransaction D E visit did t txn s = (Ok t', s') \<and>
    tokens_rel D (t', s') (A(TokenName_String nm \<mapsto> add_receive (rtp_SendTokenTransactionId p) (ts_Amount snt) k))"
proof -
  let ?l = "NewTreeLedger t nm s" and ?op = "OpReceive (rtp_SendTokenTransactionId p) (ts_Amount snt)"
  have "ledger_rel D ?l (A (TokenName_String nm))" using A by (simp add: tokens_rel_def ledger_at_rel)
  then have "is_ok (fst (ReceiveToken D (rtp_SendTokenTransactionId p) (ts_Amount snt) ?l))"
    by (rule receive_total) (use k new in simp)
  then obtain t' l' where op: "run_op D ?op ?l = (Ok t', l')" using ledger_result by fastforce
  obtain k' where "spec_step ?op (A (TokenName_String nm)) k'" "tokens_rel D (t', l_store l') (A(TokenName_String nm \<mapsto> k'))"
    using run_op_tokens [OF A op] by auto
  moreover have "ReceiveTokenTransaction D E visit did t txn s = (Ok t', l_store l')"
    using p op by (simp add: ReceiveTokenTransaction_def eff_defs with_ledger_def)
  ultimately show ?thesis using k by (auto simp: spec_step_simps split: option.splits)
qed

lemma receive_all_ids:
  assumes p: "\<And>i. EnsureReceiveTokenPayload E (txn i) = Ok (p\<lparr>rtp_SendTokenTransactionId := i\<rparr>)"
      "cid_Cast D (rtp_Tip p) = Ok (fst sd)" "GetSenderDagFromReceive D p = Ok sd"
      "GetTokenNameFromReceive D visit sd = Ok nm" "GetSendTokenFromReceive D visit sd nm = Ok snt"
    and A: "tokens_rel D (t, s) A" "A (TokenName_String nm) = Some k"
    and ids: "distinct ids" "set ids \<inter> set (received_ids k) = {}"
  shows "\<exists>t' s'. play (ReceiveTokenTransaction D E visit) did (map txn ids) t s = (Ok t', s') \<and>
    tokens_rel D (t', s') (A(TokenName_String nm \<mapsto> add_receives ids (ts_Amount snt) k))"
  using A ids
proof (induction ids arbitrary: t s A k)
  case Nil
  then show ?case by (auto simp: eret_def add_receives_def fun_upd_idem)
next
  case (Cons i ids)
  have "GetSenderDagFromReceive D (p\<lparr>rtp_SendTokenTransactionId := i\<rparr>) = Ok sd"
    using p(3) by (simp add: GetSenderDagFromReceive_def)
  then obtain t1 s1 where t1: "ReceiveTokenTransaction D E visit did t (txn i) s = (Ok t1, s1)"
      "tokens_rel D (t1, s1) (A(TokenName_String nm \<mapsto> add_receive i (ts_Amount snt) k))"
    using receive_any_id [OF Cons.prems(1) p(1) [of i], where sd = sd and k = k and nm = nm and visit = visit and snt = snt and did = did]
      p Cons.prems by auto
  have "set ids \<inter> set (received_ids (add_receive i (ts_Amount snt) k)) = {}"
    using Cons.prems by (auto simp: received_ids_def add_receive_def)
  then have "\<exists>t' s'. play (ReceiveTokenTransaction D E visit) did (map txn ids) t1 s1 = (Ok t', s') \<and>
      tokens_rel D (t', s') (A(TokenName_String nm \<mapsto> add_receive i (ts_Amount snt) k,
        TokenName_String nm \<mapsto> add_receives ids (ts_Amount snt) (add_receive i (ts_Amount snt) k)))"
    using Cons.prems(3) by (intro Cons.IH [OF t1(2)]) simp_all
  moreover have "add_receives ids (ts_Amount snt) (add_receive i (ts_Amount snt) k) = add_receives (i # ids) (ts_Amount snt) k"
    by (simp add: add_receives_def)
  ultimately obtain t' s' where "play (ReceiveTokenTransaction D E visit) did (map txn ids) t1 s1 = (Ok t', s')"
    "tokens_rel D (t', s') (A(TokenName_String nm \<mapsto> add_receives (i # ids) (ts_Amount snt) k))"
    unfolding fun_upd_upd by metis
  with t1(1) show ?case by (auto simp: ebind_def fun_upd_def)
qed

end

text \<open>C28: the id of a received send is not checked. \<^verbatim>\<open>ReceiveTokenTransaction\<close> records the id its payload
  names and never compares it with the id of the send in the leaves, and neither validator looks at it.
  So whoever may receive a send once can receive it again under as many other ids
  as he likes: all these transactions succeed, each credits the full amount, and a block with
  any of them is judged by the validators as a block with the honest one is.\<close>

theorem receive_id_unchecked:
  assumes "dag_total D" "tokens_rel D (t, s) A" "A (TokenName_String nm) = Some k"
    and "\<forall>i. txn_Type (txn i) = RECEIVETOKEN \<and> EnsureReceiveTokenPayload E (txn i) = Ok (p\<lparr>rtp_SendTokenTransactionId := i\<rparr>)"
    and "cid_Cast D (rtp_Tip p) = Ok tip" "GetSenderDagFromReceive D p = Ok (tip, sds)"
    and "GetTokenNameFromReceive D visit (tip, sds) = Ok nm" "GetSendTokenFromReceive D visit (tip, sds) nm = Ok snt"
    and "distinct ids" "set ids \<inter> set (received_ids k) = {}"
  shows "(\<exists>t' s' k'. play (ReceiveTokenTransaction D E visit) did (map txn ids) t s = (Ok t', s') \<and>
      tokens_rel D (t', s') (A(TokenName_String nm \<mapsto> k')) \<and>
      a_balance k' = a_balance k + of_nat (length ids) * ts_Amount snt) \<and>
    (\<forall>i j tree b. let block = (\<lambda>i. b\<lparr>bwh_Block := (bwh_Block b)\<lparr>blk_Transactions := [txn i]\<rparr>\<rparr>) in
       IsTokenRecipient D E visit tree (block i) = IsTokenRecipient D E visit tree (block j) \<and>
       GenerateHasValidProof E cast verifier tree (block i) = GenerateHasValidProof E cast verifier tree (block j))"
proof (rule conjI)
  have p: "\<And>i. EnsureReceiveTokenPayload E (txn i) = Ok (p\<lparr>rtp_SendTokenTransactionId := i\<rparr>)" using assms(4) by blast
  obtain t' s' where "play (ReceiveTokenTransaction D E visit) did (map txn ids) t s = (Ok t', s')"
      "tokens_rel D (t', s') (A(TokenName_String nm \<mapsto> add_receives ids (ts_Amount snt) k))"
    using dag_total.receive_all_ids [OF assms(1) p _ assms(6-8,2,3,9,10), of did] assms(5) by auto
  then show "\<exists>t' s' k'. play (ReceiveTokenTransaction D E visit) did (map txn ids) t s = (Ok t', s') \<and>
      tokens_rel D (t', s') (A(TokenName_String nm \<mapsto> k')) \<and> a_balance k' = a_balance k + of_nat (length ids) * ts_Amount snt"
    by (intro exI [of _ t'] exI [of _ s'] exI [of _ "add_receives ids (ts_Amount snt) k"]) (simp add: add_receives_eq)
  have "getReceiveTokenPayloads E [txn i] = Ok [p\<lparr>rtp_SendTokenTransactionId := i\<rparr>]" for i
    using assms(4) by (simp add: getReceiveTokenPayloads_def)
  moreover have "GetSenderDagFromReceive D (p\<lparr>rtp_SendTokenTransactionId := i\<rparr>) = GetSenderDagFromReceive D p" for i
    by (simp add: GetSenderDagFromReceive_def)
  ultimately show "\<forall>i j tree b. let block = (\<lambda>i. b\<lparr>bwh_Block := (bwh_Block b)\<lparr>blk_Transactions := [txn i]\<rparr>\<rparr>) in
       IsTokenRecipient D E visit tree (block i) = IsTokenRecipient D E visit tree (block j) \<and>
       GenerateHasValidProof E cast verifier tree (block i) = GenerateHasValidProof E cast verifier tree (block j)"
    by (simp add: IsTokenRecipient_def GenerateHasValidProof_def Let_def)
qed

definition coin_txn :: "string \<Rightarrow> Transaction" where
  "coin_txn i = (empty_txn RECEIVETOKEN)\<lparr>txn_ReceiveTokenPayload := Some (sent_coin\<lparr>rtp_SendTokenTransactionId := i\<rparr>)\<rparr>"

lemma coin_txn_payload:
  "txn_Type (coin_txn i) = RECEIVETOKEN"
  "EnsureReceiveTokenPayload ref_txns (coin_txn i) = Ok (sent_coin\<lparr>rtp_SendTokenTransactionId := i\<rparr>)"
  by (simp_all add: coin_txn_def empty_txn_def ref_txns_def ensured_def)

lemma coin_received_once:
  "\<exists>t' s'. ReceiveTokenTransaction receiving_dag ref_txns id ''did:tupelo:a'' (ref_tip 0) (coin_txn ''tx'') ref_start = (Ok t', s') \<and>
     tokens_rel receiving_dag (t', s') [TokenName_String coin \<mapsto> add_receive ''tx'' 9 (fresh_token None)]"
  using dag_total.receive_any_id [OF receiving_dag_total receiving_start coin_txn_payload(2) [of "''tx''"],
      where sd = "(ref_tip 0, sender_store)" and visit = id and nm = coin and snt = coin_sent and k = "fresh_token None"]
    sent_coin_steps receiving_steps
  by (auto simp: coin_sent_def received_ids_def fresh_token_def GetSenderDagFromReceive_def)

theorem receive_id_unchecked_witness:
  "\<exists>t s t' s' k'. ReceiveTokenTransaction receiving_dag ref_txns id ''did:tupelo:a'' (ref_tip 0) (coin_txn ''tx'') ref_start = (Ok t, s) \<and>
     play (ReceiveTokenTransaction receiving_dag ref_txns id) ''did:tupelo:a'' (map coin_txn [''u'', ''v'']) t s = (Ok t', s') \<and>
     tokens_rel receiving_dag (t', s') [TokenName_String coin \<mapsto> k'] \<and> a_balance k' = 27"
proof -
  let ?k = "add_receive ''tx'' 9 (fresh_token None)"
  obtain t s where first: "ReceiveTokenTransaction receiving_dag ref_txns id ''did:tupelo:a'' (ref_tip 0) (coin_txn ''tx'') ref_start = (Ok t, s)"
    and A: "tokens_rel receiving_dag (t, s) [TokenName_String coin \<mapsto> ?k]" using coin_received_once by blast
  have new: "set [''u'', ''v''] \<inter> set (received_ids ?k) = {}" "distinct [''u'', ''v'']"
    and b: "a_balance ?k = 9" by (simp_all add: received_ids_def add_receive_def fresh_token_def)
  have E: "\<forall>i. txn_Type (coin_txn i) = RECEIVETOKEN \<and>
      EnsureReceiveTokenPayload ref_txns (coin_txn i) = Ok (sent_coin\<lparr>rtp_SendTokenTransactionId := i\<rparr>)"
    using coin_txn_payload by blast
  have k: "[TokenName_String coin \<mapsto> ?k] (TokenName_String coin) = Some ?k" by simp
  obtain t' s' k' where again: "play (ReceiveTokenTransaction receiving_dag ref_txns id) ''did:tupelo:a'' (map coin_txn [''u'', ''v'']) t s = (Ok t', s')"
    and k': "tokens_rel receiving_dag (t', s') ([TokenName_String coin \<mapsto> ?k](TokenName_String coin \<mapsto> k'))"
      "a_balance k' = a_balance ?k + of_nat (length [''u'', ''v'']) * ts_Amount coin_sent"
    using receive_id_unchecked [OF receiving_dag_total A k E sent_coin_steps(2,4) receiving_steps(4,5) new(2,1), THEN conjunct1]
    by blast
  have "tokens_rel receiving_dag (t', s') [TokenName_String coin \<mapsto> k']" "a_balance k' = 27"
    using k' b unfolding fun_upd_upd by (simp_all add: coin_sent_def)
  with first again show ?thesis by blast
qed

theorem received_where_sent_witness:
  "\<exists>t' s' pf. ReceiveTokenTransaction receiving_dag ref_txns id ''did:tupelo:a'' (ref_tip 0) (coin_txn ''tx'') ref_start = (Ok t', s') \<and>
     rtp_Proof sent_coin = Some pf \<and> Verify ref_crypto ref_kyber ref_proofs pf 2 (map sk_verKey ref_keys) = Ok True \<and>
     resolves receiving_dag (fst receiver_tree) [''id''] (snd receiver_tree) (GString (ts_Destination coin_sent))"
proof -
  have same: "coin_txn ''tx'' = (empty_txn RECEIVETOKEN)\<lparr>txn_ReceiveTokenPayload := Some sent_coin\<rparr>"
    by (simp add: coin_txn_def sent_coin_def receive_coin_def)
  obtain t' s' where run: "ReceiveTokenTransaction receiving_dag ref_txns id ''did:tupelo:a'' (ref_tip 0) (coin_txn ''tx'') ref_start = (Ok t', s')"
    using coin_received_once by blast
  have mem: "coin_txn ''tx'' \<in> set (blk_Transactions (bwh_Block sent_coin_block))" by (simp add: same sent_coin_block_def)
  have one: "\<forall>sd. GetSenderDagFromReceive receiving_dag sent_coin = Ok sd \<longrightarrow> (\<exists>x. linked_sends receiving_dag sd \<subseteq> {x})"
    using sent_coin_steps(4) sender_one_send by auto
  from received_where_sent [OF receiving_laws receiving_start _ _ sent_coin_accepted mem coin_txn_payload(1)
      sent_coin_steps(1) [folded same] one run]
  obtain pf tip sds nm snt where r: "rtp_Proof sent_coin = Some pf" "Verify ref_crypto ref_kyber ref_proofs pf 2 (map sk_verKey ref_keys) = Ok True"
    "GetSenderDagFromReceive receiving_dag sent_coin = Ok (tip, sds)" "linked_sends receiving_dag (tip, sds) = {(TokenName_String nm, snt)}"
    "resolves receiving_dag (fst receiver_tree) [''id''] (snd receiver_tree) (GString (ts_Destination snt))"
    by auto
  then have "snt = coin_sent" using sent_coin_steps(4) sender_one_send by auto
  with r run show ?thesis by blast
qed

section \<open>Leaves with two sends\<close>

lemma two_index: "index_map 0 [a, b] [] = [(go_string_of_int 0, a), (go_string_of_int 1, b)]"
  by (simp add: go_string_of_int_def char_of_def bit_0)

text \<open>With two sends in the leaves the group may check one and credit the other. \<^verbatim>\<open>GetSendTokenFromReceive\<close>
  takes the first linked send in the order Go happens to visit a map, each time anew. So a
  payload whose leaves contain a send to this tree and another send of the same token, to
  whatever destination, can pass \<^verbatim>\<open>IsTokenRecipient\<close> with the first and be credited
  with the amount of the second.\<close>

theorem other_send_credited:
  assumes "dag_total D" "tokens_rel D (t, s) A" "blk_Transactions (bwh_Block b) = [txn]" "txn_Type txn = RECEIVETOKEN"
    and "EnsureReceiveTokenPayload E txn = Ok p" "cid_Cast D (rtp_Tip p) = Ok tip" "GetSenderDagFromReceive D p = Ok (tip, sds)"
    and "dag_Resolve D tip [''tree'', ''_tupelo'', ''tokens''] sds = Ok (GMap [(nm, GCid c0)], [])" "dag_Get D c0 sds = Ok n0"
    and "TokenName_String (TokenNameFromString nm) = nm"
    and "dag_Resolve D tip [''tree'', ''_tupelo'', ''tokens'', nm, ''sends''] sds = Ok (GList [GCid c1, GCid c2], [])"
    and "dag_Get D c1 sds = Ok n1" "cbor_DecodeIntoSend D (node_RawData n1) = Ok snt1"
    and "dag_Get D c2 sds = Ok n2" "cbor_DecodeIntoSend D (node_RawData n2) = Ok snt2"
    and "dag_Resolve D (fst tree) [''id''] (snd tree) = Ok (GString (ts_Destination snt1), r)"
    and "k = (case A nm of None \<Rightarrow> fresh_token None | Some k \<Rightarrow> k)" "rtp_SendTokenTransactionId p \<notin> set (received_ids k)"
  shows "\<exists>visit visit'. (\<forall>m. set (visit m) = set m) \<and> (\<forall>m. set (visit' m) = set m) \<and>
    IsTokenRecipient D E visit tree b = Ok True \<and>
    (\<exists>t' s'. ReceiveTokenTransaction D E visit' did t txn s = (Ok t', s') \<and>
       tokens_rel D (t', s') (A(nm \<mapsto> add_receive (rtp_SendTokenTransactionId p) (ts_Amount snt2) k)))"
proof -
  let ?nm = "TokenNameFromString nm"
  have name: "GetTokenNameFromReceive D id (tip, sds) = Ok ?nm" "GetTokenNameFromReceive D rev (tip, sds) = Ok ?nm"
    using assms(8,9) by (simp_all add: GetTokenNameFromReceive_def)
  have sends: "GetSendTokenFromReceive D id (tip, sds) ?nm = Ok snt1" "GetSendTokenFromReceive D rev (tip, sds) ?nm = Ok snt2"
    using assms(10-15) two_index by (simp_all add: GetSendTokenFromReceive_def label_consts)
  have "getReceiveTokenPayloads E [txn] = Ok [p]" using assms(4,5) by (simp add: getReceiveTokenPayloads_def)
  then have "IsTokenRecipient D E id tree b = Ok True"
    using assms(3,7,16) name(1) sends(1) by (simp add: IsTokenRecipient_def as_string_def)
  moreover have "\<exists>t' s'. ReceiveTokenTransaction D E rev did t txn s = (Ok t', s') \<and>
       tokens_rel D (t', s') (A(TokenName_String ?nm \<mapsto> add_receive (rtp_SendTokenTransactionId p) (ts_Amount snt2) k))"
    by (rule dag_total.receive_any_id [OF assms(1,2,5) _ assms(7) name(2) sends(2)]) (use assms(6,10,17,18) in simp_all)
  ultimately show ?thesis unfolding assms(10) by (intro exI [of _ id] exI [of _ rev]) auto
qed

text \<open>A sender that sent nine to this tree and ninety to another.\<close>

definition other_sent :: TokenSend where
  "other_sent = \<lparr>ts_Id = ''ty'', ts_Amount = 90, ts_Destination = ''did:tupelo:c''\<rparr>"

definition two_sends_store :: ref_store where
  "two_sends_store = \<lparr>
     rs_trees = [[([''tree'', ''_tupelo'', ''tokens'', ''did:tupelo:b:coin'', ''sends''],
          GCids [Cid (1 # ref_enc (GTokenSend coin_sent)), Cid (1 # ref_enc (GTokenSend other_sent))]),
        ([''tree'', ''_tupelo'', ''tokens''], GMap [(''did:tupelo:b:coin'', GCid (Cid [1, 3]))])]],
     rs_nodes = [[3], ref_enc (GTokenSend coin_sent), ref_enc (GTokenSend other_sent)]\<rparr>"

definition two_sends_dag :: "ref_store dag_lib" where
  "two_sends_dag = ref_dag\<lparr>dag_NewDagWithNodes := \<lambda>_. Ok (ref_tip 0, two_sends_store)\<rparr>"

lemma two_sends_total: "dag_total two_sends_dag"
  unfolding two_sends_dag_def by (rule dag_total_NewDag [OF ref.dag_total_axioms])

theorem other_send_credited_witness:
  "\<exists>visit visit'. IsTokenRecipient two_sends_dag ref_txns visit receiver_tree sent_coin_block = Ok True \<and>
     (\<exists>t' s'. ReceiveTokenTransaction two_sends_dag ref_txns visit' ''did:tupelo:a'' (ref_tip 0) (coin_txn ''tx'') ref_start = (Ok t', s') \<and>
        tokens_rel two_sends_dag (t', s') [''did:tupelo:b:coin'' \<mapsto> add_receive ''tx'' 90 (fresh_token None)])"
proof -
  let ?D = two_sends_dag and ?nm = "''did:tupelo:b:coin''"
  have start: "tokens_rel ?D (ref_tip 0, ref_start) (\<lambda>_. None)"
    using no_token_at_start by (simp add: tokens_rel_def tree_rel_def resolves_def two_sends_dag_def)
  have txn: "blk_Transactions (bwh_Block sent_coin_block) = [coin_txn ''tx'']"
    by (simp add: sent_coin_block_def coin_txn_def sent_coin_def receive_coin_def)
  have d: "cbor_DecodeIntoSend ?D (node_RawData \<lparr>node_Cid = c, node_RawData = ref_enc (GTokenSend coin_sent)\<rparr>) = Ok coin_sent"
      "cbor_DecodeIntoSend ?D (node_RawData \<lparr>node_Cid = c, node_RawData = ref_enc (GTokenSend other_sent)\<rparr>) = Ok other_sent" for c
    by (simp_all add: two_sends_dag_def ref_dec_send_def)
  have r: "dag_Resolve ?D (ref_tip 0) [''tree'', ''_tupelo'', ''tokens''] two_sends_store = Ok (GMap [(?nm, GCid (Cid [1, 3]))], [])"
      "dag_Resolve ?D (ref_tip 0) [''tree'', ''_tupelo'', ''tokens'', ?nm, ''sends''] two_sends_store =
         Ok (GList [GCid (Cid (1 # ref_enc (GTokenSend coin_sent))), GCid (Cid (1 # ref_enc (GTokenSend other_sent)))], [])"
    by (simp_all add: two_sends_dag_def ref_dag_def ref_read_def ref_tree_def ref_tip_def two_sends_store_def ref_resolve_def)
  have g: "dag_Get ?D (Cid (1 # e)) two_sends_store = Ok \<lparr>node_Cid = Cid (1 # e), node_RawData = e\<rparr>"
    if "e \<in> set (rs_nodes two_sends_store)" for e
    using that by (simp add: two_sends_dag_def ref_get_def)
  have n: "TokenName_String (TokenNameFromString ?nm) = ?nm" by code_simp
  have i: "dag_Resolve ?D (fst receiver_tree) [''id''] (snd receiver_tree) = Ok (GString (ts_Destination coin_sent), [])"
    by (simp add: two_sends_dag_def ref_dag_def ref_read_def ref_tree_def ref_tip_def ref_resolve_def receiver_tree_def coin_sent_def)
  have p: "cid_Cast ?D (rtp_Tip (sent_coin\<lparr>rtp_SendTokenTransactionId := ''tx''\<rparr>)) = Ok (ref_tip 0)"
      "GetSenderDagFromReceive ?D (sent_coin\<lparr>rtp_SendTokenTransactionId := ''tx''\<rparr>) = Ok (ref_tip 0, two_sends_store)"
    by (simp_all add: GetSenderDagFromReceive_def two_sends_dag_def ref_dag_def sent_coin_def receive_coin_def ref_tip_def)
  have g0: "dag_Get ?D (Cid [1, 3]) two_sends_store = Ok \<lparr>node_Cid = Cid [1, 3], node_RawData = [3]\<rparr>"
    and g1: "dag_Get ?D (Cid (1 # ref_enc (GTokenSend coin_sent))) two_sends_store =
      Ok \<lparr>node_Cid = Cid (1 # ref_enc (GTokenSend coin_sent)), node_RawData = ref_enc (GTokenSend coin_sent)\<rparr>"
    and g2: "dag_Get ?D (Cid (1 # ref_enc (GTokenSend other_sent))) two_sends_store =
      Ok \<lparr>node_Cid = Cid (1 # ref_enc (GTokenSend other_sent)), node_RawData = ref_enc (GTokenSend other_sent)\<rparr>"
    by (rule g; simp add: two_sends_store_def)+
  have "rtp_SendTokenTransactionId (sent_coin\<lparr>rtp_SendTokenTransactionId := ''tx''\<rparr>) \<notin> set (received_ids (fresh_token None))"
    by (simp add: received_ids_def fresh_token_def)
  from other_send_credited [OF two_sends_total start txn coin_txn_payload(1,2) p r(1) g0 n r(2) g1 d(1) g2 d(2) i _ this]
  show ?thesis by (fastforce simp: other_sent_def)
qed

end
