(* ===== verification/Human_Config.thy ===== *)
theory Human_Config
  imports Validators
begin

text \<open>
  \<^verbatim>\<open>src/gossip/types/humanconfig.go\<close>: the registries of transactors and validator generators by
  name, and the conversion of a configuration that people write (TOML, with keys in hex and
  names for functions) into the configuration of a notary group. The decoders of TOML and
  of hex and the tables that the protobuf compiler generates are parameters.
\<close>

section \<open>The registries\<close>

text \<open>
  \<^verbatim>\<open>type_value\<close> and \<^verbatim>\<open>type_name\<close> stand for \<^verbatim>\<open>transactions.Transaction_Type_value\<close> and \<^verbatim>\<open>Transaction_Type_name\<close>.
  A registry is a package-level map that the \<^verbatim>\<open>Register\<close> functions change.
\<close>

type_synonym 'f registry = "string \<rightharpoonup> 'f"

definition unknown_transaction :: goerr where
  "unknown_transaction = Errorf ''error: you must specify a name that is specified in transactions protobufs'' []"

definition RegisterTransactor ::
  "(string \<rightharpoonup> Transaction_Type) \<Rightarrow> string \<Rightarrow> 't \<Rightarrow> ('t registry, unit) eff" where
  "RegisterTransactor type_value name fn transactorRegistry =
     (case type_value name of
        None \<Rightarrow> (Fail unknown_transaction, transactorRegistry)
      | Some _ \<Rightarrow> (case transactorRegistry name of
          Some _ \<Rightarrow> (Fail (Errorf ''error: %s already exists in the transactor registry'' []), transactorRegistry)
        | None \<Rightarrow> (Ok (), transactorRegistry(name \<mapsto> fn))))"

text \<open>\<^verbatim>\<open>panic(err)\<close> on an error.\<close>

definition or_panic :: "('s, 'a) eff \<Rightarrow> ('s, 'a) eff" where
  "or_panic m s = (case m s of (Fail e, s') \<Rightarrow> (Panic ''registration error'', s') | r \<Rightarrow> r)"

definition mustRegisterTransactor ::
  "(string \<rightharpoonup> Transaction_Type) \<Rightarrow> string \<Rightarrow> 't \<Rightarrow> ('t registry, unit) eff" where
  "mustRegisterTransactor type_value name fn = or_panic (RegisterTransactor type_value name fn)"

definition RegisterValidatorGenerator :: "string \<Rightarrow> 'g \<Rightarrow> ('g registry, unit) eff" where
  "RegisterValidatorGenerator name fn validatorGeneratorRegistry =
     (case validatorGeneratorRegistry name of
        Some _ \<Rightarrow> (Fail (Errorf ''error: %s already exists in the validator registry'' []), validatorGeneratorRegistry)
      | None \<Rightarrow> (Ok (), validatorGeneratorRegistry(name \<mapsto> fn)))"

definition mustRegisterValidatorGenerator :: "string \<Rightarrow> 'g \<Rightarrow> ('g registry, unit) eff" where
  "mustRegisterValidatorGenerator name fn = or_panic (RegisterValidatorGenerator name fn)"

text \<open>
  \<^verbatim>\<open>init\<close>: the entries of \<^verbatim>\<open>DefaultTransactors\<close> in the order Go visits them; a type that the
  protobuf table does not name has the empty name.
\<close>

fun init_transactors ::
  "(string \<rightharpoonup> Transaction_Type) \<Rightarrow> (Transaction_Type \<Rightarrow> string) \<Rightarrow> (Transaction_Type \<times> 't) list \<Rightarrow> ('t registry, unit) eff" where
  "init_transactors type_value type_name [] = eret ()"
| "init_transactors type_value type_name ((enum, fn) # rest) =
     ebind (mustRegisterTransactor type_value (type_name enum) fn) (\<lambda>_.
     init_transactors type_value type_name rest)"

definition init_validators ::
  "'s dag_lib \<Rightarrow> txn_lib \<Rightarrow> visit_order \<Rightarrow> ('e, 'd, 'sc) crypto_lib \<Rightarrow> ('k, 'p) kyber \<Rightarrow> block_lib \<Rightarrow>
     (goval \<Rightarrow> string list res) \<Rightarrow> ('s ValidatorGenerator registry, unit) eff" where
  "init_validators D E visit C K B ToStrings =
     ebind (mustRegisterValidatorGenerator ''ISOWNER'' (WrapStatelessValidator (IsOwner D C K B ToStrings))) (\<lambda>_.
     ebind (mustRegisterValidatorGenerator ''ISRECIPIENT'' (WrapStatelessValidator (IsTokenRecipient D E visit))) (\<lambda>_.
     mustRegisterValidatorGenerator ''HASBURN'' HasBurn))"

section \<open>Configurations as people write them\<close>

record pb_PublicKeySet =
  pbk_DestKey :: bytes
  pbk_VerKey :: bytes

text \<open>\<^verbatim>\<open>config.NotaryGroup\<close> of the protobuf messages.\<close>

record pb_NotaryGroup =
  hc_Id :: string
  hc_TransactionToken :: string
  hc_BurnAmount :: u64
  hc_TransactionTopic :: string
  hc_CommitTopic :: string
  hc_BootstrapAddresses :: "string list"
  hc_ValidatorGenerators :: "string list"
  hc_Transactions :: "string list"
  hc_Signers :: "pb_PublicKeySet list"

record TomlPublicKeySet =
  tks_VerKeyHex :: string
  tks_DestKeyHex :: string

record TomlConfig =
  tc_NotaryGroup :: "pb_NotaryGroup option"
  tc_Signers :: "TomlPublicKeySet list"

definition toConfigPublicKeySet :: "(string \<Rightarrow> bytes res) \<Rightarrow> TomlPublicKeySet \<Rightarrow> pb_PublicKeySet res" where
  "toConfigPublicKeySet hex_Decode tpubset =
     rbind (wrapf ''error decoding verkey: %v'' (hex_Decode (tks_VerKeyHex tpubset))) (\<lambda>blsBits.
     rbind (wrapf ''error decoding destkey: %v'' (hex_Decode (tks_DestKeyHex tpubset))) (\<lambda>ecdsaBits.
     Ok \<lparr>pbk_DestKey = ecdsaBits, pbk_VerKey = blsBits\<rparr>))"

fun toPBConfig_loop :: "(string \<Rightarrow> bytes res) \<Rightarrow> TomlPublicKeySet list \<Rightarrow> pb_PublicKeySet list res" where
  "toPBConfig_loop hex_Decode [] = Ok []"
| "toPBConfig_loop hex_Decode (tomlPubKeySet # rest) =
     rbind (wrapf ''error converting hex to bytes: %v'' (toConfigPublicKeySet hex_Decode tomlPubKeySet)) (\<lambda>c.
     rbind (toPBConfig_loop hex_Decode rest) (\<lambda>cs. Ok (c # cs)))"

definition toPBConfig :: "(string \<Rightarrow> bytes res) \<Rightarrow> TomlConfig \<Rightarrow> pb_NotaryGroup res" where
  "toPBConfig hex_Decode tc =
     (case tc_NotaryGroup tc of
        None \<Rightarrow> Fail (Errorf ''no notary group config'' [])
      | Some ngConfig \<Rightarrow>
          rbind (toPBConfig_loop hex_Decode (tc_Signers tc)) (\<lambda>signers.
          Ok (ngConfig\<lparr>hc_Signers := signers\<rparr>)))"

definition bytesToKeys ::
  "('e, 'd, 'sc) crypto_lib \<Rightarrow> ('k, 'p) kyber \<Rightarrow> pb_PublicKeySet \<Rightarrow> ('e, 'p) PublicKeySet res" where
  "bytesToKeys C K pubSet =
     rbind (wrapf (''couldn'' @ CHR 0x27 # ''t unmarshal ECDSA pub key: %v'') (UnmarshalPubkey C (pbk_DestKey pubSet))) (\<lambda>ecdsaPub.
     rbind (BytesToVerKey K (pbk_VerKey pubSet)) (\<lambda>verKey.
     Ok \<lparr>pks_VerKey = verKey, pks_DestKey = ecdsaPub\<rparr>))"

fun named_generators :: "'g registry \<Rightarrow> 'g list \<Rightarrow> string list \<Rightarrow> 'g list res" where
  "named_generators registry generators [] = Ok generators"
| "named_generators registry generators (generatorName # names) =
     (case registry generatorName of
        None \<Rightarrow> Fail (Errorf ''error no generator of name %s'' [])
      | Some generator \<Rightarrow> named_generators registry (generators @ [generator]) names)"

fun named_transactors ::
  "(string \<rightharpoonup> Transaction_Type) \<Rightarrow> 't registry \<Rightarrow> (Transaction_Type \<rightharpoonup> 't) \<Rightarrow> string list \<Rightarrow> (Transaction_Type \<rightharpoonup> 't) res" where
  "named_transactors type_value registry txns [] = Ok txns"
| "named_transactors type_value registry txns (transactionName # names) =
     (case type_value transactionName of
        None \<Rightarrow> Fail unknown_transaction
      | Some enum \<Rightarrow> (case registry transactionName of
          None \<Rightarrow> Fail (Errorf ''error: you must specify a name that is registered using RegisterTransactor'' [])
        | Some fn \<Rightarrow> named_transactors type_value registry (txns(enum \<mapsto> fn)) names))"

fun key_sets ::
  "('e, 'd, 'sc) crypto_lib \<Rightarrow> ('k, 'p) kyber \<Rightarrow> pb_PublicKeySet list \<Rightarrow> ('e, 'p) PublicKeySet list res" where
  "key_sets C K [] = Ok []"
| "key_sets C K (humanPub # rest) =
     rbind (wrapf ''error getting signer from human: %v'' (bytesToKeys C K humanPub)) (\<lambda>pub.
     rbind (key_sets C K rest) (\<lambda>pubs. Ok (pub # pubs)))"

definition no_ID :: goerr where
  "no_ID = Errorf ''error ID cannot be nil'' []"

definition HumanConfigToConfig ::
  "('e, 'd, 'sc) crypto_lib \<Rightarrow> ('k, 'p) kyber \<Rightarrow> (string \<rightharpoonup> Transaction_Type) \<Rightarrow> 't registry \<Rightarrow> 'g registry \<Rightarrow>
     ('e, 'p, 'g, 't) Config \<Rightarrow> pb_NotaryGroup \<Rightarrow> ('e, 'p, 'g, 't) Config res" where
  "HumanConfigToConfig C K type_value transactorRegistry validatorGeneratorRegistry defaults hc =
     (let c = \<lparr>cfg_ID = hc_Id hc, cfg_TransactionToken = hc_TransactionToken hc, cfg_BurnAmount = hc_BurnAmount hc,
          cfg_TransactionTopic = hc_TransactionTopic hc, cfg_CommitTopic = hc_CommitTopic hc,
          cfg_ValidatorGenerators = [], cfg_Transactions = Map.empty, cfg_Signers = [],
          cfg_BootstrapAddresses = hc_BootstrapAddresses hc\<rparr> in
      if cfg_ID c = [] then Fail no_ID
      else
      let c = (if cfg_TransactionToken c = [] then c\<lparr>cfg_TransactionToken := cfg_TransactionToken defaults\<rparr> else c);
          c = (if cfg_BurnAmount c = 0 then c\<lparr>cfg_BurnAmount := cfg_BurnAmount defaults\<rparr> else c);
          c = (if cfg_TransactionTopic c = [] then c\<lparr>cfg_TransactionTopic := cfg_TransactionTopic defaults\<rparr> else c);
          c = (if cfg_CommitTopic c = [] then c\<lparr>cfg_CommitTopic := cfg_CommitTopic defaults\<rparr> else c) in
      rbind (if length (hc_ValidatorGenerators hc) > 0
             then named_generators validatorGeneratorRegistry (cfg_ValidatorGenerators c) (hc_ValidatorGenerators hc)
             else Ok (cfg_ValidatorGenerators defaults)) (\<lambda>generators.
      let c = c\<lparr>cfg_ValidatorGenerators := generators\<rparr> in
      rbind (if length (hc_Transactions hc) > 0
             then named_transactors type_value transactorRegistry Map.empty (hc_Transactions hc)
             else Ok (cfg_Transactions defaults)) (\<lambda>txns.
      let c = c\<lparr>cfg_Transactions := txns\<rparr> in
      rbind (key_sets C K (hc_Signers hc)) (\<lambda>signers.
      Ok (c\<lparr>cfg_Signers := signers\<rparr>)))))"

text \<open>The error of \<^verbatim>\<open>toPBConfig\<close> is dropped.\<close>

definition TomlToConfig ::
  "('e, 'd, 'sc) crypto_lib \<Rightarrow> ('k, 'p) kyber \<Rightarrow> (string \<rightharpoonup> Transaction_Type) \<Rightarrow> 't registry \<Rightarrow> 'g registry \<Rightarrow>
     ('e, 'p, 'g, 't) Config \<Rightarrow> (string \<Rightarrow> bytes res) \<Rightarrow> (string \<Rightarrow> TomlConfig res) \<Rightarrow> string \<Rightarrow> ('e, 'p, 'g, 't) Config res" where
  "TomlToConfig C K type_value transactorRegistry validatorGeneratorRegistry defaults hex_Decode toml_Decode tomlBytes =
     rbind (wrapf ''error decoding toml: %v'' (toml_Decode tomlBytes)) (\<lambda>tc.
     rbind (case toPBConfig hex_Decode tc of
         Fail e \<Rightarrow> Fail (Errorf ''error converting toml config to config'' []) | r \<Rightarrow> r) (\<lambda>hc.
     HumanConfigToConfig C K type_value transactorRegistry validatorGeneratorRegistry defaults hc))"

section \<open>Facts\<close>

lemma named_generators_Ok:
  "named_generators registry acc names = Ok gs \<longleftrightarrow> (\<exists>new. map registry names = map Some new \<and> gs = acc @ new)"
proof (induction registry acc names rule: named_generators.induct)
  case (2 registry acc name names)
  then show ?case by (cases "registry name") (auto simp: Cons_eq_map_conv)
qed auto

lemma named_transactors_eq:
  "\<forall>n \<in> set names. type_value n \<noteq> None \<and> registry n \<noteq> None \<Longrightarrow>
     named_transactors type_value registry txns names = Ok (fold (\<lambda>n m. m(the (type_value n) \<mapsto> the (registry n))) names txns)"
  by (induction names arbitrary: txns) auto

lemma named_transactors_ok:
  "is_ok (named_transactors type_value registry txns names) \<longleftrightarrow> (\<forall>n \<in> set names. type_value n \<noteq> None \<and> registry n \<noteq> None)"
  by (induction names arbitrary: txns) (auto split: option.splits)

lemma key_sets_Ok: "key_sets C K hs = Ok ks \<longleftrightarrow> map (bytesToKeys C K) hs = map Ok ks"
  by (induction hs arbitrary: ks) (auto simp: rbind_Ok_iff Cons_eq_map_conv)

lemma toPBConfig_loop_Ok: "toPBConfig_loop hex ts = Ok cs \<longleftrightarrow> map (toConfigPublicKeySet hex) ts = map Ok cs"
  by (induction ts arbitrary: cs) (auto simp: rbind_Ok_iff Cons_eq_map_conv)

definition remote_signer :: "('e, 'd, 'sc) crypto_lib \<Rightarrow> ('e, 'p) PublicKeySet \<Rightarrow> ('e, 'k, 'p) Signer" where
  "remote_signer C keySet = NewRemoteSigner C (pks_DestKey keySet) (pks_VerKey keySet)"

definition member_id :: "('e, 'd, 'sc) crypto_lib \<Rightarrow> ('e, 'p) PublicKeySet \<Rightarrow> string" where
  "member_id C keySet = Address_String C (address_or_null C (Address C (BLSToOwnership (pks_VerKey keySet))))"

lemma remote_signer_id [simp]: "sg_ID (remote_signer C ks) = member_id C ks"
  by (simp add: remote_signer_def member_id_def NewRemoteSigner_def)

lemma Config_NotaryGroup_remote:
  "Config_NotaryGroup C peer c None = Ok (group_of cfg_ID c (map (remote_signer C) (cfg_Signers c)))"
proof -
  have "add_signers_loop C peer None kss ng = Ok (fold AddSigner (map (remote_signer C) kss) ng)" for kss ng
    by (induction kss arbitrary: ng) (simp_all add: remote_signer_def)
  then show ?thesis by (simp add: Config_NotaryGroup_def group_of_def)
qed

lemma AddSigners_ID: "ng_ID (fold AddSigner ss g) = ng_ID g"
  by (induction ss arbitrary: g) (simp_all add: AddSigner_def)

text \<open>The three parts of a configuration that can be refused, and the rest of it.\<close>

definition chosen_generators :: "'g registry \<Rightarrow> ('e, 'p, 'g, 't) Config \<Rightarrow> pb_NotaryGroup \<Rightarrow> 'g list res" where
  "chosen_generators greg defaults hc = (if hc_ValidatorGenerators hc = [] then Ok (cfg_ValidatorGenerators defaults)
     else named_generators greg [] (hc_ValidatorGenerators hc))"

definition chosen_transactors ::
  "(string \<rightharpoonup> Transaction_Type) \<Rightarrow> 't registry \<Rightarrow> ('e, 'p, 'g, 't) Config \<Rightarrow> pb_NotaryGroup \<Rightarrow> (Transaction_Type \<rightharpoonup> 't) res" where
  "chosen_transactors tv treg defaults hc = (if hc_Transactions hc = [] then Ok (cfg_Transactions defaults)
     else named_transactors tv treg Map.empty (hc_Transactions hc))"

definition base_config :: "('e, 'p, 'g, 't) Config \<Rightarrow> pb_NotaryGroup \<Rightarrow> ('e, 'p, 'g, 't) Config" where
  "base_config defaults hc = \<lparr>cfg_ID = hc_Id hc,
     cfg_TransactionToken = (if hc_TransactionToken hc = [] then cfg_TransactionToken defaults else hc_TransactionToken hc),
     cfg_BurnAmount = (if hc_BurnAmount hc = 0 then cfg_BurnAmount defaults else hc_BurnAmount hc),
     cfg_TransactionTopic = (if hc_TransactionTopic hc = [] then cfg_TransactionTopic defaults else hc_TransactionTopic hc),
     cfg_CommitTopic = (if hc_CommitTopic hc = [] then cfg_CommitTopic defaults else hc_CommitTopic hc),
     cfg_ValidatorGenerators = [], cfg_Transactions = Map.empty, cfg_Signers = [],
     cfg_BootstrapAddresses = hc_BootstrapAddresses hc\<rparr>"

lemma HumanConfigToConfig_eq:
  "HumanConfigToConfig C K tv treg greg defaults hc = (if hc_Id hc = [] then Fail no_ID else
     rbind (chosen_generators greg defaults hc) (\<lambda>gs. rbind (chosen_transactors tv treg defaults hc) (\<lambda>ts.
     rbind (key_sets C K (hc_Signers hc)) (\<lambda>ks.
       Ok ((base_config defaults hc)\<lparr>cfg_ValidatorGenerators := gs, cfg_Transactions := ts, cfg_Signers := ks\<rparr>)))))"
  by (simp add: HumanConfigToConfig_def chosen_generators_def chosen_transactors_def base_config_def Let_def)

lemma map_Some_ex: "(\<exists>ys. map f xs = map Some ys) \<longleftrightarrow> (\<forall>x \<in> set xs. f x \<noteq> None)"
  by (induction xs) (auto simp: Cons_eq_map_conv)

lemma map_Ok_ex: "(\<exists>ys. map f xs = map Ok ys) \<longleftrightarrow> (\<forall>x \<in> set xs. is_ok (f x))"
  by (induction xs) (auto simp: Cons_eq_map_conv is_ok_iff)

lemma chosen_generators_ok: "is_ok (chosen_generators greg defaults hc) \<longleftrightarrow> (\<forall>g \<in> set (hc_ValidatorGenerators hc). greg g \<noteq> None)"
  unfolding map_Some_ex [symmetric] by (auto simp: chosen_generators_def is_ok_iff named_generators_Ok)

lemma chosen_generators_value:
  "chosen_generators greg defaults hc = Ok gs \<Longrightarrow>
     (if hc_ValidatorGenerators hc = [] then gs = cfg_ValidatorGenerators defaults
      else map Some gs = map greg (hc_ValidatorGenerators hc))"
  by (auto simp: chosen_generators_def named_generators_Ok)

lemma chosen_transactors_ok:
  "is_ok (chosen_transactors tv treg defaults hc) \<longleftrightarrow> (\<forall>n \<in> set (hc_Transactions hc). tv n \<noteq> None \<and> treg n \<noteq> None)"
  by (simp add: chosen_transactors_def named_transactors_ok)

lemma chosen_transactors_value:
  assumes "chosen_transactors tv treg defaults hc = Ok ts"
  shows "ts = (if hc_Transactions hc = [] then cfg_Transactions defaults
    else fold (\<lambda>n m. m(the (tv n) \<mapsto> the (treg n))) (hc_Transactions hc) Map.empty)"
proof -
  have "is_ok (chosen_transactors tv treg defaults hc)" using assms by simp
  then show ?thesis
    using assms named_transactors_eq [of "hc_Transactions hc" tv treg Map.empty]
    unfolding chosen_transactors_ok by (simp add: chosen_transactors_def split: if_splits)
qed

lemma key_sets_ok: "is_ok (key_sets C K hs) \<longleftrightarrow> (\<forall>k \<in> set hs. is_ok (bytesToKeys C K k))"
  unfolding map_Ok_ex [symmetric] by (simp add: is_ok_iff [of "key_sets C K hs"] key_sets_Ok)

lemma human_config_result:
  fixes defaults :: "('e, 'p, 'g, 't) Config"
  shows "(is_ok (HumanConfigToConfig C K tv treg greg defaults hc) \<longleftrightarrow> hc_Id hc \<noteq> [] \<and>
      (\<forall>g \<in> set (hc_ValidatorGenerators hc). greg g \<noteq> None) \<and>
      (\<forall>n \<in> set (hc_Transactions hc). tv n \<noteq> None \<and> treg n \<noteq> None) \<and>
      (\<forall>k \<in> set (hc_Signers hc). is_ok (bytesToKeys C K k))) \<and>
    (\<forall>c. HumanConfigToConfig C K tv treg greg defaults hc = Ok c \<longrightarrow>
      cfg_ID c = hc_Id hc \<and> cfg_BootstrapAddresses c = hc_BootstrapAddresses hc \<and>
      cfg_TransactionToken c = (if hc_TransactionToken hc = [] then cfg_TransactionToken defaults else hc_TransactionToken hc) \<and>
      cfg_BurnAmount c = (if hc_BurnAmount hc = 0 then cfg_BurnAmount defaults else hc_BurnAmount hc) \<and>
      cfg_TransactionTopic c = (if hc_TransactionTopic hc = [] then cfg_TransactionTopic defaults else hc_TransactionTopic hc) \<and>
      cfg_CommitTopic c = (if hc_CommitTopic hc = [] then cfg_CommitTopic defaults else hc_CommitTopic hc) \<and>
      (if hc_ValidatorGenerators hc = [] then cfg_ValidatorGenerators c = cfg_ValidatorGenerators defaults
       else map Some (cfg_ValidatorGenerators c) = map greg (hc_ValidatorGenerators hc)) \<and>
      cfg_Transactions c = (if hc_Transactions hc = [] then cfg_Transactions defaults
        else fold (\<lambda>n m. m(the (tv n) \<mapsto> the (treg n))) (hc_Transactions hc) Map.empty) \<and>
      map Ok (cfg_Signers c) = map (bytesToKeys C K) (hc_Signers hc))"
proof (intro conjI allI impI)
  have "is_ok (HumanConfigToConfig C K tv treg greg defaults hc) \<longleftrightarrow> hc_Id hc \<noteq> [] \<and> is_ok (chosen_generators greg defaults hc) \<and>
      is_ok (chosen_transactors tv treg defaults hc) \<and> is_ok (key_sets C K (hc_Signers hc))"
    unfolding HumanConfigToConfig_eq
    by (cases "chosen_generators greg defaults hc"; cases "chosen_transactors tv treg defaults hc"; cases "key_sets C K (hc_Signers hc)") auto
  then show "is_ok (HumanConfigToConfig C K tv treg greg defaults hc) \<longleftrightarrow> hc_Id hc \<noteq> [] \<and>
      (\<forall>g \<in> set (hc_ValidatorGenerators hc). greg g \<noteq> None) \<and>
      (\<forall>n \<in> set (hc_Transactions hc). tv n \<noteq> None \<and> treg n \<noteq> None) \<and>
      (\<forall>k \<in> set (hc_Signers hc). is_ok (bytesToKeys C K k))"
    unfolding chosen_generators_ok chosen_transactors_ok key_sets_ok .
next
  fix c assume "HumanConfigToConfig C K tv treg greg defaults hc = Ok c"
  then obtain gs ts ks where g: "chosen_generators greg defaults hc = Ok gs" "chosen_transactors tv treg defaults hc = Ok ts"
      "key_sets C K (hc_Signers hc) = Ok ks"
    and c: "c = (base_config defaults hc)\<lparr>cfg_ValidatorGenerators := gs, cfg_Transactions := ts, cfg_Signers := ks\<rparr>"
    unfolding HumanConfigToConfig_eq by (auto simp: rbind_Ok_iff split: if_splits)
  show "cfg_ID c = hc_Id hc" "cfg_BootstrapAddresses c = hc_BootstrapAddresses hc"
    "cfg_TransactionToken c = (if hc_TransactionToken hc = [] then cfg_TransactionToken defaults else hc_TransactionToken hc)"
    "cfg_BurnAmount c = (if hc_BurnAmount hc = 0 then cfg_BurnAmount defaults else hc_BurnAmount hc)"
    "cfg_TransactionTopic c = (if hc_TransactionTopic hc = [] then cfg_TransactionTopic defaults else hc_TransactionTopic hc)"
    "cfg_CommitTopic c = (if hc_CommitTopic hc = [] then cfg_CommitTopic defaults else hc_CommitTopic hc)"
    by (simp_all add: c base_config_def)
  show "cfg_Transactions c = (if hc_Transactions hc = [] then cfg_Transactions defaults
        else fold (\<lambda>n m. m(the (tv n) \<mapsto> the (treg n))) (hc_Transactions hc) Map.empty)"
    using chosen_transactors_value [OF g(2)] by (simp add: c)
  show "map Ok (cfg_Signers c) = map (bytesToKeys C K) (hc_Signers hc)" using g(3) by (simp add: c key_sets_Ok)
  show "if hc_ValidatorGenerators hc = [] then cfg_ValidatorGenerators c = cfg_ValidatorGenerators defaults
       else map Some (cfg_ValidatorGenerators c) = map greg (hc_ValidatorGenerators hc)"
    using chosen_generators_value [OF g(1)] by (simp add: c)
qed

section \<open>Properties\<close>

text \<open>C31: what a human-readable configuration means. It is accepted exactly if it has an id, every validator
  generator it names is registered, every transaction it names is one of the protocol's
  and has a registered transactor, and the keys of all signers can be read; otherwise there is an error
  (or, for a bad BLS key, a panic). The configuration it yields has its id, its bootstrap
  addresses, its token, burn amount and topics unless they are empty, the named generators in order,
  the named transactors, and one key set per signer in order; what it leaves out is the default's.\<close>

theorem human_config_exact:
  fixes defaults :: "('e, 'p, 'g, 't) Config"
  shows "(is_ok (HumanConfigToConfig C K tv treg greg defaults hc) \<longleftrightarrow> hc_Id hc \<noteq> [] \<and>
      (\<forall>g \<in> set (hc_ValidatorGenerators hc). greg g \<noteq> None) \<and>
      (\<forall>n \<in> set (hc_Transactions hc). tv n \<noteq> None \<and> treg n \<noteq> None) \<and>
      (\<forall>k \<in> set (hc_Signers hc). is_ok (bytesToKeys C K k))) \<and>
    (\<forall>c. HumanConfigToConfig C K tv treg greg defaults hc = Ok c \<longrightarrow>
      cfg_ID c = hc_Id hc \<and> cfg_BootstrapAddresses c = hc_BootstrapAddresses hc \<and>
      cfg_TransactionToken c = (if hc_TransactionToken hc = [] then cfg_TransactionToken defaults else hc_TransactionToken hc) \<and>
      cfg_BurnAmount c = (if hc_BurnAmount hc = 0 then cfg_BurnAmount defaults else hc_BurnAmount hc) \<and>
      cfg_TransactionTopic c = (if hc_TransactionTopic hc = [] then cfg_TransactionTopic defaults else hc_TransactionTopic hc) \<and>
      cfg_CommitTopic c = (if hc_CommitTopic hc = [] then cfg_CommitTopic defaults else hc_CommitTopic hc) \<and>
      (if hc_ValidatorGenerators hc = [] then cfg_ValidatorGenerators c = cfg_ValidatorGenerators defaults
       else map Some (cfg_ValidatorGenerators c) = map greg (hc_ValidatorGenerators hc)) \<and>
      cfg_Transactions c = (if hc_Transactions hc = [] then cfg_Transactions defaults
        else fold (\<lambda>n m. m(the (tv n) \<mapsto> the (treg n))) (hc_Transactions hc) Map.empty) \<and>
      map Ok (cfg_Signers c) = map (bytesToKeys C K) (hc_Signers hc))"
  by (rule human_config_result)

text \<open>A configuration of the reference libraries: one signer, the burn validator, two transactors.\<close>

definition ref_type_value :: "string \<rightharpoonup> Transaction_Type" where
  "ref_type_value = [''MINTTOKEN'' \<mapsto> MINTTOKEN, ''SENDTOKEN'' \<mapsto> SENDTOKEN]"

definition ref_human :: pb_NotaryGroup where
  "ref_human = \<lparr>hc_Id = ''g'', hc_TransactionToken = [], hc_BurnAmount = 10, hc_TransactionTopic = [], hc_CommitTopic = ''c'',
     hc_BootstrapAddresses = [], hc_ValidatorGenerators = [''HASBURN''], hc_Transactions = [''SENDTOKEN'', ''MINTTOKEN''],
     hc_Signers = [\<lparr>pbk_DestKey = FromECDSAPub ref_crypto [7], pbk_VerKey = vk_value (sk_verKey (ref_signer 5))\<rparr>]\<rparr>"

lemma ref_bytesToKeys:
  "bytesToKeys ref_crypto ref_kyber \<lparr>pbk_DestKey = FromECDSAPub ref_crypto e, pbk_VerKey = vk_value (sk_verKey (ref_signer n))\<rparr> =
     Ok \<lparr>pks_VerKey = sk_verKey (ref_signer n), pks_DestKey = e\<rparr>"
proof -
  have "BytesToVerKey ref_kyber (vk_value (sk_verKey (ref_signer n))) = Ok (sk_verKey (ref_signer n))"
    using ref_bls.BytesToVerKey_key_bytes [of "vk_public (sk_verKey (ref_signer n))"]
    by (simp add: ref_bls.key_bytes_def ref_signer_def bytes_or_nil_def)
  then show ?thesis using ref_signing.unmarshal [of e] by (simp add: bytesToKeys_def)
qed

theorem human_config_exact_witness:
  "\<exists>c. HumanConfigToConfig ref_crypto ref_kyber ref_type_value [''MINTTOKEN'' \<mapsto> 1, ''SENDTOKEN'' \<mapsto> (2 :: nat)] [''HASBURN'' \<mapsto> ()]
       (DefaultConfig [] Map.empty) ref_human = Ok c \<and>
     cfg_BurnAmount c = 10 \<and> cfg_TransactionTopic c = ''tupelo-transaction-broadcast'' \<and> cfg_Transactions c MINTTOKEN = Some 1 \<and>
     map pks_DestKey (cfg_Signers c) = [[7]]"
proof -
  let ?r = "HumanConfigToConfig ref_crypto ref_kyber ref_type_value [''MINTTOKEN'' \<mapsto> 1, ''SENDTOKEN'' \<mapsto> (2 :: nat)] [''HASBURN'' \<mapsto> ()]
       (DefaultConfig [] Map.empty) ref_human"
  note exact = human_config_exact [of ref_crypto ref_kyber ref_type_value "[''MINTTOKEN'' \<mapsto> 1, ''SENDTOKEN'' \<mapsto> (2 :: nat)]"
      "[''HASBURN'' \<mapsto> ()]" "DefaultConfig [] Map.empty" ref_human]
  have "is_ok ?r" unfolding exact [THEN conjunct1] by (simp add: ref_human_def ref_type_value_def ref_bytesToKeys)
  then obtain c where c: "?r = Ok c" by (auto simp: is_ok_iff)
  from exact [THEN conjunct2, rule_format, OF c]
  have "cfg_BurnAmount c = 10" "cfg_TransactionTopic c = ''tupelo-transaction-broadcast''" "cfg_Transactions c MINTTOKEN = Some 1"
    "map Ok (cfg_Signers c) = [Ok \<lparr>pks_VerKey = sk_verKey (ref_signer 5), pks_DestKey = [7]\<rparr>]"
    by (simp_all add: ref_human_def ref_type_value_def DefaultConfig_def ref_bytesToKeys)
  with c show ?thesis by (auto simp: map_eq_Cons_conv)
qed

text \<open>C32: from TOML to a group. Write a TOML configuration that lists, in hex, the verification
  key and the public key of each of the members. It is read exactly if it has an id and every validator generator and every transaction that it names
  is registered (it may name none). The configuration read has the named generators in order and the named transactors, or the defaults where none are named, and the notary
  group made from it is the group of exactly these members: the ids are those of their verification
  keys in sorted order, the quorum is two thirds of their number rounded up, and if the ids
  differ each member is found under its id with both its keys.\<close>

theorem toml_group:
  fixes K :: "('k, 'p) kyber" and members :: "('e, 'p) PublicKeySet list" and defaults :: "('e, 'p, 'g, 't) Config"
  assumes "ecdsa_scheme C" "\<forall>b. hex_Decode (hex_Encode b) = Ok b"
    and "\<forall>ks \<in> set members. BytesToVerKey K (VerKey_Bytes (pks_VerKey ks)) = Ok (pks_VerKey ks)"
    and "toml_Decode toml = Ok \<lparr>tc_NotaryGroup = Some ngc, tc_Signers = map (\<lambda>ks.
       \<lparr>tks_VerKeyHex = hex_Encode (VerKey_Bytes (pks_VerKey ks)), tks_DestKeyHex = hex_Encode (FromECDSAPub C (pks_DestKey ks))\<rparr>) members\<rparr>"
    and "length members < 2 ^ 51"
  shows "(is_ok (TomlToConfig C K tv treg greg defaults hex_Decode toml_Decode toml) \<longleftrightarrow> hc_Id ngc \<noteq> [] \<and>
      (\<forall>g \<in> set (hc_ValidatorGenerators ngc). greg g \<noteq> None) \<and>
      (\<forall>n \<in> set (hc_Transactions ngc). tv n \<noteq> None \<and> treg n \<noteq> None)) \<and>
    (\<forall>c. TomlToConfig C K tv treg greg defaults hex_Decode toml_Decode toml = Ok c \<longrightarrow>
      (if hc_ValidatorGenerators ngc = [] then cfg_ValidatorGenerators c = cfg_ValidatorGenerators defaults
       else map Some (cfg_ValidatorGenerators c) = map greg (hc_ValidatorGenerators ngc)) \<and>
      cfg_Transactions c = (if hc_Transactions ngc = [] then cfg_Transactions defaults
        else fold (\<lambda>n m. m(the (tv n) \<mapsto> the (treg n))) (hc_Transactions ngc) Map.empty) \<and>
      (\<exists>g :: ('e, 'k, 'p, ('e, 'p, 'g, 't) Config) NotaryGroup. Config_NotaryGroup C peer c None = Ok g \<and> ng_ID g = hc_Id ngc \<and>
        ng_sortedIds g = sort (map (member_id C) members) \<and>
        unat (QuorumCount g) = (2 * length members + 2) div 3 \<and>
        (distinct (map (member_id C) members) \<longrightarrow>
          (\<forall>ks \<in> set members. ng_Signers g (member_id C ks) = Some (remote_signer C ks)))))"
proof -
  let ?pb = "\<lambda>ks. \<lparr>pbk_DestKey = FromECDSAPub C (pks_DestKey ks), pbk_VerKey = VerKey_Bytes (pks_VerKey ks)\<rparr>"
  let ?hc = "ngc\<lparr>hc_Signers := map ?pb members\<rparr>"
  have "toPBConfig_loop hex_Decode (map (\<lambda>ks. \<lparr>tks_VerKeyHex = hex_Encode (VerKey_Bytes (pks_VerKey ks)),
      tks_DestKeyHex = hex_Encode (FromECDSAPub C (pks_DestKey ks))\<rparr>) members) = Ok (map ?pb members)"
    unfolding toPBConfig_loop_Ok using assms(2) by (simp add: toConfigPublicKeySet_def)
  then have read: "TomlToConfig C K tv treg greg defaults hex_Decode toml_Decode toml = HumanConfigToConfig C K tv treg greg defaults ?hc"
    using assms(4) by (simp add: TomlToConfig_def toPBConfig_def)
  have keys: "bytesToKeys C K (?pb ks) = Ok ks" if "ks \<in> set members" for ks
    using that assms(3) ecdsa_scheme.unmarshal [OF assms(1)] by (simp add: bytesToKeys_def)
  have "(\<exists>g :: ('e, 'k, 'p, ('e, 'p, 'g, 't) Config) NotaryGroup. Config_NotaryGroup C peer c None = Ok g \<and> ng_ID g = hc_Id ngc \<and>
        ng_sortedIds g = sort (map (member_id C) members) \<and>
        unat (QuorumCount g) = (2 * length members + 2) div 3 \<and>
        (distinct (map (member_id C) members) \<longrightarrow>
          (\<forall>ks \<in> set members. ng_Signers g (member_id C ks) = Some (remote_signer C ks))))"
    if c: "cfg_ID c = hc_Id ngc" "map Ok (cfg_Signers c) = map (bytesToKeys C K) (map ?pb members)" for c :: "('e, 'p, 'g, 't) Config"
  proof (intro exI conjI)
    have "map Ok (cfg_Signers c) = map Ok members" unfolding c(2) using keys by simp
    then have m: "cfg_Signers c = members" by (simp add: inj_on_def inj_map_eq_map)
    let ?g = "group_of cfg_ID c (map (remote_signer C) members) :: ('e, 'k, 'p, ('e, 'p, 'g, 't) Config) NotaryGroup"
    show "Config_NotaryGroup C peer c None = Ok ?g" by (simp add: Config_NotaryGroup_remote m)
    show "ng_ID ?g = hc_Id ngc" by (simp add: group_of_def AddSigners_ID) (simp add: NewNotaryGroupFromConfig_def c(1))
    show ids: "ng_sortedIds ?g = sort (map (member_id C) members)" by (simp add: group_of_ids comp_def)
    show "unat (QuorumCount ?g) = (2 * length members + 2) div 3" using unat_quorum [OF assms(5)] ids by (simp add: QuorumCount_def)
    show "distinct (map (member_id C) members) \<longrightarrow>
        (\<forall>ks \<in> set members. ng_Signers ?g (member_id C ks) = Some (remote_signer C ks))"
      using group_of_lookup [of "map (remote_signer C) members" "remote_signer C _" cfg_ID c] by (auto simp: comp_def)
  qed
  then show ?thesis
    using human_config_result [of C K tv treg greg defaults ?hc] keys unfolding read by simp
qed

definition ref_members :: "(bytes, u64) PublicKeySet list" where
  "ref_members = [\<lparr>pks_VerKey = sk_verKey (ref_signer 9), pks_DestKey = [7]\<rparr>, \<lparr>pks_VerKey = sk_verKey (ref_signer 5), pks_DestKey = [8]\<rparr>]"

text \<open>A hex coder that writes each byte as one character.\<close>

definition ref_hex :: "bytes \<Rightarrow> string" where
  "ref_hex bs = map (\<lambda>b. char_of (unat b)) bs"

definition ref_unhex :: "string \<Rightarrow> bytes res" where
  "ref_unhex s = Ok (map (\<lambda>c. of_nat (of_char c)) s)"

lemma ref_unhex_hex: "ref_unhex (ref_hex b) = Ok b"
proof -
  have "of_nat (of_char (char_of (unat x) :: char)) = (x :: byte)" for x
  proof -
    have "unat x < 256" using unsigned_less [of x] by simp
    then show ?thesis by (simp add: of_char_of)
  qed
  then show ?thesis by (simp add: ref_unhex_def ref_hex_def comp_def)
qed

theorem toml_group_witness:
  "\<exists>c. \<exists>g :: (bytes, u64, u64, (bytes, u64, unit, nat) Config) NotaryGroup.
     TomlToConfig ref_crypto ref_kyber ref_type_value [''MINTTOKEN'' \<mapsto> 1, ''SENDTOKEN'' \<mapsto> (2 :: nat)] [''HASBURN'' \<mapsto> ()]
       (DefaultConfig [] Map.empty) ref_unhex
       (\<lambda>_. Ok \<lparr>tc_NotaryGroup = Some ref_human, tc_Signers = map (\<lambda>ks.
          \<lparr>tks_VerKeyHex = ref_hex (VerKey_Bytes (pks_VerKey ks)), tks_DestKeyHex = ref_hex (FromECDSAPub ref_crypto (pks_DestKey ks))\<rparr>) ref_members\<rparr>) [] = Ok c \<and>
     cfg_ValidatorGenerators c = [()] \<and> cfg_Transactions c MINTTOKEN = Some 1 \<and>
     Config_NotaryGroup ref_crypto (\<lambda>_. Ok []) c None = Ok g \<and> ng_ID g = ''g'' \<and> unat (QuorumCount g) = 2"
proof -
  have k: "\<forall>ks \<in> set ref_members. BytesToVerKey ref_kyber (VerKey_Bytes (pks_VerKey ks)) = Ok (pks_VerKey ks)"
    by (simp add: ref_members_def VerKey_Bytes_def ref_signer_def BytesToVerKey_def bytes_or_nil_def)
  have h: "\<forall>b. ref_unhex (ref_hex b) = Ok b" by (simp add: ref_unhex_hex)
  have n: "length ref_members < 2 ^ 51" "length ref_members = 2" by (simp_all add: ref_members_def)
  have names: "hc_Id ref_human = ''g''" "hc_ValidatorGenerators ref_human = [''HASBURN'']" "hc_Transactions ref_human = [''SENDTOKEN'', ''MINTTOKEN'']"
    by (simp_all add: ref_human_def)
  note group = toml_group [where ngc = ref_human and tv = ref_type_value and treg = "[''MINTTOKEN'' \<mapsto> 1, ''SENDTOKEN'' \<mapsto> (2 :: nat)]"
      and greg = "[''HASBURN'' \<mapsto> ()]" and defaults = "DefaultConfig [] Map.empty" and toml = "[]" and peer = "\<lambda>_. Ok []",
      OF ref_signing.ecdsa_scheme_axioms h k refl n(1)]
  have "is_ok (TomlToConfig ref_crypto ref_kyber ref_type_value [''MINTTOKEN'' \<mapsto> 1, ''SENDTOKEN'' \<mapsto> (2 :: nat)] [''HASBURN'' \<mapsto> ()]
       (DefaultConfig [] Map.empty) ref_unhex
       (\<lambda>_. Ok \<lparr>tc_NotaryGroup = Some ref_human, tc_Signers = map (\<lambda>ks.
          \<lparr>tks_VerKeyHex = ref_hex (VerKey_Bytes (pks_VerKey ks)), tks_DestKeyHex = ref_hex (FromECDSAPub ref_crypto (pks_DestKey ks))\<rparr>) ref_members\<rparr>) [])"
    unfolding group [THEN conjunct1] names by (simp add: ref_type_value_def)
  then obtain c where c: "TomlToConfig ref_crypto ref_kyber ref_type_value [''MINTTOKEN'' \<mapsto> 1, ''SENDTOKEN'' \<mapsto> (2 :: nat)] [''HASBURN'' \<mapsto> ()]
       (DefaultConfig [] Map.empty) ref_unhex
       (\<lambda>_. Ok \<lparr>tc_NotaryGroup = Some ref_human, tc_Signers = map (\<lambda>ks.
          \<lparr>tks_VerKeyHex = ref_hex (VerKey_Bytes (pks_VerKey ks)), tks_DestKeyHex = ref_hex (FromECDSAPub ref_crypto (pks_DestKey ks))\<rparr>) ref_members\<rparr>) [] = Ok c"
    by (auto simp: is_ok_iff)
  from group [THEN conjunct2, rule_format, OF c] c show ?thesis
    unfolding names n(2) by (auto simp: ref_type_value_def)
qed

section \<open>The registries after start-up\<close>

text \<open>Registering the default transactors never panics and registers each under its protocol name, whatever order Go visits them in.\<close>

lemma init_transactors_ok:
  assumes "\<And>e. e \<in> fst ` set entries \<Longrightarrow> tv (tn e) = Some e" "distinct (map fst entries)" "tn ` fst ` set entries \<inter> dom reg = {}"
  shows "init_transactors tv tn entries reg = (Ok (), reg ++ map_of (map (\<lambda>(e, fn). (tn e, fn)) entries))"
  using assms
proof (induction entries arbitrary: reg)
  case (Cons x entries)
  obtain e fn where x [simp]: "x = (e, fn)" by fastforce
  have inj: "tn e' \<noteq> tn e" if "e' \<in> fst ` set entries" for e'
  proof
    assume eq: "tn e' = tn e"
    have "tv (tn e') = Some e'" "tv (tn e) = Some e" using Cons.prems(1) that by auto
    then have "e' = e" by (metis eq option.inject)
    then show False using that Cons.prems(2) by auto
  qed
  let ?m = "map_of (map (\<lambda>(e, fn). (tn e, fn)) entries)"
  have "reg (tn e) = None" "tv (tn e) = Some e" using Cons.prems(1,3) by auto
  then have reg: "mustRegisterTransactor tv (tn e) fn reg = (Ok (), reg(tn e \<mapsto> fn))"
    by (simp add: mustRegisterTransactor_def or_panic_def RegisterTransactor_def)
  have fresh: "tn e \<notin> tn ` fst ` set entries" using inj by (metis imageE)
  then have free: "tn ` fst ` set entries \<inter> dom (reg(tn e \<mapsto> fn)) = {}" using Cons.prems(3) by auto
  have rest: "init_transactors tv tn entries (reg(tn e \<mapsto> fn)) = (Ok (), reg(tn e \<mapsto> fn) ++ ?m)"
    by (rule Cons.IH [OF _ _ free]) (use Cons.prems(1,2) in auto)
  have "tn e \<notin> dom ?m" using fresh by (simp add: dom_map_of_conv_image_fst image_image case_prod_beta)
  then have "reg(tn e \<mapsto> fn) ++ ?m = reg ++ map_of (map (\<lambda>(e, fn). (tn e, fn)) (x # entries))"
    by (simp add: map_add_upd_left)
  moreover have "init_transactors tv tn (x # entries) reg = init_transactors tv tn entries (reg(tn e \<mapsto> fn))"
    by (simp add: ebind_def reg)
  ultimately show ?case using rest by metis
qed (simp add: eret_def)

end
