(* ===== verification/Store_Tracking.thy ===== *)
theory Store_Tracking
  imports Messages
begin

text \<open>
  \<^verbatim>\<open>src/gossip/client/reftracking.go\<close>: the wrapper around a DAG store that records which nodes were read
  and which were added, so that a client can send along what a signer needs to replay a
  block. Whatever processes a block (the \<^verbatim>\<open>chaintree\<close> library) reaches the store through its \<^verbatim>\<open>Get\<close> and
  \<^verbatim>\<open>Add\<close> only: it is a program that makes such calls, each continuing with the answer.
\<close>

section \<open>Stores and programs over them\<close>

text \<open>
  \<^verbatim>\<open>nodestore.DagStore\<close>: the calls that the sources make. A \<^verbatim>\<open>Get\<close> may also return nil without an error.
\<close>

record 'st store_lib =
  ds_Get :: "cid \<Rightarrow> 'st \<Rightarrow> node option res"
  ds_Add :: "node \<Rightarrow> ('st, unit) eff"

datatype 'a store_prog =
    Return 'a
  | GetNode cid "node option res \<Rightarrow> 'a store_prog"
  | AddNode node "unit res \<Rightarrow> 'a store_prog"

primrec exec ::
  "(cid \<Rightarrow> 's \<Rightarrow> node option res \<times> 's) \<Rightarrow> (node \<Rightarrow> ('s, unit) eff) \<Rightarrow> 'a store_prog \<Rightarrow> 's \<Rightarrow> 'a \<times> 's" where
  "exec get add (Return x) s = (x, s)"
| "exec get add (GetNode c k) s = (case get c s of (r, s') \<Rightarrow> exec get add (k r) s')"
| "exec get add (AddNode n k) s = (case add n s of (r, s') \<Rightarrow> exec get add (k r) s')"

text \<open>A program over the store itself.\<close>

definition run_store :: "'st store_lib \<Rightarrow> 'a store_prog \<Rightarrow> 'st \<Rightarrow> 'a \<times> 'st" where
  "run_store S = exec (\<lambda>c st. (ds_Get S c st, st)) (ds_Add S)"

text \<open>Programs one after the other, the second only if the first returns.\<close>

primrec prog_bind :: "'a store_prog \<Rightarrow> ('a \<Rightarrow> 'b store_prog) \<Rightarrow> 'b store_prog" where
  "prog_bind (Return x) f = f x"
| "prog_bind (GetNode c k) f = GetNode c (\<lambda>r. prog_bind (k r) f)"
| "prog_bind (AddNode n k) f = AddNode n (\<lambda>r. prog_bind (k r) f)"

lemma exec_bind: "exec g a (prog_bind p f) s = (case exec g a p s of (x, s') \<Rightarrow> exec g a (f x) s')"
  by (induction p arbitrary: s) (simp_all add: case_prod_beta)

section \<open>The tracking wrapper\<close>

text \<open>A \<^verbatim>\<open>map[cid.Cid]struct{}\<close> is the list of its keys; \<^verbatim>\<open>range\<close> visits them in the order \<^verbatim>\<open>visit\<close> gives.\<close>

type_synonym cidTracker = "cid list"

definition toSlice :: "(cid list \<Rightarrow> cid list) \<Rightarrow> cidTracker \<Rightarrow> cid list" where
  "toSlice visit ct = visit ct"

record 'st storeWrapper =
  swr_DagStore :: 'st
  swr_touched :: cidTracker
  swr_added :: cidTracker

definition wrapStoreForRefCounting :: "'st \<Rightarrow> 'st storeWrapper" where
  "wrapStoreForRefCounting store = \<lparr>swr_DagStore = store, swr_touched = [], swr_added = []\<rparr>"

definition storeWrapper_Get :: "'st store_lib \<Rightarrow> cid \<Rightarrow> 'st storeWrapper \<Rightarrow> node option res \<times> 'st storeWrapper" where
  "storeWrapper_Get S c sw =
     (case ds_Get S c (swr_DagStore sw) of
        Ok (Some n) \<Rightarrow> (Ok (Some n),
          if c \<in> set (swr_added sw) then sw else sw\<lparr>swr_touched := List.insert c (swr_touched sw)\<rparr>)
      | r \<Rightarrow> (r, sw))"

definition storeWrapper_Add :: "'st store_lib \<Rightarrow> node \<Rightarrow> ('st storeWrapper, unit) eff" where
  "storeWrapper_Add S n sw =
     (case ds_Add S n (swr_DagStore sw) of
        (Ok _, st) \<Rightarrow> (Ok (), sw\<lparr>swr_DagStore := st, swr_added := List.insert (node_Cid n) (swr_added sw)\<rparr>)
      | (r, st) \<Rightarrow> (r, sw\<lparr>swr_DagStore := st\<rparr>))"

fun cidToNodes :: "'st store_lib \<Rightarrow> 'st \<Rightarrow> cid list \<Rightarrow> node option list res" where
  "cidToNodes S st [] = Ok []"
| "cidToNodes S st (c # ids) =
     rbind (wrapf ''error getting node: %v'' (ds_Get S c st)) (\<lambda>n.
     rbind (cidToNodes S st ids) (\<lambda>nodes. Ok (n # nodes)))"

definition touchedNodes :: "'st store_lib \<Rightarrow> (cid list \<Rightarrow> cid list) \<Rightarrow> 'st storeWrapper \<Rightarrow> node option list res" where
  "touchedNodes S visit sw = cidToNodes S (swr_DagStore sw) (toSlice visit (swr_touched sw))"

definition newNodes :: "'st store_lib \<Rightarrow> (cid list \<Rightarrow> cid list) \<Rightarrow> 'st storeWrapper \<Rightarrow> node option list res" where
  "newNodes S visit sw = cidToNodes S (swr_DagStore sw) (toSlice visit (swr_added sw))"

definition run_tracked :: "'st store_lib \<Rightarrow> 'a store_prog \<Rightarrow> 'st storeWrapper \<Rightarrow> 'a \<times> 'st storeWrapper" where
  "run_tracked S = exec (storeWrapper_Get S) (storeWrapper_Add S)"

section \<open>Content-addressed stores\<close>

text \<open>
  A node is addressed by the hash of its data. What the sources rely on: the hash has no collisions, a store answers a CID with the node of
  that CID, and adding an addressed node succeeds, makes it readable, and leaves the others as they were.
\<close>

definition addressed :: "(bytes \<Rightarrow> cid) \<Rightarrow> node \<Rightarrow> bool" where
  "addressed hash n \<longleftrightarrow> node_Cid n = hash (node_RawData n)"

locale content_store =
  fixes hash :: "bytes \<Rightarrow> cid" and S :: "'st store_lib"
  assumes hash_inj: "hash a = hash b \<Longrightarrow> a = b"
    and get_node: "ds_Get S c st = Ok (Some n) \<Longrightarrow> node_Cid n = c \<and> addressed hash n"
    and add_total: "addressed hash n \<Longrightarrow> \<exists>st'. ds_Add S n st = (Ok (), st')"
    and add_get: "addressed hash n \<Longrightarrow> ds_Add S n st = (Ok (), st') \<Longrightarrow> ds_Get S (node_Cid n) st' = Ok (Some n)"
    and add_other: "addressed hash n \<Longrightarrow> ds_Add S n st = (Ok (), st') \<Longrightarrow> c \<noteq> node_Cid n \<Longrightarrow> ds_Get S c st' = ds_Get S c st"
begin

lemma same_data:
  "ds_Get S c st = Ok (Some n) \<Longrightarrow> ds_Get S c' st' = Ok (Some n') \<Longrightarrow> node_RawData n = node_RawData n' \<Longrightarrow> n = n'"
  using get_node [of c st n] get_node [of c' st' n'] by (cases n; cases n') (auto simp: addressed_def)

lemma same_cid: "ds_Get S c st = Ok (Some n) \<Longrightarrow> ds_Get S c st' = Ok (Some n') \<Longrightarrow> n = n'"
  using get_node [of c st n] get_node [of c st' n'] by (cases n; cases n') (auto simp: addressed_def dest: hash_inj)

end

text \<open>A run over the wrapper that finds every node it asks for and adds only addressed nodes.\<close>

primrec clean_run :: "(bytes \<Rightarrow> cid) \<Rightarrow> 'st store_lib \<Rightarrow> 'a store_prog \<Rightarrow> 'st storeWrapper \<Rightarrow> bool" where
  "clean_run hash S (Return x) sw = True"
| "clean_run hash S (GetNode c k) sw =
     (case storeWrapper_Get S c sw of (r, sw') \<Rightarrow> (case r of Ok (Some n) \<Rightarrow> clean_run hash S (k r) sw' | _ \<Rightarrow> False))"
| "clean_run hash S (AddNode n k) sw =
     (addressed hash n \<and> (case storeWrapper_Add S n sw of (r, sw') \<Rightarrow> clean_run hash S (k r) sw'))"

lemma clean_run_bind:
  "clean_run hash S (prog_bind p f) sw \<longleftrightarrow> clean_run hash S p sw \<and> (case run_tracked S p sw of (x, sw') \<Rightarrow> clean_run hash S (f x) sw')"
  by (induction p arbitrary: sw)
    (auto simp: run_tracked_def case_prod_beta storeWrapper_Get_def split: res.splits option.splits)

definition tracked_inv :: "'st store_lib \<Rightarrow> 'st storeWrapper \<Rightarrow> bool" where
  "tracked_inv S sw \<longleftrightarrow> distinct (swr_touched sw) \<and> distinct (swr_added sw) \<and>
     (\<forall>c \<in> set (swr_touched sw) \<union> set (swr_added sw). \<exists>n. ds_Get S c (swr_DagStore sw) = Ok (Some n))"

lemma tracked_inv_start [simp]: "tracked_inv S (wrapStoreForRefCounting st)"
  by (simp add: tracked_inv_def wrapStoreForRefCounting_def)

context content_store
begin

lemma add_keeps:
  "addressed hash n \<Longrightarrow> ds_Add S n st = (Ok (), st') \<Longrightarrow> ds_Get S c st = Ok (Some m) \<Longrightarrow> ds_Get S c st' = Ok (Some m)"
  using add_get [of n st st'] add_other [of n st st' c] same_cid [of c st m st'] by (cases "c = node_Cid n") auto

lemma Get_inv: "tracked_inv S sw \<Longrightarrow> storeWrapper_Get S c sw = (r, sw') \<Longrightarrow> tracked_inv S sw'"
  by (auto simp: tracked_inv_def storeWrapper_Get_def split: res.splits option.splits if_splits) metis

lemma Add_eq:
  assumes "addressed hash n"
  obtains st' where "ds_Add S n (swr_DagStore sw) = (Ok (), st')"
    "storeWrapper_Add S n sw = (Ok (), sw\<lparr>swr_DagStore := st', swr_added := List.insert (node_Cid n) (swr_added sw)\<rparr>)"
proof -
  obtain st' where "ds_Add S n (swr_DagStore sw) = (Ok (), st')" using add_total [OF assms] by blast
  then show thesis using that by (simp add: storeWrapper_Add_def)
qed

lemma Add_inv:
  assumes "tracked_inv S sw" "addressed hash n" "storeWrapper_Add S n sw = (r, sw')"
  shows "tracked_inv S sw'"
proof -
  obtain st' where st: "ds_Add S n (swr_DagStore sw) = (Ok (), st')"
    "storeWrapper_Add S n sw = (Ok (), sw\<lparr>swr_DagStore := st', swr_added := List.insert (node_Cid n) (swr_added sw)\<rparr>)"
    by (rule Add_eq [OF assms(2)])
  then show ?thesis
    using assms add_get [OF assms(2) st(1)] add_keeps [OF assms(2) st(1)] by (fastforce simp: tracked_inv_def)
qed

text \<open>What a clean run tracks stays tracked, and is in the store.\<close>

lemma clean_GetE:
  assumes "clean_run hash S (GetNode c k) sw" "run_tracked S (GetNode c k) sw = (x, sw')"
  obtains n sw1 where "ds_Get S c (swr_DagStore sw) = Ok (Some n)" "storeWrapper_Get S c sw = (Ok (Some n), sw1)"
    "swr_added sw1 = swr_added sw" "swr_DagStore sw1 = swr_DagStore sw" "set (swr_touched sw) \<subseteq> set (swr_touched sw1)"
    "c \<in> set (swr_touched sw1) \<union> set (swr_added sw)"
    "clean_run hash S (k (Ok (Some n))) sw1" "run_tracked S (k (Ok (Some n))) sw1 = (x, sw')"
proof -
  obtain n where n: "ds_Get S c (swr_DagStore sw) = Ok (Some n)"
    using assms(1) by (auto simp: storeWrapper_Get_def split: res.splits option.splits)
  let ?sw1 = "if c \<in> set (swr_added sw) then sw else sw\<lparr>swr_touched := List.insert c (swr_touched sw)\<rparr>"
  have g: "storeWrapper_Get S c sw = (Ok (Some n), ?sw1)" using n by (simp add: storeWrapper_Get_def)
  show thesis
    by (rule that [OF n g]) (use assms g in \<open>auto simp: run_tracked_def\<close>)
qed

lemma clean_AddE:
  assumes "clean_run hash S (AddNode n k) sw" "run_tracked S (AddNode n k) sw = (x, sw')"
  obtains st' sw1 where "addressed hash n" "ds_Add S n (swr_DagStore sw) = (Ok (), st')" "storeWrapper_Add S n sw = (Ok (), sw1)"
    "sw1 = sw\<lparr>swr_DagStore := st', swr_added := List.insert (node_Cid n) (swr_added sw)\<rparr>"
    "clean_run hash S (k (Ok ())) sw1" "run_tracked S (k (Ok ())) sw1 = (x, sw')"
proof -
  have n: "addressed hash n" using assms(1) by simp
  obtain st' where "ds_Add S n (swr_DagStore sw) = (Ok (), st')"
    "storeWrapper_Add S n sw = (Ok (), sw\<lparr>swr_DagStore := st', swr_added := List.insert (node_Cid n) (swr_added sw)\<rparr>)"
    by (rule Add_eq [OF n])
  with n that assms show thesis by (simp add: run_tracked_def)
qed

lemma exec_inv: "tracked_inv S sw \<Longrightarrow> clean_run hash S p sw \<Longrightarrow> run_tracked S p sw = (x, sw') \<Longrightarrow> tracked_inv S sw'"
proof (induction p arbitrary: sw)
  case (GetNode c k)
  then show ?case by (metis clean_GetE Get_inv rangeI)
next
  case (AddNode n k)
  then show ?case by (metis clean_AddE Add_inv rangeI)
qed (simp add: run_tracked_def)

lemma tracked_mono:
  "clean_run hash S p sw \<Longrightarrow> run_tracked S p sw = (x, sw') \<Longrightarrow>
     set (swr_touched sw) \<subseteq> set (swr_touched sw') \<and> set (swr_added sw) \<subseteq> set (swr_added sw') \<and>
     (\<forall>c n. ds_Get S c (swr_DagStore sw) = Ok (Some n) \<longrightarrow> ds_Get S c (swr_DagStore sw') = Ok (Some n))"
proof (induction p arbitrary: sw)
  case (GetNode c k)
  from GetNode.prems show ?case
  proof (rule clean_GetE)
    fix n sw1
    assume "swr_added sw1 = swr_added sw" "swr_DagStore sw1 = swr_DagStore sw" "set (swr_touched sw) \<subseteq> set (swr_touched sw1)"
      and "clean_run hash S (k (Ok (Some n))) sw1" "run_tracked S (k (Ok (Some n))) sw1 = (x, sw')"
    with GetNode.IH [OF rangeI, of "Ok (Some n)" sw1] show ?thesis by auto
  qed
next
  case (AddNode n k)
  from AddNode.prems show ?case
  proof (rule clean_AddE)
    fix st' sw1
    assume "addressed hash n" and st: "ds_Add S n (swr_DagStore sw) = (Ok (), st')"
      and "sw1 = sw\<lparr>swr_DagStore := st', swr_added := List.insert (node_Cid n) (swr_added sw)\<rparr>"
        "clean_run hash S (k (Ok ())) sw1" "run_tracked S (k (Ok ())) sw1 = (x, sw')"
    with AddNode.IH [OF rangeI, of "Ok ()" sw1] add_keeps [OF \<open>addressed hash n\<close> st] show ?thesis by auto
  qed
qed (simp add: run_tracked_def)

text \<open>
  A run is determined by the nodes it touched: over any store that has these nodes (and those that the run had already added) it goes the
  same way and returns the same.
\<close>

definition has :: "'st \<Rightarrow> cid \<Rightarrow> bool" where
  "has st c \<longleftrightarrow> (\<exists>n. ds_Get S c st = Ok (Some n))"

lemma has_add: "addressed hash n \<Longrightarrow> ds_Add S n st = (Ok (), st') \<Longrightarrow> has st' c \<longleftrightarrow> c = node_Cid n \<or> has st c"
  using add_get [of n st st'] add_other [of n st st' c] by (cases "c = node_Cid n") (auto simp: has_def)

lemma replay:
  assumes "clean_run hash S p sw" "run_tracked S p sw = (x, sw')"
    and "\<And>c. c \<in> set (swr_touched sw') \<union> set (swr_added sw) \<Longrightarrow> has st c"
  shows "\<exists>st'. run_store S p st = (x, st') \<and> (\<forall>c. has st c \<or> c \<in> set (swr_added sw') \<longrightarrow> has st' c)"
  using assms
proof (induction p arbitrary: sw st)
  case (Return y)
  then show ?case by (auto simp: run_store_def run_tracked_def)
next
  case (GetNode c k)
  from GetNode.prems(1,2) show ?case
  proof (rule clean_GetE)
    fix n sw1
    assume n: "ds_Get S c (swr_DagStore sw) = Ok (Some n)"
      and sw1: "swr_added sw1 = swr_added sw" "c \<in> set (swr_touched sw1) \<union> set (swr_added sw)"
      and run: "clean_run hash S (k (Ok (Some n))) sw1" "run_tracked S (k (Ok (Some n))) sw1 = (x, sw')"
    have "c \<in> set (swr_touched sw') \<union> set (swr_added sw)" using tracked_mono [OF run] sw1 by auto
    then obtain n' where n': "ds_Get S c st = Ok (Some n')" using GetNode.prems(3) by (auto simp: has_def)
    then have "run_store S (GetNode c k) st = run_store S (k (Ok (Some n))) st"
      using same_cid [OF n' n] by (simp add: run_store_def)
    then show ?thesis using GetNode.IH [OF rangeI run] GetNode.prems(3) sw1(1) by simp
  qed
next
  case (AddNode n k)
  from AddNode.prems(1,2) show ?case
  proof (rule clean_AddE)
    fix st1 sw1
    assume n: "addressed hash n" and sw1: "sw1 = sw\<lparr>swr_DagStore := st1, swr_added := List.insert (node_Cid n) (swr_added sw)\<rparr>"
      and run: "clean_run hash S (k (Ok ())) sw1" "run_tracked S (k (Ok ())) sw1 = (x, sw')"
    obtain st2 where st2: "ds_Add S n st = (Ok (), st2)" using add_total [OF n] by blast
    have "has st2 c" if "c \<in> set (swr_touched sw') \<union> set (swr_added sw1)" for c
      using that AddNode.prems(3) has_add [OF n st2] sw1 by auto
    from AddNode.IH [OF rangeI run this] show ?thesis
      using st2 has_add [OF n st2] by (fastforce simp: run_store_def)
  qed
qed

end

section \<open>A store in memory\<close>

text \<open>The blocks that the store holds; the CID of a block is the block.\<close>

definition mem_store :: "bytes list store_lib" where
  "mem_store = \<lparr>
     ds_Get = (\<lambda>c st. if cid_Bytes c \<in> set st then Ok (Some \<lparr>node_Cid = c, node_RawData = cid_Bytes c\<rparr>) else Fail (LibErr ''not found'')),
     ds_Add = (\<lambda>n st. (Ok (), node_RawData n # st))\<rparr>"

lemma mem_Get: "ds_Get mem_store c st =
    (if cid_Bytes c \<in> set st then Ok (Some \<lparr>node_Cid = c, node_RawData = cid_Bytes c\<rparr>) else Fail (LibErr ''not found''))"
  and mem_Add: "ds_Add mem_store n st = (Ok (), node_RawData n # st)"
  by (simp_all add: mem_store_def)

interpretation mem: content_store Cid mem_store
proof
  fix c st n
  assume "ds_Get mem_store c st = Ok (Some n)"
  then show "node_Cid n = c \<and> addressed Cid n" by (cases c) (auto simp: mem_Get addressed_def split: if_splits)
next
  fix n st st'
  assume "addressed Cid n" "ds_Add mem_store n st = (Ok (), st')"
  then show "ds_Get mem_store (node_Cid n) st' = Ok (Some n)" by (cases n) (auto simp: mem_Get mem_Add addressed_def)
next
  fix n st st' c
  assume "addressed Cid n" "ds_Add mem_store n st = (Ok (), st')" "c \<noteq> node_Cid n"
  then show "ds_Get mem_store c st' = ds_Get mem_store c st" by (cases c; cases n) (auto simp: mem_Get mem_Add addressed_def)
qed (simp_all add: mem_Add)

end
