(* ===== verification/Block_Requests.thy ===== *)
theory Block_Requests
  imports Store_Tracking Validators
begin

text \<open>
  \<^verbatim>\<open>src/consensus/signedtree.go\<close> and \<^verbatim>\<open>src/gossip/client/processblocks.go\<close>: signed chain trees, and the making of
  the request that a client sends to the notary group: the transactions become a signed block, the block is played on
  a copy of the tree over a tracked store, and the nodes that were touched and added go along. The
  chain tree itself (\<^verbatim>\<open>chaintree.ChainTree\<close>) is a library; what it does to the store are programs in
  the sense of \<^verbatim>\<open>store_prog\<close>.
\<close>

section \<open>Signed chain trees\<close>

text \<open>
  \<^verbatim>\<open>'v\<close> are the block validators, \<^verbatim>\<open>'x\<close> the map of transactors a tree carries. \<^verbatim>\<open>cl_ProcessBlock\<close> and
  \<^verbatim>\<open>cl_ProcessBlockImmutable\<close> say whether the block is valid and which tip the tree (the new tree) has then;
  \<^verbatim>\<open>decode_RootNode\<close> yields the height in a root node.
\<close>

record ('v, 'x) chain_lib =
  cl_NewChainTree :: "cid \<Rightarrow> 'v list \<Rightarrow> 'x \<Rightarrow> unit res store_prog"
  cl_Id :: "cid \<Rightarrow> string res store_prog"
  cl_Resolve :: "cid \<Rightarrow> path \<Rightarrow> (goval \<times> path) res store_prog"
  cl_ProcessBlock :: "cid \<Rightarrow> 'v list \<Rightarrow> 'x \<Rightarrow> BlockWithHeaders \<Rightarrow> (bool \<times> cid) res store_prog"
  cl_ProcessBlockImmutable :: "cid \<Rightarrow> 'v list \<Rightarrow> 'x \<Rightarrow> BlockWithHeaders \<Rightarrow> (bool \<times> cid) res store_prog"
  decode_RootNode :: "bytes \<Rightarrow> u64 res"
  sw_WrapBlockWithHeaders :: "BlockWithHeaders \<Rightarrow> node res"
  decode_BlockWithHeaders :: "bytes \<Rightarrow> BlockWithHeaders res"

record ('v, 'x) ChainTree =
  ct_Tip :: cid
  ct_BlockValidators :: "'v list"
  ct_Transactors :: 'x

record ('v, 'x, 'pf) SignedChainTree =
  sct_ChainTree :: "('v, 'x) ChainTree"
  sct_Proof :: "'pf option"

definition SignedChainTree_Id ::
  "'st store_lib \<Rightarrow> ('v, 'x) chain_lib \<Rightarrow> ('v, 'x, 'pf) SignedChainTree \<Rightarrow> ('st, string) eff" where
  "SignedChainTree_Id S L sct = run_store S (cl_Id L (ct_Tip (sct_ChainTree sct)))"

text \<open>An error is only logged; the id is then empty.\<close>

definition MustId ::
  "'st store_lib \<Rightarrow> ('v, 'x) chain_lib \<Rightarrow> ('v, 'x, 'pf) SignedChainTree \<Rightarrow> ('st, string) eff" where
  "MustId S L sct st =
     (case run_store S (cl_Id L (ct_Tip (sct_ChainTree sct))) st of (Fail e, st') \<Rightarrow> (Ok [], st') | r \<Rightarrow> r)"

definition Tip :: "('v, 'x, 'pf) SignedChainTree \<Rightarrow> cid" where
  "Tip sct = ct_Tip (sct_ChainTree sct)"

text \<open>\<^verbatim>\<open>mem\<close> is a fresh memory store, \<^verbatim>\<open>T\<close> the library that builds trees in it.\<close>

definition IsGenesis ::
  "'st store_lib \<Rightarrow> ('v, 'x) chain_lib \<Rightarrow> 'm tree_lib \<Rightarrow> 'm \<Rightarrow> ('v, 'x, 'pf) SignedChainTree \<Rightarrow> ('st, bool) eff" where
  "IsGenesis S L T mem sct =
     ebind (MustId S L sct) (\<lambda>did.
     ebind (elift (fst (NewEmptyTree T did mem))) (\<lambda>newEmpty_Tip.
     eret (newEmpty_Tip = Tip sct)))"

definition Authentications ::
  "'st store_lib \<Rightarrow> ('v, 'x) chain_lib \<Rightarrow> (goval \<Rightarrow> string list res) \<Rightarrow> ('v, 'x, 'pf) SignedChainTree \<Rightarrow> ('st, string list) eff" where
  "Authentications S L ToStrings sct =
     ebind (run_store S (cl_Resolve L (Tip sct) authentications_path)) (\<lambda>(uncastAuths, _).
     if uncastAuths = GNil then ebind (MustId S L sct) (\<lambda>did. eret [DidToAddr did])
     else (case uncastAuths of
        GList _ \<Rightarrow> elift (wrapf ''error casting SignedChainTree auths: %v'' (ToStrings uncastAuths))
      | _ \<Rightarrow> elift (Panic ''interface conversion: interface {} is not []interface {}'')))"

definition NewSignedChainTreeFromChainTree :: "('v, 'x) ChainTree \<Rightarrow> ('v, 'x, 'pf) SignedChainTree" where
  "NewSignedChainTreeFromChainTree tree = \<lparr>sct_ChainTree = tree, sct_Proof = None\<rparr>"

text \<open>\<^verbatim>\<open>transactors\<close> is \<^verbatim>\<open>DefaultTransactors\<close>.\<close>

definition NewSignedChainTree ::
  "'st store_lib \<Rightarrow> ('v, 'x) chain_lib \<Rightarrow> 'st tree_lib \<Rightarrow> ('e, 'd, 'sc) crypto_lib \<Rightarrow> 'x \<Rightarrow> 'e \<Rightarrow>
     ('st, ('v, 'x, 'pf) SignedChainTree) eff" where
  "NewSignedChainTree S L T C transactors key =
     (let did = EcdsaPubkeyToDid C key in
      ebind (NewEmptyTree T did) (\<lambda>tip.
      ebind (ewrapf ''error creating tree: %v'' (run_store S (cl_NewChainTree L tip [] transactors))) (\<lambda>_.
      eret \<lparr>sct_ChainTree = \<lparr>ct_Tip = tip, ct_BlockValidators = [], ct_Transactors = transactors\<rparr>, sct_Proof = None\<rparr>)))"

section \<open>Add-block requests\<close>

text \<open>\<^verbatim>\<open>if unmarshaledRoot == nil || err != nil\<close>\<close>

definition missing_root :: "node option res \<Rightarrow> node res" where
  "missing_root r = (case r of
     Ok (Some n) \<Rightarrow> Ok n | Ok None \<Rightarrow> Fail (Errorf ''error, missing root: %v'' [])
   | Fail e \<Rightarrow> Fail (Errorf ''error, missing root: %v'' [e]) | Panic p \<Rightarrow> Panic p)"

definition getHeight ::
  "'st store_lib \<Rightarrow> ('v, 'x) chain_lib \<Rightarrow> 'm tree_lib \<Rightarrow> 'm \<Rightarrow> ('v, 'x, 'pf) SignedChainTree \<Rightarrow> ('st, u64) eff" where
  "getHeight S L T mem tree =
     ebind (eread (\<lambda>st. missing_root (ds_Get S (Tip tree) st))) (\<lambda>unmarshaledRoot.
     ebind (elift (wrapf ''error decoding root: %v'' (decode_RootNode L (node_RawData unmarshaledRoot)))) (\<lambda>root_Height.
     ebind (IsGenesis S L T mem tree) (\<lambda>genesis.
     eret (if genesis then 0 else root_Height + 1))))"

text \<open>\<^verbatim>\<open>n.RawData()\<close> of a nil node panics.\<close>

fun nodesToBytes :: "node option list \<Rightarrow> bytes list res" where
  "nodesToBytes [] = Ok []"
| "nodesToBytes (n # nodes) =
     rbind (case n of None \<Rightarrow> Panic ''invalid memory address or nil pointer dereference'' | Some n \<Rightarrow> Ok (node_RawData n)) (\<lambda>b.
     rbind (nodesToBytes nodes) (\<lambda>bs. Ok (b # bs)))"

text \<open>The new tree over the tracker shares nothing with the old one but the store and the tip.\<close>

definition refTrackingChainTree ::
  "'st store_lib \<Rightarrow> ('v, 'x) chain_lib \<Rightarrow> ('v, 'x) ChainTree \<Rightarrow> 'st \<Rightarrow> ('v, 'x) ChainTree res \<times> 'st storeWrapper" where
  "refTrackingChainTree S L untrackedTree originalStore =
     (case run_tracked S (cl_NewChainTree L (ct_Tip untrackedTree) (ct_BlockValidators untrackedTree) (ct_Transactors untrackedTree))
        (wrapStoreForRefCounting originalStore) of
      (r, tracker) \<Rightarrow> (rbind r (\<lambda>_. Ok untrackedTree), tracker))"

definition invalid_block :: "(bool \<times> cid) res \<Rightarrow> cid res" where
  "invalid_block r = (case r of
     Ok (True, tip) \<Rightarrow> Ok tip
   | Ok (False, tip) \<Rightarrow> Fail (Errorf ''error processing block (valid: %t): %v'' [])
   | Fail e \<Rightarrow> Fail (Errorf ''error processing block (valid: %t): %v'' [e])
   | Panic p \<Rightarrow> Panic p)"

text \<open>
  The state: the tree, whose validators may be filled in, and the store behind it. The validators are
  those of the group of the client (\<^verbatim>\<open>c.Group.BlockValidators\<close>); \<^verbatim>\<open>visit\<close> is the order in which Go visits the trackers.
\<close>

definition with_validators ::
  "'v list res \<Rightarrow> ('v, 'x, 'pf) SignedChainTree \<Rightarrow> ('v, 'x, 'pf) SignedChainTree res" where
  "with_validators group_validators tree =
     (if length (ct_BlockValidators (sct_ChainTree tree)) = 0 then
        rbind (wrapf ''error getting notary group block validators: %v'' group_validators) (\<lambda>validators.
        Ok (tree\<lparr>sct_ChainTree := (sct_ChainTree tree)\<lparr>ct_BlockValidators := validators\<rparr>\<rparr>))
      else Ok tree)"

definition block_state ::
  "'st store_lib \<Rightarrow> (cid list \<Rightarrow> cid list) \<Rightarrow> u64 \<Rightarrow> 'st storeWrapper \<Rightarrow> bytes list res" where
  "block_state S visit height tracker =
     rbind (if 0 < height then
              rbind (wrapf ''error getting node: %v'' (touchedNodes S visit tracker)) (\<lambda>touchedNodes. nodesToBytes touchedNodes)
            else Ok []) (\<lambda>state.
     rbind (wrapf ''error getting node: %v'' (newNodes S visit tracker)) (\<lambda>newNodes.
     rbind (nodesToBytes newNodes) (\<lambda>bs. Ok (state @ bs))))"

text \<open>The signed block that is to be played.\<close>

definition signed_block ::
  "'st store_lib \<Rightarrow> ('v, 'x) chain_lib \<Rightarrow> 'm tree_lib \<Rightarrow> 'm \<Rightarrow> ('e, 'd, 'sc) crypto_lib \<Rightarrow> block_lib \<Rightarrow>
     ('v, 'x, 'pf) SignedChainTree \<Rightarrow> 'd \<Rightarrow> Transaction list \<Rightarrow> ('st, BlockWithHeaders) eff" where
  "signed_block S L T mem C B tree treeKey transactions =
     ebind (ewrapf ''error getting tree height: %v'' (getHeight S L T mem tree)) (\<lambda>height.
     ebind (IsGenesis S L T mem tree) (\<lambda>genesis.
     let blockTip = (if genesis then None else Some (Tip tree));
         unsignedBlock = \<lparr>bwh_Block = \<lparr>blk_Height = height, blk_PreviousTip = blockTip, blk_Transactions = transactions\<rparr>,
           bwh_Headers = GNil\<rparr>
     in elift (wrapf ''error signing block: %w'' (SignBlock C B unsignedBlock treeKey))))"

definition NewAddBlockRequest ::
  "'st store_lib \<Rightarrow> ('v, 'x) chain_lib \<Rightarrow> 'm tree_lib \<Rightarrow> 'm \<Rightarrow> ('e, 'd, 'sc) crypto_lib \<Rightarrow> block_lib \<Rightarrow>
     (cid list \<Rightarrow> cid list) \<Rightarrow> 'v list res \<Rightarrow> 'd \<Rightarrow> Transaction list \<Rightarrow>
     (('v, 'x, 'pf) SignedChainTree \<times> 'st, AddBlockRequest) eff" where
  "NewAddBlockRequest S L T mem C B visit group_validators treeKey transactions = (\<lambda>(tree, st).
     case signed_block S L T mem C B tree treeKey transactions st of
       (Fail e, st) \<Rightarrow> (Fail e, tree, st)
     | (Panic p, st) \<Rightarrow> (Panic p, tree, st)
     | (Ok blockWithHeaders, st) \<Rightarrow>
     (case with_validators group_validators tree of
       Fail e \<Rightarrow> (Fail e, tree, st)
     | Panic p \<Rightarrow> (Panic p, tree, st)
     | Ok tree \<Rightarrow>
     (case refTrackingChainTree S L (sct_ChainTree tree) st of
       (Fail e, tracker) \<Rightarrow> (Fail (Errorf ''error creating reference tracker: %v'' [e]), tree, swr_DagStore tracker)
     | (Panic p, tracker) \<Rightarrow> (Panic p, tree, swr_DagStore tracker)
     | (Ok trackedTree, tracker) \<Rightarrow>
     (case run_tracked S (cl_ProcessBlock L (ct_Tip trackedTree) (ct_BlockValidators trackedTree) (ct_Transactors trackedTree)
         blockWithHeaders) tracker of
       (r, tracker) \<Rightarrow>
     (case rbind (invalid_block r) (\<lambda>expectedTip.
         rbind (block_state S visit (blk_Height (bwh_Block blockWithHeaders)) tracker) (\<lambda>state. Ok (expectedTip, state))) of
       Fail e \<Rightarrow> (Fail e, tree, swr_DagStore tracker)
     | Panic p \<Rightarrow> (Panic p, tree, swr_DagStore tracker)
     | Ok (expectedTip, state) \<Rightarrow>
     (case SignedChainTree_Id S L tree (swr_DagStore tracker) of
       (r, st) \<Rightarrow>
         (rbind r (\<lambda>chainId.
          rbind (case sw_WrapBlockWithHeaders L blockWithHeaders of
              Ok n \<Rightarrow> Ok (node_RawData n) | _ \<Rightarrow> Panic ''invalid memory address or nil pointer dereference'') (\<lambda>payload.
          Ok \<lparr>abr_ObjectId = bytes_of chainId, abr_PreviousTip = cid_Bytes (Tip tree),
              abr_Height = blk_Height (bwh_Block blockWithHeaders), abr_NewTip = cid_Bytes expectedTip,
              abr_Payload = payload, abr_State = state\<rparr>)), tree, st)))))))"

section \<open>What a successful request is made of\<close>

lemma res_split_Ok:
  "(case r of Fail e \<Rightarrow> (Fail (f e), x) | Panic p \<Rightarrow> (Panic p, y) | Ok a \<Rightarrow> g a) = (Ok b, z) \<longleftrightarrow> (\<exists>a. r = Ok a \<and> g a = (Ok b, z))"
  by (cases r) auto

lemma invalid_block_Ok [simp]: "invalid_block r = Ok tip \<longleftrightarrow> r = Ok (True, tip)"
  by (auto simp: invalid_block_def split: res.splits prod.splits bool.splits)

lemma NewAddBlockRequest_OkE:
  assumes "NewAddBlockRequest S L T mem C B visit gv key txns (tree, st) = (Ok abr, tree', st')"
  obtains b st0 sw1 sw2 tip n chainId where
    "signed_block S L T mem C B tree key txns st = (Ok b, st0)" "with_validators gv tree = Ok tree'"
    "run_tracked S (cl_NewChainTree L (Tip tree') (ct_BlockValidators (sct_ChainTree tree')) (ct_Transactors (sct_ChainTree tree')))
       (wrapStoreForRefCounting st0) = (Ok (), sw1)"
    "run_tracked S (cl_ProcessBlock L (Tip tree') (ct_BlockValidators (sct_ChainTree tree')) (ct_Transactors (sct_ChainTree tree')) b) sw1 =
       (Ok (True, tip), sw2)"
    "block_state S visit (blk_Height (bwh_Block b)) sw2 = Ok (abr_State abr)"
    "SignedChainTree_Id S L tree' (swr_DagStore sw2) = (Ok chainId, st')"
    "sw_WrapBlockWithHeaders L b = Ok n" "abr_Payload abr = node_RawData n"
    "abr_ObjectId abr = bytes_of chainId" "abr_PreviousTip abr = cid_Bytes (Tip tree')"
    "abr_Height abr = blk_Height (bwh_Block b)" "abr_NewTip abr = cid_Bytes tip"
  using assms unfolding NewAddBlockRequest_def refTrackingChainTree_def Tip_def
  by (auto simp: rbind_Ok_iff intro: that split: prod.splits res.splits)

section \<open>Replaying a request\<close>

text \<open>What a signer does with the block: it makes a chain tree at the previous tip and processes the block.\<close>

definition play_block ::
  "('v, 'x) chain_lib \<Rightarrow> cid \<Rightarrow> 'v list \<Rightarrow> 'x \<Rightarrow> BlockWithHeaders \<Rightarrow> (bool \<times> cid) res store_prog" where
  "play_block L tip validators transactors b =
     prog_bind (cl_NewChainTree L tip validators transactors) (\<lambda>r. case r of
         Ok _ \<Rightarrow> cl_ProcessBlock L tip validators transactors b
       | Fail e \<Rightarrow> Return (Fail e)
       | Panic p \<Rightarrow> Return (Panic p))"

lemma cidToNodes_bytes:
  "cidToNodes S st ids = Ok ns \<Longrightarrow> nodesToBytes ns = Ok bs \<Longrightarrow> c \<in> set ids \<Longrightarrow>
     \<exists>n. ds_Get S c st = Ok (Some n) \<and> node_RawData n \<in> set bs"
proof (induction ids arbitrary: ns bs)
  case (Cons i ids)
  then show ?case by (fastforce simp: rbind_Ok_iff split: option.splits)
qed simp

lemma block_state_touched:
  assumes "block_state S visit height sw = Ok state" "0 < height" "set (visit (swr_touched sw)) = set (swr_touched sw)"
    and "c \<in> set (swr_touched sw)"
  shows "\<exists>n. ds_Get S c (swr_DagStore sw) = Ok (Some n) \<and> node_RawData n \<in> set state"
proof -
  obtain ns bs bs' where "touchedNodes S visit sw = Ok ns" "nodesToBytes ns = Ok bs" "state = bs @ bs'"
    using assms(1,2) by (auto simp: block_state_def rbind_Ok_iff)
  with cidToNodes_bytes [of S "swr_DagStore sw" "visit (swr_touched sw)" ns bs c] assms(3,4) show ?thesis
    by (auto simp: touchedNodes_def toSlice_def)
qed

lemma play_block_tracked:
  assumes "run_tracked S (cl_NewChainTree L tip vs xs) sw = (Ok (), sw1)" "run_tracked S (cl_ProcessBlock L tip vs xs b) sw1 = (r, sw2)"
  shows "run_tracked S (play_block L tip vs xs b) sw = (r, sw2)"
  using assms by (simp add: play_block_def run_tracked_def exec_bind)

lemma signed_block_transactions:
  "signed_block S L T mem C B tree key txns st = (Ok b, st') \<Longrightarrow> blk_Transactions (bwh_Block b) = txns"
  by (auto simp: signed_block_def go_ok Let_def SignBlock_def)

lemma with_validators_Tip: "with_validators gv tree = Ok tree' \<Longrightarrow> Tip tree' = Tip tree"
  by (auto simp: with_validators_def Tip_def rbind_Ok_iff split: if_splits)

text \<open>The tracked run behind a request, at any height.\<close>

lemma request_tracked:
  assumes "NewAddBlockRequest S L T mem C B visit gv key txns (tree, st) = (Ok abr, tree', st')"
    and "signed_block S L T mem C B tree key txns st = (Ok b, st0)"
  obtains n tip sw where "sw_WrapBlockWithHeaders L b = Ok n" "abr_Payload abr = node_RawData n"
    "abr_PreviousTip abr = cid_Bytes (Tip tree)" "abr_NewTip abr = cid_Bytes tip" "abr_Height abr = blk_Height (bwh_Block b)"
    "run_tracked S (play_block L (Tip tree) (ct_BlockValidators (sct_ChainTree tree')) (ct_Transactors (sct_ChainTree tree')) b)
       (wrapStoreForRefCounting st0) = (Ok (True, tip), sw)"
    "block_state S visit (abr_Height abr) sw = Ok (abr_State abr)"
  using assms(1)
proof (rule NewAddBlockRequest_OkE)
  fix b' st0' sw1 sw2 tip n chainId
  let ?t = "sct_ChainTree tree'"
  assume b: "signed_block S L T mem C B tree key txns st = (Ok b', st0')" and tree': "with_validators gv tree = Ok tree'"
    and new: "run_tracked S (cl_NewChainTree L (Tip tree') (ct_BlockValidators ?t) (ct_Transactors ?t)) (wrapStoreForRefCounting st0') = (Ok (), sw1)"
    and process: "run_tracked S (cl_ProcessBlock L (Tip tree') (ct_BlockValidators ?t) (ct_Transactors ?t) b') sw1 = (Ok (True, tip), sw2)"
    and state: "block_state S visit (blk_Height (bwh_Block b')) sw2 = Ok (abr_State abr)"
    and abr: "sw_WrapBlockWithHeaders L b' = Ok n" "abr_Payload abr = node_RawData n" "abr_PreviousTip abr = cid_Bytes (Tip tree')"
      "abr_Height abr = blk_Height (bwh_Block b')" "abr_NewTip abr = cid_Bytes tip"
  have eq: "b' = b" "st0' = st0" using b assms(2) by simp_all
  have "run_tracked S (play_block L (Tip tree) (ct_BlockValidators ?t) (ct_Transactors ?t) b) (wrapStoreForRefCounting st0) = (Ok (True, tip), sw2)"
    using play_block_tracked [OF new process] with_validators_Tip [OF tree'] eq by simp
  with that show thesis using abr state with_validators_Tip [OF tree'] eq by simp
qed

text \<open>Playing the request's block on any store that has the request's nodes.\<close>

lemma request_played:
  assumes "content_store hash S" "\<forall>l. set (visit l) = set l"
    and "NewAddBlockRequest S L T mem C B visit gv key txns (tree, st) = (Ok abr, tree', st')" "0 < abr_Height abr"
  shows "\<exists>b st0 n tip. signed_block S L T mem C B tree key txns st = (Ok b, st0) \<and> blk_Transactions (bwh_Block b) = txns \<and>
    sw_WrapBlockWithHeaders L b = Ok n \<and> abr_Payload abr = node_RawData n \<and>
    abr_PreviousTip abr = cid_Bytes (Tip tree) \<and> abr_NewTip abr = cid_Bytes tip \<and>
    (let play = play_block L (Tip tree) (ct_BlockValidators (sct_ChainTree tree')) (ct_Transactors (sct_ChainTree tree')) b in
     clean_run hash S play (wrapStoreForRefCounting st0) \<longrightarrow>
     (\<forall>signer. (\<forall>d \<in> set (abr_State abr). \<exists>n. node_RawData n = d \<and> ds_Get S (node_Cid n) signer = Ok (Some n)) \<longrightarrow>
        (\<exists>signer'. run_store S play signer = (Ok (True, tip), signer'))))"
  using assms(3)
proof (rule NewAddBlockRequest_OkE)
  fix b st0 sw1 sw2 tip n chainId
  let ?t = "sct_ChainTree tree'"
  assume b: "signed_block S L T mem C B tree key txns st = (Ok b, st0)" and tree': "with_validators gv tree = Ok tree'"
    and new: "run_tracked S (cl_NewChainTree L (Tip tree') (ct_BlockValidators ?t) (ct_Transactors ?t)) (wrapStoreForRefCounting st0) = (Ok (), sw1)"
    and process: "run_tracked S (cl_ProcessBlock L (Tip tree') (ct_BlockValidators ?t) (ct_Transactors ?t) b) sw1 = (Ok (True, tip), sw2)"
    and state: "block_state S visit (blk_Height (bwh_Block b)) sw2 = Ok (abr_State abr)"
    and abr: "sw_WrapBlockWithHeaders L b = Ok n" "abr_Payload abr = node_RawData n" "abr_PreviousTip abr = cid_Bytes (Tip tree')"
      "abr_Height abr = blk_Height (bwh_Block b)" "abr_NewTip abr = cid_Bytes tip"
  have [simp]: "Tip tree' = Tip tree" by (rule with_validators_Tip [OF tree'])
  let ?play = "play_block L (Tip tree) (ct_BlockValidators ?t) (ct_Transactors ?t) b"
  have run: "run_tracked S ?play (wrapStoreForRefCounting st0) = (Ok (True, tip), sw2)"
    using play_block_tracked [OF new process] by simp
  have "\<exists>signer'. run_store S ?play signer = (Ok (True, tip), signer')"
    if clean: "clean_run hash S ?play (wrapStoreForRefCounting st0)"
      and has: "\<forall>d \<in> set (abr_State abr). \<exists>n. node_RawData n = d \<and> ds_Get S (node_Cid n) signer = Ok (Some n)" for signer
  proof -
    have "content_store.has S signer c" if touched: "c \<in> set (swr_touched sw2)" for c
    proof -
      obtain m where m: "ds_Get S c (swr_DagStore sw2) = Ok (Some m)" "node_RawData m \<in> set (abr_State abr)"
        using block_state_touched [OF state _ _ touched] assms(2,4) abr(4) by auto
      then obtain m' where m': "node_RawData m' = node_RawData m" "ds_Get S (node_Cid m') signer = Ok (Some m')" using has by blast
      then have "m' = m" using content_store.same_data [OF assms(1) m'(2) m(1)] by simp
      then show ?thesis
        using m m'(2) content_store.get_node [OF assms(1) m(1)] by (auto simp: content_store.has_def [OF assms(1)])
    qed
    then show ?thesis
      using content_store.replay [OF assms(1) clean run, of signer] by (auto simp: wrapStoreForRefCounting_def)
  qed
  then show ?thesis using b abr signed_block_transactions [OF b] unfolding Let_def by auto
qed

text \<open>C29: a request carries what its block needs. Let \<^verbatim>\<open>NewAddBlockRequest\<close> succeed at a height above zero, and let the
  processing of the block have found the nodes it asked the store for. The request names the tree's tip as the previous
  one and contains the signed block with exactly the transactions asked for; and whoever has in his store at
  least the nodes whose data are the request's state can process that block from the previous tip with the
  same validators and transactors: it is valid for him too, and he arrives at the new tip that the request names.\<close>

theorem request_replays:
  assumes "content_store hash S" "\<forall>l. set (visit l) = set l"
    and "NewAddBlockRequest S L T mem C B visit gv key txns (tree, st) = (Ok abr, tree', st')" "0 < abr_Height abr"
  shows "\<exists>b st0 n tip. signed_block S L T mem C B tree key txns st = (Ok b, st0) \<and> blk_Transactions (bwh_Block b) = txns \<and>
    sw_WrapBlockWithHeaders L b = Ok n \<and> abr_Payload abr = node_RawData n \<and>
    abr_PreviousTip abr = cid_Bytes (Tip tree) \<and> abr_NewTip abr = cid_Bytes tip \<and>
    (let play = play_block L (Tip tree) (ct_BlockValidators (sct_ChainTree tree')) (ct_Transactors (sct_ChainTree tree')) b in
     clean_run hash S play (wrapStoreForRefCounting st0) \<longrightarrow>
     (\<forall>signer. (\<forall>d \<in> set (abr_State abr). \<exists>n. node_RawData n = d \<and> ds_Get S (node_Cid n) signer = Ok (Some n)) \<longrightarrow>
        (\<exists>signer'. run_store S play signer = (Ok (True, tip), signer'))))"
  by (rule request_played [OF assms])

text \<open>A chain-tree library that adds one node per block, and a tree at height zero.\<close>

definition node_of :: "bytes \<Rightarrow> node" where
  "node_of d = \<lparr>node_Cid = Cid d, node_RawData = d\<rparr>"

definition ref_signed_block :: BlockWithHeaders where
  "ref_signed_block = \<lparr>bwh_Block = \<lparr>blk_Height = 1, blk_PreviousTip = Some (Cid [5]), blk_Transactions = []\<rparr>,
     bwh_Headers = GMap [([CHR 0x07], GBytes (uint64ToBytes 1 @ [7, 0]))]\<rparr>"

definition ref_chain :: "('v, 'x) chain_lib" where
  "ref_chain = \<lparr>cl_NewChainTree = (\<lambda>tip vs xs. GetNode tip (\<lambda>_. Return (Ok ()))),
     cl_Id = (\<lambda>tip. Return (Ok ''did:tupelo:a'')), cl_Resolve = (\<lambda>tip p. Return (Ok (GNil, p))),
     cl_ProcessBlock = (\<lambda>tip vs xs b. GetNode tip (\<lambda>_. AddNode (node_of [0]) (\<lambda>_.
        Return (Ok (True, Cid [0]))))),
     cl_ProcessBlockImmutable = (\<lambda>tip vs xs b. GetNode tip (\<lambda>_. AddNode (node_of [0]) (\<lambda>_.
        Return (Ok (True, Cid [0]))))),
     decode_RootNode = (\<lambda>_. Ok 0),
     sw_WrapBlockWithHeaders = (\<lambda>b. if b = ref_signed_block then Ok (node_of (uint64ToBytes 1)) else Fail (LibErr ''cbor'')),
     decode_BlockWithHeaders = (\<lambda>_. Ok ref_signed_block)\<rparr>"

definition ref_trees :: "unit tree_lib" where
  "ref_trees = \<lparr>sw_WrapValue = (\<lambda>_. Ok (node_of [])), NewDagWithNodes = (\<lambda>ns s. (Ok (Cid [9]), s))\<rparr>"

definition ref_signed_tree :: "'x \<Rightarrow> ('v, 'x, 'pf) SignedChainTree" where
  "ref_signed_tree xs = \<lparr>sct_ChainTree = \<lparr>ct_Tip = Cid [5], ct_BlockValidators = [], ct_Transactors = xs\<rparr>, sct_Proof = None\<rparr>"

definition ref_validated_tree :: "'v list \<Rightarrow> 'x \<Rightarrow> ('v, 'x, 'pf) SignedChainTree" where
  "ref_validated_tree vs xs = \<lparr>sct_ChainTree = \<lparr>ct_Tip = Cid [5], ct_BlockValidators = vs, ct_Transactors = xs\<rparr>, sct_Proof = None\<rparr>"

lemma node_of_simps [simp]: "addressed Cid (node_of d)" "node_Cid (node_of d) = Cid d" "node_RawData (node_of d) = d"
  by (simp_all add: node_of_def addressed_def)

lemma ref_chain_simps [simp]:
  "cl_NewChainTree ref_chain tip vs xs = GetNode tip (\<lambda>_. Return (Ok ()))"
  "cl_Id ref_chain tip = Return (Ok ''did:tupelo:a'')"
  "cl_ProcessBlock ref_chain tip vs xs b = GetNode tip (\<lambda>_. AddNode (node_of [0]) (\<lambda>_. Return (Ok (True, Cid [0]))))"
  "cl_ProcessBlockImmutable ref_chain = cl_ProcessBlock ref_chain"
  "decode_RootNode ref_chain bs = Ok 0"
  "sw_WrapBlockWithHeaders ref_chain b = (if b = ref_signed_block then Ok (node_of (uint64ToBytes 1)) else Fail (LibErr ''cbor''))"
  "decode_BlockWithHeaders ref_chain bs = Ok ref_signed_block"
  by (simp_all add: ref_chain_def)

lemma ref_tree_simps [simp]:
  "Tip (ref_signed_tree xs) = Cid [5]" "Tip (ref_validated_tree vs xs) = Cid [5]"
  "with_validators (Ok vs) (ref_signed_tree xs) = Ok (ref_validated_tree vs xs)"
  "sct_ChainTree (ref_validated_tree vs xs) = \<lparr>ct_Tip = Cid [5], ct_BlockValidators = vs, ct_Transactors = xs\<rparr>"
  by (simp_all add: Tip_def ref_signed_tree_def ref_validated_tree_def with_validators_def)

lemma ref_height [simp]: "blk_Height (bwh_Block ref_signed_block) = 1"
  by (simp add: ref_signed_block_def)

lemma ref_signed_block_eq:
  "signed_block mem_store ref_chain ref_trees () ref_crypto ref_blocks (ref_signed_tree xs) [7] [] [[5]] =
     (Ok ref_signed_block, [[5]])" (is "signed_block _ _ _ _ _ _ ?tree _ _ _ = _")
proof -
  have "NewEmptyTree ref_trees did () = (Ok (Cid [9]), ())" for did
    by (simp add: NewEmptyTree_def ref_trees_def must_def eff_defs)
  then have g: "IsGenesis mem_store ref_chain ref_trees () ?tree [[5]] = (Ok False, [[5]])"
    by (simp add: IsGenesis_def MustId_def eff_defs run_store_def)
  have h: "getHeight mem_store ref_chain ref_trees () ?tree [[5]] = (Ok 1, [[5]])"
    using g by (simp add: getHeight_def eff_defs missing_root_def mem_Get)
  have "SignBlock ref_crypto ref_blocks \<lparr>bwh_Block = \<lparr>blk_Height = 1, blk_PreviousTip = Some (Cid [5]), blk_Transactions = []\<rparr>, bwh_Headers = GNil\<rparr> [7] =
      Ok ref_signed_block"
    using ref_block_hash [of "\<lparr>bwh_Block = \<lparr>blk_Height = 1, blk_PreviousTip = Some (Cid [5]), blk_Transactions = []\<rparr>, bwh_Headers = GNil\<rparr>"]
    by (simp add: SignBlock_def ref_crypto_sign ref_addr Let_def ref_headers ref_signed_block_def)
  then show ?thesis using g h by (simp add: signed_block_def eff_defs)
qed

lemma ref_tracked:
  defines "sw1 \<equiv> \<lparr>swr_DagStore = [[5]], swr_touched = [Cid [5]], swr_added = []\<rparr>"
    and "sw2 \<equiv> \<lparr>swr_DagStore = [[0], [5]], swr_touched = [Cid [5]], swr_added = [Cid [0]]\<rparr>"
  shows "run_tracked mem_store (cl_NewChainTree ref_chain (Cid [5]) vs xs) (wrapStoreForRefCounting [[5]]) = (Ok (), sw1)"
    "run_tracked mem_store (cl_ProcessBlock ref_chain (Cid [5]) vs xs b) sw1 = (Ok (True, Cid [0]), sw2)"
    "block_state mem_store id 1 sw2 = Ok [[5], [0]]"
  by (simp_all add: sw1_def sw2_def run_tracked_def wrapStoreForRefCounting_def storeWrapper_Get_def storeWrapper_Add_def
      mem_Get mem_Add List.insert_def block_state_def touchedNodes_def newNodes_def toSlice_def)

lemma ref_request:
  "NewAddBlockRequest mem_store ref_chain ref_trees () ref_crypto ref_blocks id (Ok vs) [7] [] (ref_signed_tree xs, [[5]]) =
     (Ok ref_abr, ref_validated_tree vs xs, [[0], [5]])"
  by (simp add: NewAddBlockRequest_def ref_signed_block_eq refTrackingChainTree_def ref_tracked SignedChainTree_Id_def
      run_store_def invalid_block_def ref_abr_def del: ref_chain_simps(1,3))

lemma ref_clean:
  "clean_run Cid mem_store (play_block ref_chain (Cid [5]) vs xs b) (wrapStoreForRefCounting [[5]])"
  by (simp add: play_block_def wrapStoreForRefCounting_def storeWrapper_Get_def storeWrapper_Add_def mem_Get mem_Add)

theorem request_replays_witness:
  "\<exists>tip signer'. run_store mem_store (play_block ref_chain (Cid [5]) [3 :: nat] () ref_signed_block) [[0], [7], [5]] =
     (Ok (True, tip), signer') \<and> cid_Bytes tip = [0]"
proof -
  have "\<exists>n. node_RawData n = d \<and> ds_Get mem_store (node_Cid n) [[0], [7], [5]] = Ok (Some n)" if "d \<in> set (abr_State ref_abr)" for d
    using that by (intro exI [of _ "node_of d"]) (auto simp: mem_Get ref_abr_def node_of_def)
  then have has: "\<forall>d \<in> set (abr_State ref_abr). \<exists>n. node_RawData n = d \<and> ds_Get mem_store (node_Cid n) [[0], [7], [5]] = Ok (Some n)"
    by blast
  have "0 < abr_Height ref_abr" "abr_NewTip ref_abr = [0]" by (simp_all add: ref_abr_def)
  with request_replays [OF mem.content_store_axioms _ ref_request [of "[3 :: nat]" "()"]]
  obtain tip where tip: "[0] = cid_Bytes tip" "\<forall>signer. (\<forall>d \<in> set (abr_State ref_abr). \<exists>n. node_RawData n = d \<and>
      ds_Get mem_store (node_Cid n) signer = Ok (Some n)) \<longrightarrow>
      (\<exists>signer'. run_store mem_store (play_block ref_chain (Cid [5]) [3 :: nat] () ref_signed_block) signer = (Ok (True, tip), signer'))"
    using ref_clean [of "[3 :: nat]" "()" ref_signed_block] by (auto simp: Let_def ref_signed_block_eq simp del: ref_chain_simps)
  from tip(2) has tip(1) [symmetric] show ?thesis by blast
qed

end
