(* ===== verification/Client.thy ===== *)
theory Client
  imports Block_Requests Round_Subscriber
begin

text \<open>
  \<^verbatim>\<open>src/gossip/client/client.go\<close>: the client of a notary group. It keeps a round subscriber, asks the
  state of the current round for the last request of an object, replays that request's block to get the
  latest tree, and sends its own requests and waits for their proofs. The state of an operation is the client
  and the world behind its store handle and its pubsub; a store seen from a chain tree is that
  handle's view of the world.
\<close>

section \<open>The client and its libraries\<close>

definition ErrTimeout :: goerr where
  "ErrTimeout = Sentinel ''error timeout''"

definition ErrNotFound :: goerr where
  "ErrNotFound = Sentinel ''hamt.ErrNotFound''"

definition ErrNoRound :: goerr where
  "ErrNoRound = Sentinel ''no current round found''"

text \<open>
  The calls to pubsub, the protobuf encoding, the store and \<^verbatim>\<open>safewrap\<close>; \<^verbatim>\<open>store_trees\<close> builds trees in a store.
\<close>

record ('st, 'ps, 'w) client_lib =
  ps_Publish :: "'ps \<Rightarrow> string \<Rightarrow> bytes \<Rightarrow> ('w, unit) eff"
  ps_Subscribe :: "'ps \<Rightarrow> string \<Rightarrow> ('w, unit) eff"
  abr_Marshal :: "AddBlockRequest \<Rightarrow> bytes res"
  store_AddMany :: "'st \<Rightarrow> node list \<Rightarrow> ('w, unit) eff"
  sw_Decode :: "bytes \<Rightarrow> node res"
  store_trees :: "'st \<Rightarrow> 'w tree_lib"

text \<open>Pointers and interfaces may be nil. \<^verbatim>\<open>'hk\<close> are the hooks run at the start, \<^verbatim>\<open>'lg\<close> the loggers.\<close>

record ('e, 'k, 'p, 's, 't, 'st, 'h, 'w, 'ps, 'hk, 'lg) Client =
  c_Group :: "('e, 'k, 'p, ('e, 'p, 's ValidatorGenerator, 't) Config) NotaryGroup option"
  c_logger :: "'lg option"
  c_subscriber :: "('e, 'k, 'p, ('e, 'p, 's ValidatorGenerator, 't) Config, 'st, 'h, 'w) roundSubscriber option"
  c_pubsub :: "'ps option"
  c_store :: "'st option"
  c_onStartHooks :: "'hk list"
  c_validators :: "'s validator list"
  c_transactors :: "Transaction_Type \<rightharpoonup> 't"

text \<open>
  The two shapes of a \<^verbatim>\<open>gossip.Proof\<close> that the client makes: complete, as a subscription delivers it, and without
  round and checkpoint (nil), as \<^verbatim>\<open>GetTip\<close> returns it.
\<close>

record TipProof =
  tp_ObjectId :: bytes
  tp_RoundConfirmation :: RoundConfirmation
  tp_Tip :: bytes
  tp_AddBlockRequest :: AddBlockRequest

datatype gossip_Proof = Complete Proof | At_tip TipProof

section \<open>Where the operations act\<close>

definition on_world :: "('w, 'a) eff \<Rightarrow> ('c \<times> 'w, 'a) eff" where
  "on_world m s = (case s of (c, w) \<Rightarrow> (case m w of (r, w') \<Rightarrow> (r, c, w')))"

text \<open>An operation on the subscriber, and on the confirmation that it holds as the current one.\<close>

definition on_subscriber where
  "on_subscriber m s = (case s of (c, w) \<Rightarrow>
     (case c_subscriber c of
        None \<Rightarrow> (Panic ''invalid memory address or nil pointer dereference'', c, w)
      | Some rs \<Rightarrow> (case m rs of (r, rs') \<Rightarrow> (r, c\<lparr>c_subscriber := Some rs'\<rparr>, w))))"

definition on_confirmation where
  "on_confirmation m s = on_subscriber (on_current (m (snd s))) s"

text \<open>A DAG store handle as the store of a chain tree.\<close>

definition dag_store :: "('st, 'h, 'w) round_lib \<Rightarrow> 'st \<Rightarrow> 'w store_lib" where
  "dag_store L st = \<lparr>ds_Get = (\<lambda>c w. rbind (store_Get L st c w) (\<lambda>n. Ok (Some n))), ds_Add = store_Add L st\<rparr>"

definition string_of_bytes :: "bytes \<Rightarrow> string" where
  "string_of_bytes bs = map (\<lambda>b. char_of (unat b)) bs"

section \<open>Starting\<close>

definition DagStore where
  "DagStore c = c_store c"

text \<open>\<^verbatim>\<open>roundSubscriber.start\<close> up to its goroutine, which is \<^verbatim>\<open>start_loop\<close>.\<close>

definition subscriber_start where
  "subscriber_start Q ps rs = ewrapf ''error subscribing %w'' (ps_Subscribe Q ps (ng_ID (rs_group rs)))"

text \<open>\<^verbatim>\<open>call\<close> runs a hook.\<close>

fun run_hooks :: "('hk \<Rightarrow> ('s, unit) eff) \<Rightarrow> 'hk list \<Rightarrow> ('s, unit) eff" where
  "run_hooks call [] = eret ()"
| "run_hooks call (hook # hooks) = ebind (call hook) (\<lambda>_. run_hooks call hooks)"

definition Start where
  "Start Q call = (\<lambda>(c, w).
     ebind (run_hooks call (c_onStartHooks c)) (\<lambda>_.
     ebind (eread (\<lambda>(c, w). rbind (deref (c_subscriber c)) (\<lambda>rs. rbind (deref (c_pubsub c)) (\<lambda>ps. Ok (ps, rs))))) (\<lambda>(ps, rs).
     ewrapf ''error subscribing: %w'' (on_world (subscriber_start Q ps rs)))) (c, w))"

section \<open>Waiting for a round\<close>

definition CurrentRound where
  "CurrentRound = on_subscriber (\<lambda>rs. (Ok (Current rs), rs))"

text \<open>
  Which case of the \<^verbatim>\<open>select\<close> is taken; \<^verbatim>\<open>during\<close> are the messages that the subscriber's goroutine handles while the client waits. The first case
  needs a round to have been published since; the last one logs, and a logger may be nil.
\<close>

datatype wait = Round_arrived | Timer_fired | Ctx_closed

definition wait_select :: "'lg option \<Rightarrow> wait \<Rightarrow> unit res" where
  "wait_select logger outcome = (case outcome of
     Round_arrived \<Rightarrow> Ok ()
   | Timer_fired \<Rightarrow> Fail ErrNoRound
   | Ctx_closed \<Rightarrow> rbind (deref logger) (\<lambda>_. Ok ()))"

definition WaitForFirstRound where
  "WaitForFirstRound C K L during outcome =
     ebind CurrentRound (\<lambda>current.
     case current of
       Some _ \<Rightarrow> eret ()
     | None \<Rightarrow>
         ebind (on_subscriber (\<lambda>rs. (Ok (), start_loop C K L during rs))) (\<lambda>_.
         eread (\<lambda>(c, w). wait_select (c_logger c) outcome)))"

definition wait_possible where
  "wait_possible C K L during outcome rs \<longleftrightarrow>
     (outcome = Round_arrived \<longrightarrow> length (rs_stream rs) < length (rs_stream (start_loop C K L during rs)))"

section \<open>The tip of an object\<close>

definition find_error :: "cid res \<Rightarrow> cid res" where
  "find_error r = (case r of
     Fail e \<Rightarrow> if e = ErrNotFound then Fail ErrNotFound else Fail (Errorf ''error fetching tip: %w'' [e]) | r \<Rightarrow> r)"

definition GetTip where
  "GetTip C K L during outcome did =
     ebind (WaitForFirstRound C K L during outcome) (\<lambda>_.
     ebind CurrentRound (\<lambda>confirmation.
     case confirmation of
       None \<Rightarrow> elift (Fail ErrNoRound)
     | Some _ \<Rightarrow>
     ebind (ewrapf ''error fetching round: %w'' (on_confirmation (FetchCompletedRound L))) (\<lambda>_.
     ebind (ewrapf ''error fetching hamt: %w'' (on_confirmation (\<lambda>w. on_completedRound (FetchHamt L w)))) (\<lambda>hamtNode.
     ebind (eread (\<lambda>(c, w). find_error (hamt_Find L hamtNode did w))) (\<lambda>txCID.
     ebind (eread (\<lambda>(c, w). rbind (deref (c_store c)) (\<lambda>store. wrapf ''error getting ABR: %w'' (store_Get L store txCID w)))) (\<lambda>abrNode.
     ebind (elift (wrapf ''error decoding ABR: %w'' (decode_AddBlockRequest L (node_RawData abrNode)))) (\<lambda>abr.
     ebind (on_confirmation (\<lambda>w rc. (Ok (RoundConfirmationWrapper_Value rc), rc))) (\<lambda>conf.
     eret \<lparr>tp_ObjectId = bytes_of did, tp_RoundConfirmation = conf, tp_Tip = abr_NewTip abr, tp_AddBlockRequest = abr\<rparr>))))))))"

section \<open>The latest tree\<close>

fun decode_nodes :: "('st, 'ps, 'w) client_lib \<Rightarrow> bytes list \<Rightarrow> node list res" where
  "decode_nodes Q [] = Ok []"
| "decode_nodes Q (d # state) = rbind (sw_Decode Q d) (\<lambda>n. rbind (decode_nodes Q state) (\<lambda>ns. Ok (n # ns)))"

text \<open>\<^verbatim>\<open>if !valid || err != nil\<close>\<close>

definition unprocessed :: "(bool \<times> cid) res \<Rightarrow> cid res" where
  "unprocessed r = (case r of
     Ok (True, tip) \<Rightarrow> Ok tip
   | Ok (False, tip) \<Rightarrow> Fail (Errorf ''error processing block: %w'' [])
   | Fail e \<Rightarrow> Fail (Errorf ''error processing block: %w'' [e])
   | Panic p \<Rightarrow> Panic p)"

definition tips_differ :: goerr where
  "tips_differ = Errorf ''error, tips did not match %s != %s'' []"

text \<open>
  What follows the tip: the request's nodes go into the store, its block is played on the tree at
  the previous tip, or on the empty tree, and the tip must be the one the request names.
\<close>

definition replay_request where
  "replay_request L H Q store validators transactors abr =
     ebind (elift (wrapf ''error casting newTip: %w'' (Cast L (abr_NewTip abr)))) (\<lambda>newTip.
     ebind (elift (wrapf ''error casting previousTip: %w'' (Cast L (abr_PreviousTip abr)))) (\<lambda>previousTip.
     ebind (elift (wrapf ''error decoding nodes: %w'' (decode_nodes Q (abr_State abr)))) (\<lambda>cborNodes.
     ebind (elift (deref store)) (\<lambda>store.
     ebind (ewrapf ''error adding nodes: %w'' (store_AddMany Q store cborNodes)) (\<lambda>_.
     ebind (elift (wrapf ''error decoding payload; %w'' (decode_BlockWithHeaders H (abr_Payload abr)))) (\<lambda>blockWithHeaders.
     ebind (if 0 < abr_Height abr then eret previousTip
            else NewEmptyTree (store_trees Q store) (string_of_bytes (abr_ObjectId abr))) (\<lambda>treeTip.
     ebind (ewrapf ''error creating new tree: %w'' (run_store (dag_store L store) (cl_NewChainTree H treeTip validators transactors))) (\<lambda>_.
     ebind (\<lambda>w. case run_store (dag_store L store) (cl_ProcessBlockImmutable H treeTip validators transactors blockWithHeaders) w of
              (r, w') \<Rightarrow> (unprocessed r, w')) (\<lambda>newTree_Tip.
     if newTree_Tip \<noteq> newTip then elift (Fail tips_differ)
     else eret \<lparr>ct_Tip = newTree_Tip, ct_BlockValidators = validators, ct_Transactors = transactors\<rparr>)))))))))"

definition tip_error :: "goerr \<Rightarrow> goerr" where
  "tip_error e = (if e = ErrNotFound \<or> e = ErrNoRound then e else Errorf ''error getting tip: %w'' [e])"

definition GetLatest where
  "GetLatest C K L H Q during outcome did =
     ebind (eread (\<lambda>(c, w). deref (c_logger c))) (\<lambda>_ s.
     case GetTip C K L during outcome did s of
        (Fail e, s') \<Rightarrow> (Fail (tip_error e), s')
      | (Panic p, s') \<Rightarrow> (Panic p, s')
      | (Ok prf, s') \<Rightarrow>
          ebind (on_world (replay_request L H Q (c_store (fst s')) (c_validators (fst s')) (c_transactors (fst s')) (tp_AddBlockRequest prf)))
            (\<lambda>newTree. eret \<lparr>sct_ChainTree = newTree, sct_Proof = Some (At_tip prf)\<rparr>) s')"

section \<open>Sending\<close>

definition SendWithoutWait where
  "SendWithoutWait Q abr =
     ebind (elift (wrapf ''error marshaling: %w'' (abr_Marshal Q abr))) (\<lambda>bits.
     ebind (eread (\<lambda>(c, w). rbind (deref (c_Group c)) (\<lambda>ng. rbind (deref (c_pubsub c)) (\<lambda>ps.
       Ok (cfg_TransactionTopic (Config_of ng), ps))))) (\<lambda>(topic, ps).
     ewrapf ''error publishing: %w'' (on_world (ps_Publish Q ps topic bits))))"

definition SubscribeToAbr where
  "SubscribeToAbr L abr =
     ebind (eread (\<lambda>(c, w). deref (c_subscriber c))) (\<lambda>rs. on_world (subscribe L rs abr))"

text \<open>
  \<^verbatim>\<open>evs\<close> are the events that the stream calls the subscription with until \<^verbatim>\<open>Send\<close> leaves its \<^verbatim>\<open>select\<close>, each with the state
  of the context; \<^verbatim>\<open>timer\<close> says that the timer's case is taken although a proof may be there.
\<close>

definition send_select :: "bool \<Rightarrow> Proof list \<Rightarrow> Proof res" where
  "send_select timer resp = (if timer then Fail ErrTimeout else case resp of [] \<Rightarrow> Fail ErrTimeout | proof # _ \<Rightarrow> Ok proof)"

definition Send where
  "Send L Q evs timer abr =
     ebind (SubscribeToAbr L abr) (\<lambda>sub.
     ebind (ewrapf ''error sending Tx: %w'' (SendWithoutWait Q abr)) (\<lambda>_.
     elift (send_select timer (as_ch (fold (\<lambda>(ctxDone, noti). notify ctxDone noti) evs sub)))))"

text \<open>
  The tree's own store is \<^verbatim>\<open>S\<close>. The state: the tree, the client, the world. An error leaves the tree as it was, except
  for the validators that the request fills in.
\<close>

definition PlayTransactions where
  "PlayTransactions S L H T mem C B Q visit evs timer treeKey transactions = (\<lambda>(tree, c, w).
     case NewAddBlockRequest S H T mem C B visit (rbind (deref (c_Group c)) BlockValidators) treeKey transactions (tree, w) of
       (Fail e, tree, w) \<Rightarrow> (Fail (Errorf ''error creating NewAddBlockRequest: %w'' [e]), tree, c, w)
     | (Panic p, tree, w) \<Rightarrow> (Panic p, tree, c, w)
     | (Ok abr, tree, w) \<Rightarrow>
     (case ewrapf ''error sending tx: %w'' (Send L Q evs timer abr) (c, w) of
       (Fail e, c, w) \<Rightarrow> (Fail e, tree, c, w)
     | (Panic p, c, w) \<Rightarrow> (Panic p, tree, c, w)
     | (Ok proof, c, w) \<Rightarrow>
     (case wrapf ''error casting tip cid: %v'' (Cast L (prf_Tip proof)) of
       Fail e \<Rightarrow> (Fail e, tree, c, w)
     | Panic p \<Rightarrow> (Panic p, tree, c, w)
     | Ok tipCid \<Rightarrow>
     (let ct = sct_ChainTree tree in
      case ewrapf ''error creating new tree: %w''
          (run_store S (cl_NewChainTree H tipCid (ct_BlockValidators ct) (ct_Transactors ct))) w of
       (Fail e, w) \<Rightarrow> (Fail e, tree, c, w)
     | (Panic p, w) \<Rightarrow> (Panic p, tree, c, w)
     | (Ok _, w) \<Rightarrow>
         (Ok proof, \<lparr>sct_ChainTree = ct\<lparr>ct_Tip := tipCid\<rparr>, sct_Proof = Some (Complete proof)\<rparr>, c, w)))))"

end
