(* ===== verification/Client_Laws.thy ===== *)
theory Client_Laws
  imports Client Subscriber_Laws
begin

text \<open>
  A client's subscriber through its whole life: the goroutine that handles messages and the reads of
  \<^verbatim>\<open>GetTip\<close>, which fill the caches of the current round, interleave in any order. The invariant of the subscriber
  holds in every state reached, and what \<^verbatim>\<open>GetTip\<close> finds is what the state of a confirmed round names.
\<close>

section \<open>The states of a subscriber\<close>

inductive follows ::
  "('e, 'd, 'sc) crypto_lib \<Rightarrow> ('k, 'p) kyber \<Rightarrow> ('st, 'h, 'w) round_lib \<Rightarrow> ('e, 'k, 'p, 'cfg) NotaryGroup \<Rightarrow> 'st \<Rightarrow>
     ('e, 'k, 'p, 'cfg, 'st, 'h, 'w) roundSubscriber \<Rightarrow> bool"
  for C K L ng st where
    start: "follows C K L ng st (newRoundSubscriber L ng st)"
  | message: "follows C K L ng st rs \<Longrightarrow> handleMessage C K L w bits rs = (r, rs') \<Longrightarrow> follows C K L ng st rs'"
  | fetch_round: "follows C K L ng st rs \<Longrightarrow> on_current (FetchCompletedRound L w) rs = (x, rs') \<Longrightarrow> follows C K L ng st rs'"
  | fetch_hamt: "follows C K L ng st rs \<Longrightarrow> on_current (on_completedRound (FetchHamt L w)) rs = (h, rs') \<Longrightarrow>
      follows C K L ng st rs'"

lemma follows_start_loop: "follows C K L ng st rs \<Longrightarrow> follows C K L ng st (start_loop C K L msgs rs)"
proof (induction msgs arbitrary: rs)
  case (Cons m msgs)
  obtain w nxt where m: "m = (w, nxt)" by fastforce
  show ?case
  proof (cases nxt)
    case (Ok bits)
    obtain r rs' where run: "handleMessage C K L w bits rs = (r, rs')" by fastforce
    from follows.message [OF Cons.prems run] Cons.IH [of rs'] show ?thesis using m Ok run by (cases r) auto
  qed (use Cons.prems m in auto)
qed simp

section \<open>What the caches hold\<close>

text \<open>The store handles are the subscriber's, and a cached hamt was loaded from the state CID of its round.\<close>

definition hamt_from :: "('st, 'h, 'w) round_lib \<Rightarrow> 'st \<Rightarrow> Round \<Rightarrow> 'h \<Rightarrow> bool" where
  "hamt_from L st r h \<longleftrightarrow> (\<exists>c w. Cast L (rnd_StateCid r) = Ok c \<and> hamt_LoadNode L (DagStoreToCborIpld L st) c w = Ok h)"

definition cache_ok :: "('st, 'h, 'w) round_lib \<Rightarrow> 'st \<Rightarrow> ('st, 'h) RoundConfirmationWrapper \<Rightarrow> bool" where
  "cache_ok L st rc \<longleftrightarrow> rcw_store rc = Some st \<and>
     (\<forall>r. rcw_completedRound rc = Some r \<longrightarrow> rw_store r = Some st \<and>
        (\<forall>h. rw_hamtNode r = Some h \<longrightarrow> hamt_from L st (rw_round r) h))"

definition caches_ok where
  "caches_ok L st rs \<longleftrightarrow> rs_dagStore rs = st \<and> (\<forall>cur. rs_current rs = Some cur \<longrightarrow> cache_ok L st cur)"

lemma cache_ok_new: "cache_ok L st (RoundConfirmationWrapper_SetStore st (WrapRoundConfirmation L conf))"
  by (simp add: cache_ok_def RoundConfirmationWrapper_SetStore_def WrapRoundConfirmation_def)

lemma cache_ok_FetchCompletedRound: "cache_ok L st rc \<Longrightarrow> cache_ok L st (snd (FetchCompletedRound L w rc))"
  by (auto simp: cache_ok_def FetchCompletedRound_def Let_def RoundWrapper_SetStore_def WrapRound_def
      split: option.splits res.splits)

lemma cache_ok_FetchCheckpoint: "cache_ok L st rc \<Longrightarrow> cache_ok L st (snd (on_completedRound (FetchCheckpoint L w) rc))"
  by (auto simp: cache_ok_def on_completedRound_def FetchCheckpoint_def Let_def split: option.splits res.splits)

lemma cache_ok_FetchHamt: "cache_ok L st rc \<Longrightarrow> cache_ok L st (snd (on_completedRound (FetchHamt L w) rc))"
  by (auto simp: cache_ok_def on_completedRound_def FetchHamt_def Let_def hamt_from_def rbind_Ok_iff
      split: option.splits res.splits)

lemma caches_ok_on_current:
  assumes "caches_ok L st rs" "on_current m rs = (x, rs')" "\<And>rc. cache_ok L st rc \<Longrightarrow> cache_ok L st (snd (m rc))"
  shows "caches_ok L st rs'"
proof (cases "rs_current rs")
  case None
  then show ?thesis using assms(1,2) by (simp add: on_current_def)
next
  case (Some rc)
  then have "rs' = rs\<lparr>rs_current := Some (snd (m rc))\<rparr>" using assms(2) by (auto simp: on_current_def split: prod.splits)
  then show ?thesis using assms(1,3) Some by (simp add: caches_ok_def)
qed

lemma on_completedRound_read: "on_completedRound (\<lambda>r. (f r, r)) rc = (x, rc') \<Longrightarrow> rc' = rc"
  by (cases rc) (auto simp: on_completedRound_def split: option.splits)

lemma caches_ok_handleQuorum:
  assumes "rs_dagStore rs = st" "handleQuorum L w conf rs = (r, rs')"
  shows "caches_ok L st rs'"
proof -
  let ?rc0 = "RoundConfirmationWrapper_SetStore (rs_dagStore rs) (WrapRoundConfirmation L conf)"
  obtain x1 rc1 where f1: "FetchCompletedRound L w ?rc0 = (x1, rc1)" by fastforce
  obtain x2 rc2 where f2: "on_completedRound (FetchCheckpoint L w) rc1 = (x2, rc2)" by fastforce
  have "cache_ok L st ?rc0" using assms(1) cache_ok_new by auto
  then have ok: "cache_ok L st rc1" "cache_ok L st rc2"
    using cache_ok_FetchCompletedRound [of L st ?rc0 w] cache_ok_FetchCheckpoint [of L st rc1 w] f1 f2 by simp_all
  have "rs_dagStore rs' = st \<and> (rs_current rs' = Some rc1 \<or> rs_current rs' = Some rc2)"
    using assms f1 f2
    by (auto simp: handleQuorum_def Let_def eff_defs on_current_def split: res.splits prod.splits
        dest!: on_completedRound_read)
  with ok show ?thesis by (auto simp: caches_ok_def)
qed

lemma caches_ok_inflight [simp]: "caches_ok L st (rs\<lparr>rs_inflight := i\<rparr>) = caches_ok L st rs"
  by (simp add: caches_ok_def)

lemma caches_ok_handleMessage:
  assumes "caches_ok L st rs" "handleMessage C K L w bits rs = (r, rs')"
  shows "caches_ok L st rs'"
proof -
  have "rs_dagStore (rs\<lparr>rs_inflight := i\<rparr>) = st" for i using assms(1) by (simp add: caches_ok_def)
  note q = caches_ok_handleQuorum [OF this]
  show ?thesis
    using assms by (auto simp: handleMessage_def eff_defs Let_def split: res.splits prod.splits if_splits dest: q)
qed

lemma follows_caches: "follows C K L ng st rs \<Longrightarrow> caches_ok L st rs"
proof (induction rule: follows.induct)
  case start
  then show ?case by (simp add: caches_ok_def newRoundSubscriber_def)
next
  case (message rs w bits r rs')
  show ?case by (rule caches_ok_handleMessage [OF message.IH message.hyps(2)])
next
  case (fetch_round rs w x rs')
  show ?case by (rule caches_ok_on_current [OF fetch_round.IH fetch_round.hyps(2) cache_ok_FetchCompletedRound])
next
  case (fetch_hamt rs w h rs')
  show ?case by (rule caches_ok_on_current [OF fetch_hamt.IH fetch_hamt.hyps(2) cache_ok_FetchHamt])
qed

context round_follower
begin

lemma rs_inv_on_current:
  assumes "rs_inv vks rs" "on_current m rs = (x, rs')"
    and "\<And>rc. linked L rc \<Longrightarrow> linked L (snd (m rc))" "\<And>rc. rcw_value (snd (m rc)) = rcw_value rc"
  shows "rs_inv vks rs' \<and> rs_group rs' = rs_group rs"
proof (cases "rs_current rs")
  case None
  then show ?thesis using assms(1,2) by (simp add: on_current_def)
next
  case (Some rc)
  then have "rs' = rs\<lparr>rs_current := Some (snd (m rc))\<rparr>" using assms(2) by (auto simp: on_current_def split: prod.splits)
  then show ?thesis
    using assms(1,3,4) Some by (auto simp: rs_inv_def RoundConfirmationWrapper_Height_def)
qed

lemma follows_inv:
  assumes "follows C K L ng st rs" "verKeys ng = Ok vks"
  shows "rs_inv vks rs \<and> rs_group rs = ng"
  using assms(1)
proof (induction rule: follows.induct)
  case start
  show ?case using rs_inv_new [of vks ng st] by (simp add: newRoundSubscriber_def)
next
  case (message rs w bits r rs')
  then show ?case using handleMessage_step [of vks rs w bits r rs'] assms(2) by (simp add: step_ok_def)
next
  case (fetch_round rs w x rs')
  then show ?case
    using rs_inv_on_current [OF _ fetch_round.hyps(2), of vks] linked_FetchCompletedRound FetchCompletedRound_keeps by metis
next
  case (fetch_hamt rs w h rs')
  then show ?case
    using rs_inv_on_current [OF _ fetch_hamt.hyps(2), of vks] linked_FetchHamt on_completedRound_keeps by metis
qed

end

section \<open>Successful calls\<close>

lemma on_subscriber_iff:
  "c_subscriber c = Some rs \<Longrightarrow>
     on_subscriber m (c, w) = (x, s') \<longleftrightarrow> (\<exists>rs'. m rs = (x, rs') \<and> s' = (c\<lparr>c_subscriber := Some rs'\<rparr>, w))"
  by (auto simp: on_subscriber_def split: prod.splits)

lemma on_confirmation_iff:
  "c_subscriber c = Some rs \<Longrightarrow>
     on_confirmation m (c, w) = (x, s') \<longleftrightarrow> (\<exists>rs'. on_current (m w) rs = (x, rs') \<and> s' = (c\<lparr>c_subscriber := Some rs'\<rparr>, w))"
  by (simp add: on_confirmation_def on_subscriber_iff)

lemma on_world_Ok_iff [go_ok]:
  "on_world m (c, w) = (Ok x, s') \<longleftrightarrow> (\<exists>w'. m w = (Ok x, w') \<and> s' = (c, w'))"
  by (auto simp: on_world_def split: prod.splits)

lemma CurrentRound_iff:
  "c_subscriber c = Some rs \<Longrightarrow> CurrentRound (c, w) = (x, s') \<longleftrightarrow> x = Ok (rs_current rs) \<and> s' = (c, w)"
  by (cases c) (auto simp: CurrentRound_def on_subscriber_iff Current_def)

lemma WaitForFirstRound_OkE:
  assumes "WaitForFirstRound C K L during outcome (c, w) = (Ok (), s')" "c_subscriber c = Some rs" "follows C K L ng st rs"
  obtains rs' where "s' = (c\<lparr>c_subscriber := Some rs'\<rparr>, w)" "follows C K L ng st rs'"
proof (cases "rs_current rs")
  case None
  then have "s' = (c\<lparr>c_subscriber := Some (start_loop C K L during rs)\<rparr>, w)"
    using assms(1,2) by (auto simp: WaitForFirstRound_def ebind_Ok_iff CurrentRound_iff on_subscriber_iff eread_def)
  then show thesis using that follows_start_loop [OF assms(3)] by blast
next
  case (Some cur)
  then have "s' = (c, w)" using assms(1,2) by (auto simp: WaitForFirstRound_def go_ok CurrentRound_iff)
  moreover have "c\<lparr>c_subscriber := Some rs\<rparr> = c" using assms(2) by (cases c) simp
  ultimately show thesis using that [of rs] assms(3) by simp
qed

lemma fetch_hamt_OkE:
  assumes "on_current (on_completedRound (FetchHamt L w)) rs = (Ok h, rs')"
  obtains cur r where "rs_current rs' = Some cur" "rcw_completedRound cur = Some r" "rw_hamtNode r = Some h"
proof -
  obtain cur0 r0 where r0: "rs_current rs = Some cur0" "rcw_completedRound cur0 = Some r0"
    using assms by (auto simp: on_current_def on_completedRound_def split: option.splits)
  obtain r where r: "FetchHamt L w r0 = (Ok h, r)" "rs_current rs' = Some (cur0\<lparr>rcw_completedRound := Some r\<rparr>)"
    using assms r0 by (auto simp: on_current_def on_completedRound_def split: prod.splits)
  from r(1) have "rw_hamtNode r = Some h" by (auto simp: FetchHamt_def Let_def split: option.splits res.splits)
  with that r(2) show thesis by simp
qed

lemma GetTip_OkE:
  assumes "GetTip C K L during outcome did (c, w) = (Ok p, s')" "c_subscriber c = Some rs" "follows C K L ng st rs"
  obtains rs' cur r hn store tx n where
    "s' = (c\<lparr>c_subscriber := Some rs'\<rparr>, w)" "follows C K L ng st rs'" "rs_current rs' = Some cur"
    "rcw_completedRound cur = Some r" "rw_hamtNode r = Some hn" "hamt_Find L hn did w = Ok tx"
    "c_store c = Some store" "store_Get L store tx w = Ok n"
    "decode_AddBlockRequest L (node_RawData n) = Ok (tp_AddBlockRequest p)"
    "p = \<lparr>tp_ObjectId = bytes_of did, tp_RoundConfirmation = rcw_value cur, tp_Tip = abr_NewTip (tp_AddBlockRequest p),
       tp_AddBlockRequest = tp_AddBlockRequest p\<rparr>"
proof -
  obtain s1 where "WaitForFirstRound C K L during outcome (c, w) = (Ok (), s1)"
    using assms(1) by (auto simp: GetTip_def ebind_Ok_iff)
  from WaitForFirstRound_OkE [OF this assms(2,3)] this obtain rs1 where
    wait: "WaitForFirstRound C K L during outcome (c, w) = (Ok (), c\<lparr>c_subscriber := Some rs1\<rparr>, w)"
    and rs1: "follows C K L ng st rs1" by auto
  obtain rc x rs2 hn rs3 tx n store cur where
    f2: "on_current (FetchCompletedRound L w) rs1 = (Ok x, rs2)"
    and f3: "on_current (on_completedRound (FetchHamt L w)) rs2 = (Ok hn, rs3)"
    and rest: "find_error (hamt_Find L hn did w) = Ok tx" "c_store c = Some store" "store_Get L store tx w = Ok n"
      "decode_AddBlockRequest L (node_RawData n) = Ok (tp_AddBlockRequest p)"
    and cur: "rs_current rs3 = Some cur" "p = \<lparr>tp_ObjectId = bytes_of did, tp_RoundConfirmation = rcw_value cur,
       tp_Tip = abr_NewTip (tp_AddBlockRequest p), tp_AddBlockRequest = tp_AddBlockRequest p\<rparr>"
      "s' = (c\<lparr>c_subscriber := Some (rs3\<lparr>rs_current := Some cur\<rparr>)\<rparr>, w)"
    using assms(1) wait
    by (auto simp: GetTip_def go_ok CurrentRound_iff on_confirmation_iff deref_def on_current_def
        RoundConfirmationWrapper_Value_def split: option.splits prod.splits)
  have find: "hamt_Find L hn did w = Ok tx" using rest(1) by (auto simp: find_error_def split: res.splits if_splits)
  have "follows C K L ng st rs3" by (rule follows.fetch_hamt [OF follows.fetch_round [OF rs1 f2] f3])
  moreover have "rs3\<lparr>rs_current := Some cur\<rparr> = rs3" using cur(1) by (cases rs3) simp
  moreover obtain r where "rcw_completedRound cur = Some r" "rw_hamtNode r = Some hn"
    by (rule fetch_hamt_OkE [OF f3]) (simp add: cur(1))
  ultimately show thesis using that [of rs3 cur r hn tx store n] find rest(2-4) cur by simp
qed

section \<open>Tips that a quorum confirmed\<close>

text \<open>A client's store answers the CID of a request with that request.\<close>

locale request_store = round_store +
  assumes stored_request: "store_Get L st c w = Ok n \<Longrightarrow> decode_AddBlockRequest L (node_RawData n) = Ok abr \<Longrightarrow>
      hamt_Put L abr = Ok c"

text \<open>The state of a round that \<^verbatim>\<open>conf\<close> confirms names \<^verbatim>\<open>abr\<close> as the last request of \<^verbatim>\<open>did\<close>.\<close>

definition named_by where
  "named_by L st conf did w abr \<longleftrightarrow> (\<exists>r hn tx. links_round L conf r \<and> hamt_from L st r hn \<and>
     hamt_Find L hn did w = Ok tx \<and> hamt_Put L abr = Ok tx)"

context round_follower
begin

lemma follows_confirmed:
  assumes "follows C K L ng st rs" "verKeys ng = Ok vks" "rs_current rs = Some cur"
  shows "verifyRoundConfirmation C K (rcw_value cur) (QuorumCount ng) vks = Ok True"
  using follows_inv [OF assms(1,2)] assms(3) by (auto simp: rs_inv_def intro: confirmed_verifies)

lemma follows_linked:
  assumes "follows C K L ng st rs" "verKeys ng = Ok vks" "rs_current rs = Some cur" "rcw_completedRound cur = Some r"
  shows "links_round L (rcw_value cur) (rw_round r)"
  using follows_inv [OF assms(1,2)] assms(3,4) by (auto simp: rs_inv_def linked_def)

end

section \<open>Replaying a request\<close>

text \<open>
  What \<^verbatim>\<open>GetLatest\<close> relies on: CIDs, blocks and the nodes that a store holds survive their encodings, \<^verbatim>\<open>AddMany\<close> makes addressed
  nodes readable, \<^verbatim>\<open>ProcessBlockImmutable\<close> judges and computes as \<^verbatim>\<open>ProcessBlock\<close> does, making a tree does not call its validators, and
  one more validator that accepts a block, whatever the tree, leaves the block's processing as it is.
\<close>

definition stored_data :: "'s store_lib \<Rightarrow> bytes \<Rightarrow> bool" where
  "stored_data S d \<longleftrightarrow> (\<exists>c w n. ds_Get S c w = Ok (Some n) \<and> node_RawData n = d)"

locale replay_lib =
  fixes hash :: "bytes \<Rightarrow> cid" and L :: "('st, 'h, 'w) round_lib" and H :: "('s validator, 'x) chain_lib"
    and Q :: "('st, 'ps, 'w) client_lib" and st :: 'st
  assumes store: "content_store hash (dag_store L st)"
    and cast_bytes: "Cast L (cid_Bytes c) = Ok c"
    and immutable: "cl_ProcessBlockImmutable H = cl_ProcessBlock H"
    and payload: "sw_WrapBlockWithHeaders H b = Ok n \<Longrightarrow> decode_BlockWithHeaders H (node_RawData n) = Ok b"
    and same_new_tree: "cl_NewChainTree H tip vs xs = cl_NewChainTree H tip vs' xs"
    and accepting: "(\<forall>t. v t b = Ok True) \<Longrightarrow>
      cl_ProcessBlock H tip (vs @ [v]) xs b = cl_ProcessBlock H tip vs xs b"
    and decode_node: "ds_Get (dag_store L st) c w = Ok (Some n) \<Longrightarrow> sw_Decode Q (node_RawData n) = Ok n"
    and add_many: "list_all (addressed hash) ns \<Longrightarrow> \<exists>w'. store_AddMany Q st ns w = (Ok (), w') \<and>
      (\<forall>n \<in> set ns. ds_Get (dag_store L st) (node_Cid n) w' = Ok (Some n))"
begin

lemma decode_nodes_addressed:
  assumes "\<forall>d \<in> set ds. stored_data (dag_store L st) d"
  shows "\<exists>ns. decode_nodes Q ds = Ok ns \<and> list_all (addressed hash) ns \<and> map node_RawData ns = ds"
  using assms
proof (induction ds)
  case (Cons d ds)
  then obtain c w n ns where n: "ds_Get (dag_store L st) c w = Ok (Some n)" "node_RawData n = d"
    and ns: "decode_nodes Q ds = Ok ns" "list_all (addressed hash) ns" "map node_RawData ns = ds"
    by (auto simp: stored_data_def)
  have "addressed hash n" using content_store.get_node [OF store n(1)] by simp
  with decode_node [OF n(1)] n(2) ns show ?case by (intro exI [of _ "n # ns"]) auto
qed simp

lemma play_block_parts:
  assumes "run_store S (play_block H tip vs xs b) w = (Ok r, w')"
  shows "\<exists>w1. run_store S (cl_NewChainTree H tip vs xs) w = (Ok (), w1) \<and> run_store S (cl_ProcessBlock H tip vs xs b) w1 = (Ok r, w')"
  using assms by (auto simp: play_block_def run_store_def exec_bind split: prod.splits res.splits)

lemma ProcessBlock_extra:
  "\<forall>v \<in> set extra. \<forall>t. v t b = Ok True \<Longrightarrow> cl_ProcessBlock H tip (vs @ extra) xs b = cl_ProcessBlock H tip vs xs b"
proof (induction extra rule: rev_induct)
  case (snoc v extra)
  have "cl_ProcessBlock H tip ((vs @ extra) @ [v]) xs b = cl_ProcessBlock H tip (vs @ extra) xs b"
    by (rule accepting) (use snoc.prems in simp)
  with snoc show ?case by simp
qed simp

lemma play_block_extra:
  "\<forall>v \<in> set extra. \<forall>t. v t b = Ok True \<Longrightarrow> play_block H tip (vs @ extra) xs b = play_block H tip vs xs b"
  using ProcessBlock_extra [of extra b tip vs xs] same_new_tree [of tip "vs @ extra" xs vs]
  by (simp add: play_block_def cong: res.case_cong)

text \<open>However the tree is found that the block is played on, once the request's nodes are in the store.\<close>

lemma replay_request_at:
  assumes "Cast L (abr_PreviousTip abr) = Ok prev" "abr_NewTip abr = cid_Bytes tip"
    and "sw_WrapBlockWithHeaders H b = Ok n" "abr_Payload abr = node_RawData n"
    and "\<forall>d \<in> set (abr_State abr). stored_data (dag_store L st) d"
    and start: "\<And>w. \<forall>d \<in> set (abr_State abr). \<exists>n. node_RawData n = d \<and> ds_Get (dag_store L st) (node_Cid n) w = Ok (Some n) \<Longrightarrow>
      \<exists>w1 w2. (if 0 < abr_Height abr then eret prev else NewEmptyTree (store_trees Q st) (string_of_bytes (abr_ObjectId abr))) w = (Ok tip0, w1) \<and>
        run_store (dag_store L st) (play_block H tip0 vs xs b) w1 = (Ok (True, tip), w2)"
  shows "\<exists>w'. replay_request L H Q (Some st) vs xs abr w =
    (Ok \<lparr>ct_Tip = tip, ct_BlockValidators = vs, ct_Transactors = xs\<rparr>, w')"
proof -
  obtain ns where ns: "decode_nodes Q (abr_State abr) = Ok ns" "list_all (addressed hash) ns" "map node_RawData ns = abr_State abr"
    using decode_nodes_addressed [OF assms(5)] by blast
  obtain w1 where w1: "store_AddMany Q st ns w = (Ok (), w1)" "\<forall>n \<in> set ns. ds_Get (dag_store L st) (node_Cid n) w1 = Ok (Some n)"
    using add_many [OF ns(2)] by blast
  have "\<forall>d \<in> set (abr_State abr). \<exists>n. node_RawData n = d \<and> ds_Get (dag_store L st) (node_Cid n) w1 = Ok (Some n)"
    using w1(2) unfolding ns(3) [symmetric] by auto
  from start [OF this] obtain w2 w' where
    w2: "(if 0 < abr_Height abr then eret prev else NewEmptyTree (store_trees Q st) (string_of_bytes (abr_ObjectId abr))) w1 = (Ok tip0, w2)"
    and run: "run_store (dag_store L st) (play_block H tip0 vs xs b) w2 = (Ok (True, tip), w')" by blast
  from play_block_parts [OF run] obtain w3 where
    "run_store (dag_store L st) (cl_NewChainTree H tip0 vs xs) w2 = (Ok (), w3)"
    "run_store (dag_store L st) (cl_ProcessBlock H tip0 vs xs b) w3 = (Ok (True, tip), w')" by blast
  then show ?thesis
    using assms(1,2,4) w2 payload [OF assms(3)] ns(1) w1(1) cast_bytes
    by (simp add: replay_request_def ebind_def elift_def ewrapf_def eret_def deref_def immutable unprocessed_def)
qed

lemma replay_request_ok:
  assumes "0 < abr_Height abr" "abr_PreviousTip abr = cid_Bytes tip0" "abr_NewTip abr = cid_Bytes tip"
    and "sw_WrapBlockWithHeaders H b = Ok n" "abr_Payload abr = node_RawData n"
    and "\<forall>d \<in> set (abr_State abr). stored_data (dag_store L st) d"
    and play: "\<And>w. \<forall>d \<in> set (abr_State abr). \<exists>n. node_RawData n = d \<and> ds_Get (dag_store L st) (node_Cid n) w = Ok (Some n) \<Longrightarrow>
      \<exists>w'. run_store (dag_store L st) (play_block H tip0 vs xs b) w = (Ok (True, tip), w')"
  shows "\<exists>w'. replay_request L H Q (Some st) vs xs abr w =
    (Ok \<lparr>ct_Tip = tip, ct_BlockValidators = vs, ct_Transactors = xs\<rparr>, w')"
  by (rule replay_request_at [OF _ assms(3-6), of tip0 tip0]) (use assms(1,2) cast_bytes play in \<open>auto simp: eret_def\<close>)

end

text \<open>
  What the first block relies on: wrapping a value yields an addressed node, in a memory store (\<^verbatim>\<open>T\<close>) as in the client's, and a DAG made of nodes
  puts them into the store and has the first as its tip.
\<close>

locale genesis_lib = replay_lib hash L H Q st
  for hash :: "bytes \<Rightarrow> cid" and L :: "('st, 'h, 'w) round_lib" and H :: "('s validator, 'x) chain_lib"
    and Q :: "('st, 'ps, 'w) client_lib" and st :: 'st +
  fixes T :: "'m tree_lib"
  assumes wrap: "sw_WrapValue T v = Ok n \<Longrightarrow> addressed hash n"
    and same_wrap: "sw_WrapValue (store_trees Q st) = sw_WrapValue T"
    and dag_tip: "fst (NewDagWithNodes T (r # ns) m) = Ok c \<Longrightarrow> c = node_Cid r"
    and new_dag: "list_all (addressed hash) (r # ns) \<Longrightarrow> \<exists>w'. NewDagWithNodes (store_trees Q st) (r # ns) w = (Ok (node_Cid r), w') \<and>
      (\<forall>n \<in> set (r # ns). ds_Get (dag_store L st) (node_Cid n) w' = Ok (Some n))"

text \<open>The nodes of the empty tree of an object.\<close>

definition empty_nodes :: "'m tree_lib \<Rightarrow> string \<Rightarrow> node list" where
  "empty_nodes T did = (case sw_WrapValue T (GMap []) of
     Ok n \<Rightarrow> (case sw_WrapValue T (GMap [(''chain'', GCid (node_Cid n)), (''tree'', GCid (node_Cid n)), (''id'', GString did)]) of
        Ok root \<Rightarrow> [root, n, n] | _ \<Rightarrow> [])
   | _ \<Rightarrow> [])"

context genesis_lib
begin

lemma empty_tree_again:
  assumes "fst (NewEmptyTree T did m) = Ok tip"
  shows "\<exists>w'. NewEmptyTree (store_trees Q st) did w = (Ok tip, w') \<and>
    (\<forall>n \<in> set (empty_nodes T did). ds_Get (dag_store L st) (node_Cid n) w' = Ok (Some n))"
proof -
  obtain n root where n: "sw_WrapValue T (GMap []) = Ok n"
    and root: "sw_WrapValue T (GMap [(''chain'', GCid (node_Cid n)), (''tree'', GCid (node_Cid n)), (''id'', GString did)]) = Ok root"
    and "fst (NewDagWithNodes T [root, n, n] m) = Ok tip"
    using assms by (auto simp: NewEmptyTree_def eff_defs must_def split: res.splits prod.splits)
  then have tip: "tip = node_Cid root" using dag_tip by blast
  have "list_all (addressed hash) [root, n, n]" using wrap n root by simp
  from new_dag [OF this, of w] n root tip show ?thesis
    by (auto simp: NewEmptyTree_def eff_defs must_def same_wrap empty_nodes_def)
qed

end

lemma cidToNodes_stored:
  assumes "cidToNodes S st ids = Ok ns" "nodesToBytes ns = Ok bs" "d \<in> set bs"
  shows "stored_data S d"
  using assms
proof (induction ids arbitrary: ns bs)
  case (Cons i ids)
  then obtain n ns' bs' where "ds_Get S i st = Ok (Some n)" "cidToNodes S st ids = Ok ns'" "nodesToBytes ns' = Ok bs'"
    "bs = node_RawData n # bs'" by (auto simp: rbind_Ok_iff split: option.splits)
  with Cons.IH [of ns' bs'] Cons.prems(3) show ?case by (auto simp: stored_data_def)
qed simp

lemma block_state_stored:
  assumes "block_state S visit height sw = Ok state" "d \<in> set state"
  shows "stored_data S d"
  using assms cidToNodes_stored
  by (fastforce simp: block_state_def rbind_Ok_iff touchedNodes_def newNodes_def split: if_splits)

end
