(* ===== verification/Client_Config.thy ===== *)
theory Client_Config
  imports Client_Laws Human_Config
begin

text \<open>
  \<^verbatim>\<open>src/gossip/client/config.go\<close>, \<^verbatim>\<open>notarygroups.go\<close> and the constructors in \<^verbatim>\<open>client.go\<close>: a client is made from options, each
  of which sets a part of a configuration; what no option has set gets a default. A nil pointer, slice or map is
  \<^verbatim>\<open>None\<close>; an option is an effect on the configuration.
\<close>

section \<open>Configurations\<close>

record ('e, 'k, 'p, 's, 't, 'st, 'h, 'w, 'ps, 'hk, 'lg, 'sg) ClientConfig =
  cc_Group :: "('e, 'k, 'p, ('e, 'p, 's ValidatorGenerator, 't) Config) NotaryGroup option"
  cc_Logger :: "'lg option"
  cc_Pubsub :: "'ps option"
  cc_Storage :: "'sg option"
  cc_Store :: "'st option"
  cc_Validators :: "'s validator list option"
  cc_Transactors :: "(Transaction_Type \<rightharpoonup> 't) option"
  cc_OnStartHooks :: "'hk list option"
  cc_subscriber :: "('e, 'k, 'p, ('e, 'p, 's ValidatorGenerator, 't) Config, 'st, 'h, 'w) roundSubscriber option"

definition empty_ClientConfig where
  "empty_ClientConfig = \<lparr>cc_Group = None, cc_Logger = None, cc_Pubsub = None, cc_Storage = None, cc_Store = None,
     cc_Validators = None, cc_Transactors = None, cc_OnStartHooks = None, cc_subscriber = None\<rparr>"

text \<open>
  What the defaults come from: loggers, an in-memory datastore, the group of a TOML text (\<^verbatim>\<open>types.TomlToConfig\<close> and \<^verbatim>\<open>Config.NotaryGroup\<close>,
  modelled elsewhere), and \<^verbatim>\<open>p2p.NewHostAndBitSwapPeer\<close> with its pubsub; \<^verbatim>\<open>bootstrap_hook\<close> is the start hook for a host.
\<close>

record ('e, 'k, 'p, 's, 't, 'st, 'ps, 'hk, 'lg, 'sg, 'host) config_lib =
  new_Logger :: "string \<Rightarrow> 'lg"
  memory_Storage :: 'sg
  toml_Group :: "string \<Rightarrow> ('e, 'k, 'p, ('e, 'p, 's ValidatorGenerator, 't) Config) NotaryGroup res"
  new_Host :: "string \<Rightarrow> 'sg \<Rightarrow> ('host \<times> 'st) res"
  host_Pubsub :: "'host \<Rightarrow> 'ps"
  bootstrap_hook :: "'host \<Rightarrow> 'hk"
  group_tomls :: "string \<rightharpoonup> string"

text \<open>\<^verbatim>\<open>g4\<close> and \<^verbatim>\<open>local_docker\<close> are the two TOML texts.\<close>

definition NotaryGroupConfigs :: "string \<Rightarrow> string \<Rightarrow> (string \<rightharpoonup> string)" where
  "NotaryGroupConfigs g4 local_docker = [''gossip4'' \<mapsto> g4, ''tupelolocal'' \<mapsto> local_docker]"

definition DefaultNotaryGroup :: string where
  "DefaultNotaryGroup = ''gossip4''"

section \<open>Options\<close>

fun ApplyOptions :: "('c, unit) eff list \<Rightarrow> ('c, unit) eff" where
  "ApplyOptions [] = eret ()"
| "ApplyOptions (factory # opts) = ebind (ewrapf ''error applying option: %v'' factory) (\<lambda>_. ApplyOptions opts)"

definition WithPubsub where
  "WithPubsub v c = (Ok (), c\<lparr>cc_Pubsub := v\<rparr>)"

definition WithDagStore where
  "WithDagStore v c = (Ok (), c\<lparr>cc_Store := v\<rparr>)"

definition WithLogger where
  "WithLogger v c = (Ok (), c\<lparr>cc_Logger := v\<rparr>)"

definition WithValidators where
  "WithValidators v c = (Ok (), c\<lparr>cc_Validators := v\<rparr>)"

text \<open>The group's validators, and the one that verifies the proofs of received tokens against the group.\<close>

definition group_proof_validator where
  "group_proof_validator C K L E quorumCount vks = GenerateHasValidProof E (Cast L) (\<lambda>prf. Verify C K L prf quorumCount vks)"

definition WithValidatorsFromGroup where
  "WithValidatorsFromGroup C K L E c =
     (case cc_Group c of
        None \<Rightarrow> (Fail (Errorf ''Must set Config.Group for block validators'' []), c)
      | Some ng \<Rightarrow>
          let quorumCount = QuorumCount ng in
          ebind (elift (verKeys ng)) (\<lambda>vks.
          ebind (elift (wrapf ''error getting block validators: %v'' (BlockValidators ng))) (\<lambda>blockValidators.
          WithValidators (Some (blockValidators @ [group_proof_validator C K L E quorumCount vks])))) c)"

definition WithTransactors where
  "WithTransactors v c = (Ok (), c\<lparr>cc_Transactors := v\<rparr>)"

definition WithTransactorsFromGroup where
  "WithTransactorsFromGroup c =
     (case cc_Group c of
        None \<Rightarrow> (Fail (Errorf ''Must set Config.Group for transactors'' []), c)
      | Some ng \<Rightarrow> WithTransactors (Some (cfg_Transactions (Config_of ng))) c)"

definition WithStorage where
  "WithStorage v c = (Ok (), c\<lparr>cc_Storage := v\<rparr>)"

definition WithMemoryStorage where
  "WithMemoryStorage G = WithStorage (Some (memory_Storage G))"

definition WithNotaryGroup where
  "WithNotaryGroup v c = (Ok (), c\<lparr>cc_Group := v\<rparr>)"

definition WithOnStartHook where
  "WithOnStartHook hook c = (Ok (), c\<lparr>cc_OnStartHooks := Some ((case cc_OnStartHooks c of None \<Rightarrow> [] | Some hooks \<Rightarrow> hooks) @ [hook])\<rparr>)"

definition WithNotaryGroupToml where
  "WithNotaryGroupToml G notaryGroupToml = ebind (elift (toml_Group G notaryGroupToml)) (\<lambda>ng. WithNotaryGroup (Some ng))"

text \<open>What \<^verbatim>\<open>toml_Group\<close> stands for.\<close>

definition toml_group_of where
  "toml_group_of C K type_value transactorRegistry validatorGeneratorRegistry defaults hex_Decode toml_Decode peer toml =
     rbind (TomlToConfig C K type_value transactorRegistry validatorGeneratorRegistry defaults hex_Decode toml_Decode toml) (\<lambda>ngConfig.
     Config_NotaryGroup C peer ngConfig None)"

definition WithNamedNotaryGroup where
  "WithNamedNotaryGroup G name c =
     (case group_tomls G name of
        None \<Rightarrow> (Fail (Errorf ''Unknown NotaryGroup named %s'' []), c)
      | Some ngToml \<Rightarrow> WithNotaryGroupToml G ngToml c)"

definition WithDefaultNotaryGroup where
  "WithDefaultNotaryGroup G = WithNamedNotaryGroup G DefaultNotaryGroup"

definition must_set :: "string \<Rightarrow> goerr" where
  "must_set what = Errorf what []"

definition defaultRoundSubscriber where
  "defaultRoundSubscriber L c =
     (if cc_Logger c = None then (Fail (must_set ''Must set Config.Logger for round subscriber''), c)
      else case cc_Group c of
        None \<Rightarrow> (Fail (must_set ''Must set Config.Group for round subscriber''), c)
      | Some ng \<Rightarrow>
          if cc_Pubsub c = None then (Fail (must_set ''Must set Config.Pubsub for round subscriber''), c)
          else case cc_Store c of
            None \<Rightarrow> (Fail (must_set ''Must set Config.Store for round subscriber''), c)
          | Some store \<Rightarrow> (Ok (), c\<lparr>cc_subscriber := Some (newRoundSubscriber L ng store)\<rparr>))"

definition defaultP2P where
  "defaultP2P G c =
     (case cc_Group c of
        None \<Rightarrow> (Fail (must_set ''Must set Config.Group for default p2p''), c)
      | Some ng \<Rightarrow> (case cc_Storage c of
          None \<Rightarrow> (Fail (must_set ''Must set Config.Storage for default p2p''), c)
        | Some storage \<Rightarrow>
            ebind (elift (wrapf ''error creating p2p host: %w'' (new_Host G (ng_ID ng) storage))) (\<lambda>(p2pHost, peer).
            ebind (WithDagStore (Some peer)) (\<lambda>_.
            ebind (WithOnStartHook (bootstrap_hook G p2pHost)) (\<lambda>_.
            WithPubsub (Some (host_Pubsub G p2pHost))))) c))"

section \<open>Defaults and construction\<close>

definition default_if :: "('c \<Rightarrow> bool) \<Rightarrow> ('c, unit) eff \<Rightarrow> ('c, unit) eff" where
  "default_if cond opt c = (if cond c then ApplyOptions [opt] c else (Ok (), c))"

definition SetDefaults where
  "SetDefaults C K L E G =
     ebind (default_if (\<lambda>c. cc_Logger c = None) (WithLogger (Some (new_Logger G ''g4-client'')))) (\<lambda>_.
     ebind (default_if (\<lambda>c. cc_Storage c = None) (WithMemoryStorage G)) (\<lambda>_.
     ebind (default_if (\<lambda>c. cc_Group c = None) (WithDefaultNotaryGroup G)) (\<lambda>_.
     ebind (default_if (\<lambda>c. cc_Pubsub c = None \<and> cc_Store c = None) (defaultP2P G)) (\<lambda>_.
     ebind (default_if (\<lambda>c. cc_subscriber c = None) (defaultRoundSubscriber L)) (\<lambda>_.
     ebind (default_if (\<lambda>c. cc_Validators c = None) (WithValidatorsFromGroup C K L E)) (\<lambda>_.
     default_if (\<lambda>c. cc_Transactors c = None) WithTransactorsFromGroup))))))"

text \<open>A nil slice or map behaves as the empty one from here on.\<close>

definition client_of_config where
  "client_of_config config = \<lparr>c_Group = cc_Group config, c_logger = cc_Logger config, c_subscriber = cc_subscriber config,
     c_pubsub = cc_Pubsub config, c_store = cc_Store config,
     c_onStartHooks = (case cc_OnStartHooks config of None \<Rightarrow> [] | Some hooks \<Rightarrow> hooks),
     c_validators = (case cc_Validators config of None \<Rightarrow> [] | Some vs \<Rightarrow> vs),
     c_transactors = (case cc_Transactors config of None \<Rightarrow> Map.empty | Some ts \<Rightarrow> ts)\<rparr>"

definition NewWithConfig where
  "NewWithConfig C K L E G =
     ebind (SetDefaults C K L E G) (\<lambda>_. eread (\<lambda>config. Ok (client_of_config config)))"

text \<open>The arguments that \<^verbatim>\<open>New\<close> tells apart, by their dynamic types.\<close>

datatype ('o, 'ng, 'ps, 'st) new_arg = Arg_option 'o | Arg_group 'ng | Arg_pubsub 'ps | Arg_store 'st | Arg_other

fun new_options where
  "new_options [] = Ok []"
| "new_options (opt # opts) =
     rbind (case opt of
         Arg_option v \<Rightarrow> Ok v
       | Arg_group v \<Rightarrow> Ok (WithNotaryGroup (Some v))
       | Arg_pubsub v \<Rightarrow> Ok (WithPubsub (Some v))
       | Arg_store v \<Rightarrow> Ok (WithDagStore (Some v))
       | Arg_other \<Rightarrow> Panic ''Unsupported option to client.New, must be client.Option'') (\<lambda>o'.
     rbind (new_options opts) (\<lambda>os. Ok (o' # os)))"

definition New where
  "New C K L E G opts =
     rbind (new_options opts) (\<lambda>os.
     case ebind (ApplyOptions os) (\<lambda>_. NewWithConfig C K L E G) empty_ClientConfig of
       (Ok client, _) \<Rightarrow> Ok client
     | (Fail e, _) \<Rightarrow> Panic ''error''
     | (Panic p, _) \<Rightarrow> Panic p)"

section \<open>What a made client has\<close>

lemma default_if_Ok_iff: "default_if cond opt c = (Ok (), c') \<longleftrightarrow> (if cond c then opt c = (Ok (), c') else c' = c)"
  by (auto simp: default_if_def go_ok)

lemmas option_defs = WithLogger_def WithMemoryStorage_def WithStorage_def WithPubsub_def WithDagStore_def WithOnStartHook_def
  WithNotaryGroup_def WithValidators_def WithTransactors_def

lemma WithDefaultNotaryGroup_OkE:
  assumes "WithDefaultNotaryGroup G c = (Ok (), c')"
  obtains toml ng where "group_tomls G ''gossip4'' = Some toml" "toml_Group G toml = Ok ng" "c' = c\<lparr>cc_Group := Some ng\<rparr>"
  using assms
  by (auto simp: WithDefaultNotaryGroup_def WithNamedNotaryGroup_def DefaultNotaryGroup_def WithNotaryGroupToml_def WithNotaryGroup_def
      go_ok split: option.splits)

lemma defaultP2P_OkE:
  assumes "defaultP2P G c = (Ok (), c')"
  obtains ng storage host peer where "cc_Group c = Some ng" "cc_Storage c = Some storage" "new_Host G (ng_ID ng) storage = Ok (host, peer)"
    "c' = c\<lparr>cc_Store := Some peer,
    cc_OnStartHooks := Some ((case cc_OnStartHooks c of None \<Rightarrow> [] | Some hooks \<Rightarrow> hooks) @ [bootstrap_hook G host]),
    cc_Pubsub := Some (host_Pubsub G host)\<rparr>"
  using assms by (auto simp: defaultP2P_def option_defs go_ok intro: that split: option.splits prod.splits)

lemma defaultRoundSubscriber_OkE:
  assumes "defaultRoundSubscriber L c = (Ok (), c')"
  obtains ng store ps lg where "cc_Group c = Some ng" "cc_Store c = Some store" "cc_Pubsub c = Some ps" "cc_Logger c = Some lg"
    "c' = c\<lparr>cc_subscriber := Some (newRoundSubscriber L ng store)\<rparr>"
  using assms by (auto simp: defaultRoundSubscriber_def split: option.splits if_splits)

lemma WithValidatorsFromGroup_OkE:
  assumes "WithValidatorsFromGroup C K L E c = (Ok (), c')" "cc_Group c = Some ng"
  obtains vks bvs where "verKeys ng = Ok vks" "BlockValidators ng = Ok bvs"
    "c' = c\<lparr>cc_Validators := Some (bvs @ [group_proof_validator C K L E (QuorumCount ng) vks])\<rparr>"
  using assms by (auto simp: WithValidatorsFromGroup_def WithValidators_def Let_def go_ok)

definition hooks_of where
  "hooks_of config = (case cc_OnStartHooks config of None \<Rightarrow> [] | Some hooks \<Rightarrow> hooks)"

text \<open>
  The configuration after the defaults: complete, what was set is kept, what was not comes from the library or the group.
\<close>

lemma SetDefaults_Ok:
  assumes "SetDefaults C K L E G c0 = (Ok (), c)" "cc_subscriber c0 = None"
  shows "\<exists>ng st ps lg. cc_Group c = Some ng \<and> cc_Store c = Some st \<and> cc_Pubsub c = Some ps \<and> cc_Logger c = Some lg \<and>
    cc_subscriber c = Some (newRoundSubscriber L ng st) \<and>
    (\<forall>g. cc_Group c0 = Some g \<longrightarrow> ng = g) \<and> (\<forall>s. cc_Store c0 = Some s \<longrightarrow> st = s \<and> cc_Pubsub c0 = Some ps) \<and>
    (\<forall>p. cc_Pubsub c0 = Some p \<longrightarrow> ps = p \<and> cc_Store c0 = Some st) \<and>
    (case cc_Validators c0 of Some vs \<Rightarrow> cc_Validators c = Some vs
     | None \<Rightarrow> \<exists>vks bvs. verKeys ng = Ok vks \<and> BlockValidators ng = Ok bvs \<and>
         cc_Validators c = Some (bvs @ [group_proof_validator C K L E (QuorumCount ng) vks])) \<and>
    cc_Transactors c = (case cc_Transactors c0 of Some ts \<Rightarrow> Some ts | None \<Rightarrow> Some (cfg_Transactions (Config_of ng))) \<and>
    lg = (case cc_Logger c0 of Some l \<Rightarrow> l | None \<Rightarrow> new_Logger G ''g4-client'') \<and>
    (cc_Group c0 = None \<longrightarrow> (\<exists>toml. group_tomls G ''gossip4'' = Some toml \<and> toml_Group G toml = Ok ng)) \<and>
    (if cc_Store c0 = None \<and> cc_Pubsub c0 = None
     then \<exists>host. new_Host G (ng_ID ng) (case cc_Storage c0 of Some sg \<Rightarrow> sg | None \<Rightarrow> memory_Storage G) = Ok (host, st) \<and>
       ps = host_Pubsub G host \<and> hooks_of c = hooks_of c0 @ [bootstrap_hook G host]
     else hooks_of c = hooks_of c0)"
proof -
  obtain c1 c2 c3 c4 c5 c6 where
    s1: "default_if (\<lambda>c. cc_Logger c = None) (WithLogger (Some (new_Logger G ''g4-client''))) c0 = (Ok (), c1)"
    and s2: "default_if (\<lambda>c. cc_Storage c = None) (WithMemoryStorage G) c1 = (Ok (), c2)"
    and s3: "default_if (\<lambda>c. cc_Group c = None) (WithDefaultNotaryGroup G) c2 = (Ok (), c3)"
    and s4: "default_if (\<lambda>c. cc_Pubsub c = None \<and> cc_Store c = None) (defaultP2P G) c3 = (Ok (), c4)"
    and s5: "default_if (\<lambda>c. cc_subscriber c = None) (defaultRoundSubscriber L) c4 = (Ok (), c5)"
    and s6: "default_if (\<lambda>c. cc_Validators c = None) (WithValidatorsFromGroup C K L E) c5 = (Ok (), c6)"
    and s7: "default_if (\<lambda>c. cc_Transactors c = None) WithTransactorsFromGroup c6 = (Ok (), c)"
    using assms(1) by (auto simp: SetDefaults_def go_ok)
  let ?lg = "case cc_Logger c0 of Some l \<Rightarrow> l | None \<Rightarrow> new_Logger G ''g4-client''"
  let ?sg = "case cc_Storage c0 of Some sg \<Rightarrow> sg | None \<Rightarrow> memory_Storage G"
  have c2: "c2 = c0\<lparr>cc_Logger := Some ?lg, cc_Storage := Some ?sg\<rparr>"
    using s1 s2 by (cases c0) (auto simp: default_if_Ok_iff option_defs split: if_splits)
  obtain g where c3: "c3 = c2\<lparr>cc_Group := Some g\<rparr>" "\<forall>g'. cc_Group c0 = Some g' \<longrightarrow> g = g'"
      "cc_Group c0 = None \<longrightarrow> (\<exists>toml. group_tomls G ''gossip4'' = Some toml \<and> toml_Group G toml = Ok g)"
    using s3 c2 by (cases c2) (auto simp: default_if_Ok_iff split: if_splits elim: WithDefaultNotaryGroup_OkE)
  have c4: "cc_Group c4 = Some g \<and> cc_Validators c4 = cc_Validators c0 \<and> cc_Transactors c4 = cc_Transactors c0 \<and> cc_subscriber c4 = None \<and>
      cc_Logger c4 = Some ?lg \<and> (cc_Pubsub c0 = None \<and> cc_Store c0 = None \<or> cc_Pubsub c4 = cc_Pubsub c0 \<and> cc_Store c4 = cc_Store c0)"
    using s4 c3(1) c2 assms(2) by (auto simp: default_if_Ok_iff split: if_splits elim!: defaultP2P_OkE)
  obtain store ps where c5: "cc_Store c4 = Some store" "cc_Pubsub c4 = Some ps"
      "c5 = c4\<lparr>cc_subscriber := Some (newRoundSubscriber L g store)\<rparr>"
  proof (rule defaultRoundSubscriber_OkE)
    show "defaultRoundSubscriber L c4 = (Ok (), c5)" using s5 c4 by (simp add: default_if_Ok_iff)
  qed (use c4 in simp)
  obtain vs where c6: "c6 = c5\<lparr>cc_Validators := Some vs\<rparr>" "case cc_Validators c0 of Some vs' \<Rightarrow> vs = vs'
     | None \<Rightarrow> \<exists>vks bvs. verKeys g = Ok vks \<and> BlockValidators g = Ok bvs \<and>
         vs = bvs @ [group_proof_validator C K L E (QuorumCount g) vks]"
    using s6 c4 c5(3) by (cases c4) (auto simp: default_if_Ok_iff split: if_splits option.splits elim!: WithValidatorsFromGroup_OkE)
  have c7: "c = c6\<lparr>cc_Transactors := (case cc_Transactors c0 of Some ts \<Rightarrow> Some ts | None \<Rightarrow> Some (cfg_Transactions (Config_of g)))\<rparr>"
    using s7 c6(1) c4 c5(3) by (cases c4) (auto simp: default_if_Ok_iff WithTransactorsFromGroup_def WithTransactors_def split: if_splits)
  have hooks: "if cc_Store c0 = None \<and> cc_Pubsub c0 = None
     then \<exists>host. new_Host G (ng_ID g) ?sg = Ok (host, store) \<and> ps = host_Pubsub G host \<and> hooks_of c4 = hooks_of c0 @ [bootstrap_hook G host]
     else hooks_of c4 = hooks_of c0"
    using s4 c3(1) c2 c5(1,2) by (auto simp: default_if_Ok_iff hooks_of_def split: if_splits elim!: defaultP2P_OkE)
  have same: "hooks_of c = hooks_of c4" using c5(3) c6(1) c7 by (simp add: hooks_of_def)
  show ?thesis
  proof (intro exI conjI)
    show "cc_Group c = Some g" "cc_Store c = Some store" "cc_Pubsub c = Some ps" "cc_Logger c = Some ?lg"
      "cc_subscriber c = Some (newRoundSubscriber L g store)" using c4 c5 c6(1) c7 by simp_all
    show "if cc_Store c0 = None \<and> cc_Pubsub c0 = None
     then \<exists>host. new_Host G (ng_ID g) ?sg = Ok (host, store) \<and> ps = host_Pubsub G host \<and> hooks_of c = hooks_of c0 @ [bootstrap_hook G host]
     else hooks_of c = hooks_of c0" unfolding same by (rule hooks)
  qed (use c3(2,3) c4 c5 c6 c7 in \<open>auto split: option.splits\<close>)
qed

end
