(* ===== verification/Client_Properties.thy ===== *)
theory Client_Properties
  imports Client_Config Subscriber_Properties
begin

text \<open>
  What a client may rely on: the tips it is given, the trees it gets, the proofs it receives.
\<close>

section \<open>A concrete client\<close>

definition ref_config :: "(bytes, u64, unit ValidatorGenerator, unit) Config" where
  "ref_config = (DefaultConfig [] Map.empty)\<lparr>cfg_ID := ''ref'', cfg_TransactionTopic := ''ref-tx''\<rparr>"

text \<open>A network that keeps what is published in the world.\<close>

definition ref_client_lib :: "(unit, unit, ref_world) client_lib" where
  "ref_client_lib = \<lparr>ps_Publish = (\<lambda>_ topic bits w. (Ok (), bits # w)), ps_Subscribe = (\<lambda>_ topic. eret ()),
     abr_Marshal = (\<lambda>abr. Ok (enc_abr abr)), store_AddMany = (\<lambda>_ ns w. (Ok (), map node_RawData ns @ w)),
     sw_Decode = (\<lambda>d. Ok (node_of d)),
     store_trees = (\<lambda>_. \<lparr>sw_WrapValue = (\<lambda>_. Ok (node_of [])), NewDagWithNodes = (\<lambda>ns w. (Ok (Cid [9]), w))\<rparr>)\<rparr>"

definition ref_client :: "(bytes, u64, u64, unit, unit, unit, bytes list, ref_world, unit, unit, unit) Client" where
  "ref_client = \<lparr>c_Group = Some (ref_group_of ref_config), c_logger = Some (), c_subscriber = Some (ref_subscriber_of ref_config),
     c_pubsub = Some (), c_store = Some (), c_onStartHooks = [],
     c_validators = [group_proof_validator ref_crypto ref_kyber (ref_rounds ref_dec) ref_txns 2 (map sk_verKey ref_keys)],
     c_transactors = Map.empty\<rparr>"

definition ref_node_world :: ref_world where
  "ref_node_world = [ref_state, enc_abr ref_abr]"

interpretation ref_requests: request_store "ref_rounds dec"
  by unfold_locales (auto simp: ref_get_def dec_abr_def ref_proofs_def split: if_splits)

lemma dag_store_ref: "dag_store (ref_rounds dec) () = mem_store"
  by (auto simp: dag_store_def mem_store_def ref_get_def fun_eq_iff) (simp add: ref_rounds_def)

interpretation ref_replay: replay_lib Cid "ref_rounds dec" ref_chain ref_client_lib "()"
proof (rule replay_lib.intro)
  fix n :: node and c and w :: ref_world
  show "ds_Get (dag_store (ref_rounds dec) ()) c w = Ok (Some n) \<Longrightarrow> sw_Decode ref_client_lib (node_RawData n) = Ok n"
    by (cases n) (auto simp: ref_client_lib_def node_of_def dag_store_ref mem_Get split: if_splits)
next
  fix ns :: "node list" and w :: ref_world
  assume "list_all (addressed Cid) ns"
  moreover have "ds_Get (dag_store (ref_rounds dec) ()) (node_Cid n) (map node_RawData ns @ w) = Ok (Some n)"
    if "addressed Cid n" "n \<in> set ns" for n
    using that by (cases n) (auto simp: dag_store_ref mem_Get addressed_def image_iff intro: bexI [of _ n])
  ultimately show "\<exists>w'. store_AddMany ref_client_lib () ns w = (Ok (), w') \<and>
      (\<forall>n \<in> set ns. ds_Get (dag_store (ref_rounds dec) ()) (node_Cid n) w' = Ok (Some n))"
    by (auto simp: ref_client_lib_def list_all_iff)
qed (simp_all add: dag_store_ref mem.content_store_axioms split: if_splits)

lemma ref_follows: "follows ref_crypto ref_kyber (ref_rounds ref_dec) (ref_group_of cfg) () (ref_subscriber_of cfg)"
  unfolding ref_subscriber_of_def by (rule follows_start_loop [OF follows.start])

lemma follows_hamtStore: "follows C K L ng st rs \<Longrightarrow> rs_hamtStore rs = DagStoreToCborIpld L st"
proof (induction rule: follows.induct)
  case start
  then show ?case by (simp add: newRoundSubscriber_def)
next
  case (message rs w bits r rs')
  then show ?case
    by (auto simp: handleMessage_def handleQuorum_def on_current_def eff_defs Let_def split: res.splits prod.splits if_splits option.splits)
qed (auto simp: on_current_def split: option.splits prod.splits)

lemma ref_current:
  "\<exists>cur r. rs_current (ref_subscriber_of cfg) = Some cur \<and> rcw_value cur = ref_conf \<and> rcw_completedRound cur = Some r \<and>
     rw_round r = ref_round \<and> rw_hamtNode r = None \<and> rw_store r = Some ()"
proof -
  have conf: "rc_RoundCid ref_conf = ref_cid" "rc_Height ref_conf = 4" by (simp_all add: ref_proof_def)
  show ?thesis
    by (simp add: ref_subscriber_of_def handleMessage_def ebind_def eread_def ref_checked)
      (simp add: newRoundSubscriber_def rcs_add_def conf ref_is_quorum handleQuorum_def eff_defs Let_def
        on_current_def on_completedRound_def FetchCompletedRound_def FetchCheckpoint_def
        RoundConfirmationWrapper_SetStore_def WrapRoundConfirmation_def RoundWrapper_SetStore_def WrapRound_def
        WrapCheckpoint_def CheckpointWrapper_AddBlockRequests_def ref_get_def ref_world_def ref_round_def)
qed

lemma ref_LoadNode:
  "hamt_LoadNode (ref_rounds dec) (DagStoreToCborIpld (ref_rounds dec) ()) (Cid ref_state) ref_node_world =
     Ok [bytes_of ''did:tupelo:a'', enc_abr ref_abr]"
proof -
  have "dec_list (length ref_state) ref_state = Some ([bytes_of ''did:tupelo:a'', enc_abr ref_abr], [])"
    using dec_enc_list [OF enc_list_length, of "[bytes_of ''did:tupelo:a'', enc_abr ref_abr]" "[]"] by (simp add: ref_state_def)
  moreover have "hamt_LoadNode (ref_rounds dec) hs c w = rbind (hs_GetBlock hs c w) (\<lambda>n.
      case dec_list (length (node_RawData n)) (node_RawData n) of Some (kvs, _) \<Rightarrow> Ok kvs | None \<Rightarrow> dec_error)" for hs c w
    by (simp add: ref_rounds_def)
  moreover have "hs_GetBlock (DagStoreToCborIpld (ref_rounds dec) ()) c w = ref_get c w" for c w
    by (simp add: DagStoreToCborIpld_def Let_def GetBlock_def)
  ultimately show ?thesis by (simp add: ref_get_def ref_node_world_def)
qed

definition ref_tip :: TipProof where
  "ref_tip = \<lparr>tp_ObjectId = bytes_of ''did:tupelo:a'', tp_RoundConfirmation = ref_conf, tp_Tip = [0], tp_AddBlockRequest = ref_abr\<rparr>"

lemma ref_GetTip:
  "\<exists>rs. GetTip ref_crypto ref_kyber (ref_rounds ref_dec) [] Ctx_closed ''did:tupelo:a'' (ref_client, ref_node_world) =
     (Ok ref_tip, ref_client\<lparr>c_subscriber := Some rs\<rparr>, ref_node_world)"
proof -
  let ?L = "ref_rounds ref_dec" and ?rs = "ref_subscriber_of ref_config"
  obtain cur r where cur: "rs_current ?rs = Some cur" "rcw_value cur = ref_conf" "rcw_completedRound cur = Some r"
    "rw_round r = ref_round" "rw_hamtNode r = None" "rw_store r = Some ()" using ref_current [of ref_config] by auto
  have f1: "FetchCompletedRound ?L w cur = (Ok r, cur)" for w using cur by (simp add: FetchCompletedRound_def)
  have f2: "FetchHamt ?L ref_node_world r = (Ok [bytes_of ''did:tupelo:a'', enc_abr ref_abr],
      r\<lparr>rw_hamtNode := Some [bytes_of ''did:tupelo:a'', enc_abr ref_abr]\<rparr>)"
    using cur ref_LoadNode [of ref_dec] by (simp add: FetchHamt_def ref_round_def Let_def)
  have f3: "hamt_Find ?L [bytes_of ''did:tupelo:a'', enc_abr ref_abr] ''did:tupelo:a'' w = Ok (Cid (enc_abr ref_abr))" for w
    by (simp add: ref_rounds_def)
  have f4: "ref_get (Cid (enc_abr ref_abr)) ref_node_world = Ok \<lparr>node_Cid = Cid (enc_abr ref_abr), node_RawData = enc_abr ref_abr\<rparr>"
    by (simp add: ref_get_def ref_node_world_def)
  let ?cur = "cur\<lparr>rcw_completedRound := Some (r\<lparr>rw_hamtNode := Some [bytes_of ''did:tupelo:a'', enc_abr ref_abr]\<rparr>)\<rparr>"
  let ?rs' = "?rs\<lparr>rs_current := Some ?cur\<rparr>"
  have sub: "c_subscriber ref_client = Some ?rs" "c_store ref_client = Some ()" by (simp_all add: ref_client_def)
  have same: "?rs\<lparr>rs_current := Some cur\<rparr> = ?rs" "ref_client\<lparr>c_subscriber := Some ?rs\<rparr> = ref_client"
    using cur(1) sub(1) by (cases ?rs, simp, cases ref_client, simp)
  have g1: "WaitForFirstRound ref_crypto ref_kyber ?L [] Ctx_closed (ref_client, ref_node_world) = (Ok (), ref_client, ref_node_world)"
    by (simp add: WaitForFirstRound_def ebind_def CurrentRound_def on_subscriber_def sub Current_def cur(1) same eret_def)
  have g2: "on_current (FetchCompletedRound ?L w) ?rs = (Ok r, ?rs)" for w by (simp add: on_current_def cur(1) f1 same)
  have g3: "on_current (on_completedRound (FetchHamt ?L ref_node_world)) ?rs = (Ok [bytes_of ''did:tupelo:a'', enc_abr ref_abr], ?rs')"
    by (simp add: on_current_def on_completedRound_def cur(1,3) f2)
  have g4: "on_current (\<lambda>rc. (Ok (rcw_value rc), rc)) ?rs' = (Ok ref_conf, ?rs')" by (simp add: on_current_def cur(2))
  have tip: "abr_NewTip ref_abr = [0]" by (simp add: ref_abr_def)
  show ?thesis
    by (simp add: GetTip_def ebind_def g1 CurrentRound_def on_subscriber_def sub same Current_def cur(1,2)
        on_confirmation_def g2 g3 g4 ewrapf_def eread_def elift_def f3 f4 find_error_def deref_def
        RoundConfirmationWrapper_Value_def eret_def ref_tip_def tip) blast
qed

section \<open>Tips\<close>

text \<open>C15: a tip is what a quorum confirmed. Whatever messages the subscriber has handled, interleaved with whatever
  earlier reads, a successful \<^verbatim>\<open>GetTip\<close> returns a round confirmation that passes the verification of proofs
  against the group's keys and quorum, and, as the tip, the new tip of the request that the state of that round
  names for the object.\<close>

theorem tip_confirmed:
  assumes "bls_scheme K" "request_store L" "verKeys ng = Ok vks"
    and "follows C K L ng st rs" "c_subscriber c = Some rs"
    and "GetTip C K L during outcome did (c, w) = (Ok p, s')"
  shows "verifyRoundConfirmation C K (tp_RoundConfirmation p) (QuorumCount ng) vks = Ok True \<and>
    named_by L st (tp_RoundConfirmation p) did w (tp_AddBlockRequest p) \<and>
    tp_Tip p = abr_NewTip (tp_AddBlockRequest p) \<and> tp_ObjectId p = bytes_of did"
  using assms(6,5,4)
proof (rule GetTip_OkE)
  fix rs' cur r hn store tx n
  note f = follower [OF assms(1) request_store.axioms(1) [OF assms(2)]]
  assume rs': "follows C K L ng st rs'" "rs_current rs' = Some cur" "rcw_completedRound cur = Some r" "rw_hamtNode r = Some hn"
    and tx: "hamt_Find L hn did w = Ok tx" "store_Get L store tx w = Ok n"
      "decode_AddBlockRequest L (node_RawData n) = Ok (tp_AddBlockRequest p)"
    and p: "p = \<lparr>tp_ObjectId = bytes_of did, tp_RoundConfirmation = rcw_value cur, tp_Tip = abr_NewTip (tp_AddBlockRequest p),
       tp_AddBlockRequest = tp_AddBlockRequest p\<rparr>"
  have p': "tp_RoundConfirmation p = rcw_value cur" "tp_Tip p = abr_NewTip (tp_AddBlockRequest p)" "tp_ObjectId p = bytes_of did"
    by (subst p, simp)+
  have "hamt_from L st (rw_round r) hn" using follows_caches [OF rs'(1)] rs'(2-4) by (simp add: caches_ok_def cache_ok_def)
  moreover have "links_round L (rcw_value cur) (rw_round r)"
    by (rule round_follower.follows_linked [OF f rs'(1) assms(3) rs'(2,3)])
  moreover have "hamt_Put L (tp_AddBlockRequest p) = Ok tx" by (rule request_store.stored_request [OF assms(2) tx(2,3)])
  ultimately have "named_by L st (rcw_value cur) did w (tp_AddBlockRequest p)" using tx(1) unfolding named_by_def by blast
  then show ?thesis using round_follower.follows_confirmed [OF f rs'(1) assms(3) rs'(2)] p' by simp
qed

theorem tip_confirmed_witness:
  "\<exists>p s'. GetTip ref_crypto ref_kyber (ref_rounds ref_dec) [] Ctx_closed ''did:tupelo:a'' (ref_client, ref_node_world) = (Ok p, s') \<and>
     verifyRoundConfirmation ref_crypto ref_kyber (tp_RoundConfirmation p) 2 (map sk_verKey ref_keys) = Ok True \<and>
     named_by (ref_rounds ref_dec) () (tp_RoundConfirmation p) ''did:tupelo:a'' ref_node_world ref_abr"
proof -
  obtain s' where tip: "GetTip ref_crypto ref_kyber (ref_rounds ref_dec) [] Ctx_closed ''did:tupelo:a'' (ref_client, ref_node_world) =
     (Ok ref_tip, s')" using ref_GetTip by blast
  have "c_subscriber ref_client = Some (ref_subscriber_of ref_config)" by (simp add: ref_client_def)
  from tip_confirmed [OF ref_bls.bls_scheme_axioms ref_requests.request_store_axioms ref_group_keys ref_follows this tip] tip
  show ?thesis by (auto simp: ref_quorum ref_tip_def)
qed

section \<open>Latest trees\<close>

text \<open>
  The validator that a default client has beside those of its group: it accepts a block that receives nothing, or whose proofs all verify.
\<close>

lemma proof_validator_accepts:
  assumes "getReceiveTokenPayloads E (blk_Transactions (bwh_Block b)) = Ok ps"
    and "ps = [] \<or> proofs_loop (Cast L) (\<lambda>prf. Verify C K L prf quorumCount vks) ps = Ok True"
  shows "group_proof_validator C K L E quorumCount vks t b = Ok True"
  using assms by (auto simp: group_proof_validator_def GenerateHasValidProof_def)

text \<open>C16: what one client plays, another gets. Let a client make a request at a height above zero, and let the
  processing of its block have found every node it asked for in the tree's store. Let the tip that another client is given name that request, and let
  that client have a logger, the tree's transactors, and the tree's validators, followed by any others that accept the block whatever the tree
  (as does the validator of proofs that a default client adds to those of its group, for a block whose received proofs verify). Then \<^verbatim>\<open>GetLatest\<close>
  succeeds, whatever else is in its store: it returns the tree at the request's new tip, with the proof of the tip.\<close>

theorem latest_is_played:
  assumes "replay_lib hash L H Q st" "\<forall>l. set (visit l) = set l"
    and "NewAddBlockRequest (dag_store L st) H T mem C' B visit gv key txns (tree, w1) = (Ok abr, tree', w1')" "0 < abr_Height abr"
    and "signed_block (dag_store L st) H T mem C' B tree key txns w1 = (Ok b, w0)"
    and "clean_run hash (dag_store L st) (play_block H (Tip tree) (ct_BlockValidators (sct_ChainTree tree')) (ct_Transactors (sct_ChainTree tree')) b)
      (wrapStoreForRefCounting w0)"
    and "GetTip C K L during outcome did s = (Ok p, c, w)" "tp_AddBlockRequest p = abr"
    and "c_store c = Some st" "c_logger (fst s) \<noteq> None" "c_transactors c = ct_Transactors (sct_ChainTree tree')"
    and "c_validators c = ct_BlockValidators (sct_ChainTree tree') @ extra" "\<forall>v \<in> set extra. \<forall>t. v t b = Ok True"
  shows "\<exists>sct w'. GetLatest C K L H Q during outcome did s = (Ok sct, c, w') \<and> cid_Bytes (Tip sct) = abr_NewTip abr \<and>
    sct_Proof sct = Some (At_tip p)"
proof -
  have store: "content_store hash (dag_store L st)" by (rule replay_lib.store [OF assms(1)])
  let ?play = "play_block H (Tip tree) (c_validators c) (c_transactors c) b"
  have same: "play_block H (Tip tree) (ct_BlockValidators (sct_ChainTree tree')) (ct_Transactors (sct_ChainTree tree')) b = ?play"
    using replay_lib.play_block_extra [OF assms(1,13)] assms(11,12) by simp
  from request_played [OF store assms(2,3,4)] assms(5,6) same obtain n tip where
    n: "sw_WrapBlockWithHeaders H b = Ok n" "abr_Payload abr = node_RawData n"
    and tips: "abr_PreviousTip abr = cid_Bytes (Tip tree)" "abr_NewTip abr = cid_Bytes tip"
    and play: "\<And>w. \<forall>d \<in> set (abr_State abr). \<exists>n. node_RawData n = d \<and> ds_Get (dag_store L st) (node_Cid n) w = Ok (Some n) \<Longrightarrow>
      \<exists>w'. run_store (dag_store L st) ?play w = (Ok (True, tip), w')"
    by (auto simp: Let_def)
  obtain sw height where "block_state (dag_store L st) visit height sw = Ok (abr_State abr)"
    using assms(3) by (rule NewAddBlockRequest_OkE)
  then have "\<forall>d \<in> set (abr_State abr). stored_data (dag_store L st) d" using block_state_stored by blast
  from replay_lib.replay_request_ok [OF assms(1,4) tips n this play] obtain w' where
    "replay_request L H Q (Some st) (c_validators c) (c_transactors c) abr w =
      (Ok \<lparr>ct_Tip = tip, ct_BlockValidators = c_validators c, ct_Transactors = c_transactors c\<rparr>, w')" by blast
  then show ?thesis
    using assms(7-10) tips(2)
    by (auto simp: GetLatest_def ebind_def eread_def deref_def on_world_def eret_def Tip_def case_prod_beta)
qed

theorem latest_is_played_witness:
  "\<exists>sct c w'. GetLatest ref_crypto ref_kyber (ref_rounds ref_dec) ref_chain ref_client_lib [] Ctx_closed ''did:tupelo:a''
       (ref_client, ref_node_world) = (Ok sct, c, w') \<and> cid_Bytes (Tip sct) = [0] \<and> sct_Proof sct = Some (At_tip ref_tip)"
proof -
  obtain rs where tip: "GetTip ref_crypto ref_kyber (ref_rounds ref_dec) [] Ctx_closed ''did:tupelo:a'' (ref_client, ref_node_world) =
     (Ok ref_tip, ref_client\<lparr>c_subscriber := Some rs\<rparr>, ref_node_world)" using ref_GetTip by blast
  note req = ref_request [of "[] :: unit validator list" "Map.empty :: Transaction_Type \<rightharpoonup> unit"]
  have abr: "0 < abr_Height ref_abr" "abr_NewTip ref_abr = [0]" "tp_AddBlockRequest ref_tip = ref_abr"
    by (simp_all add: ref_abr_def ref_tip_def)
  let ?v = "group_proof_validator ref_crypto ref_kyber (ref_rounds ref_dec) ref_txns 2 (map sk_verKey ref_keys) :: unit validator"
  have c: "c_store ref_client = Some ()" "c_logger ref_client \<noteq> None" "c_validators ref_client = [] @ [?v]" "c_transactors ref_client = Map.empty"
    by (simp_all add: ref_client_def)
  have v: "\<forall>v \<in> set [?v]. \<forall>t. v t ref_signed_block = Ok True"
    by (auto intro!: proof_validator_accepts [where ps = "[]"] simp: ref_signed_block_def getReceiveTokenPayloads_def)
  from latest_is_played [OF ref_replay.replay_lib_axioms _ _ abr(1) _ _ tip abr(3), unfolded dag_store_ref, OF _ req ref_signed_block_eq]
  show ?thesis using ref_clean [of "[] :: unit validator list" "Map.empty :: Transaction_Type \<rightharpoonup> unit"] abr(2) c v by simp blast
qed

section \<open>Sending\<close>

lemma NewAddBlockRequest_keeps:
  assumes "NewAddBlockRequest S H T mem C B visit gv key txns (tree, st) = (r, tree', st')"
  shows "Tip tree' = Tip tree \<and> sct_Proof tree' = sct_Proof tree"
proof -
  have "Tip t = Tip tree \<and> sct_Proof t = sct_Proof tree" if "with_validators gv tree = Ok t" for t
    using that by (auto simp: with_validators_def Tip_def rbind_Ok_iff split: if_splits)
  then show ?thesis
    using assms by (auto simp: NewAddBlockRequest_def split: prod.splits res.splits)
qed

lemma fold_notify_tip:
  "\<forall>p \<in> set (as_ch s). prf_Tip p = abr_NewTip (as_abr s) \<Longrightarrow>
   \<forall>p \<in> set (as_ch (fold (\<lambda>(ctxDone, vn). notify ctxDone vn) evs s)). prf_Tip p = abr_NewTip (as_abr s)"
proof (induction evs arbitrary: s)
  case (Cons ev evs)
  obtain d vn where ev: "ev = (d, vn)" by fastforce
  have "\<forall>p \<in> set (as_ch (notify d vn s)). prf_Tip p = abr_NewTip (as_abr (notify d vn s))" "as_abr (notify d vn s) = as_abr s"
    using Cons.prems by (auto simp: notify_def Let_def)
  with Cons.IH [of "notify d vn s"] ev show ?case by simp
qed simp

lemma Send_OkE:
  assumes "Send L Q evs timer abr (c, w) = (Ok p, s')" "c_subscriber c = Some rs"
  obtains sub w1 w' where "subscribe L rs abr w = (Ok sub, w1)" "s' = (c, w')"
    "p \<in> set (as_ch (fold (\<lambda>(ctxDone, noti). notify ctxDone noti) evs sub))"
proof -
  obtain sub w1 w' where "subscribe L rs abr w = (Ok sub, w1)" "s' = (c, w')"
    "send_select timer (as_ch (fold (\<lambda>(ctxDone, noti). notify ctxDone noti) evs sub)) = Ok p"
    using assms by (auto simp: Send_def SubscribeToAbr_def SendWithoutWait_def go_ok deref_def)
  then show thesis using that by (auto simp: send_select_def split: if_splits list.splits)
qed

lemma follows_delivers:
  assumes "bls_scheme K" "round_store L" "verKeys ng = Ok vks" "follows C K L ng st rs"
    and "subscribe L rs0 abr w = (Ok sub, w1)" "is_ok (Cast L (abr_NewTip abr))" "snd ` set evs \<subseteq> set (rs_stream rs)"
    and "p \<in> set (as_ch (fold (\<lambda>(ctxDone, noti). notify ctxDone noti) evs sub))"
  shows "prf_AddBlockRequest p = abr \<and> Verify C K L p (QuorumCount ng) vks = Ok True"
proof -
  note f = follower [OF assms(1,2)]
  have "round_follower.rs_inv K L C vks rs" "rs_group rs = ng" using round_follower.follows_inv [OF f assms(4,3)] by auto
  then have ev: "\<forall>(d, vn) \<in> set evs. round_follower.noti_ok K L C ng vks vn"
    using assms(7) by (fastforce simp: round_follower.rs_inv_def [OF f])
  have s: "as_abr sub = abr" "hamt_Put L abr = Ok (as_abrCid sub)" "\<not> as_isDone sub" "as_ch sub = []"
    using assms(5) round_store.put_cid [OF assms(2)] by (auto simp: subscribe_def go_ok)
  then have "round_follower.sub_ok K L C ng vks sub" using assms(6) by (simp add: round_follower.sub_ok_def [OF f])
  from round_follower.sub_ok_fold [OF f ev this] s(1) assms(8) show ?thesis
    by (auto simp: round_follower.sub_ok_def [OF f])
qed

lemma PlayTransactions_Ok:
  assumes "bls_scheme K" "round_store L" "verKeys ng = Ok vks"
    and "c_subscriber c = Some rs0" "follows C K L ng st rs" "snd ` set evs \<subseteq> set (rs_stream rs)"
    and "PlayTransactions S L H T mem C B Q visit evs timer key txns (tree, c, w) = (Ok p, tree2, c', w')"
  shows "Verify C K L p (QuorumCount ng) vks = Ok True \<and> sct_Proof tree2 = Some (Complete p) \<and>
    cid_Bytes (Tip tree2) = abr_NewTip (prf_AddBlockRequest p) \<and> abr_PreviousTip (prf_AddBlockRequest p) = cid_Bytes (Tip tree) \<and>
    (\<exists>b w0 n. signed_block S H T mem C B tree key txns w = (Ok b, w0) \<and> blk_Transactions (bwh_Block b) = txns \<and>
       sw_WrapBlockWithHeaders H b = Ok n \<and> abr_Payload (prf_AddBlockRequest p) = node_RawData n)"
proof -
  from assms(7) obtain abr tree1 w1 c1 w2 tip where
    req: "NewAddBlockRequest S H T mem C B visit (rbind (deref (c_Group c)) BlockValidators) key txns (tree, w) = (Ok abr, tree1, w1)"
    and send: "Send L Q evs timer abr (c, w1) = (Ok p, c1, w2)" and tip: "Cast L (prf_Tip p) = Ok tip"
    and tree2: "Tip tree2 = tip" "sct_Proof tree2 = Some (Complete p)"
    by (auto simp: PlayTransactions_def ewrapf_def Let_def Tip_def split: prod.splits res.splits)
  obtain sub w3 where sub: "subscribe L rs0 abr w1 = (Ok sub, w3)"
    and p: "p \<in> set (as_ch (fold (\<lambda>(ctxDone, noti). notify ctxDone noti) evs sub))" by (rule Send_OkE [OF send assms(4)])
  have "as_abr sub = abr" "as_ch sub = []" using sub by (auto simp: subscribe_def go_ok)
  with fold_notify_tip [of sub evs] p have pt: "prf_Tip p = abr_NewTip abr" by simp
  have v: "prf_AddBlockRequest p = abr" "Verify C K L p (QuorumCount ng) vks = Ok True"
    using follows_delivers [OF assms(1,2,3,5) sub _ assms(6) p] tip pt by simp_all
  obtain b w0 n where b: "signed_block S H T mem C B tree key txns w = (Ok b, w0)" "sw_WrapBlockWithHeaders H b = Ok n"
    "abr_Payload abr = node_RawData n" and prev: "abr_PreviousTip abr = cid_Bytes (Tip tree1)" by (rule NewAddBlockRequest_OkE [OF req])
  show ?thesis
    using v tree2 pt round_store.cast_exact [OF assms(2) tip] b prev NewAddBlockRequest_keeps [OF req] signed_block_transactions [OF b(1)]
    by auto
qed

text \<open>C18: playing transactions. If \<^verbatim>\<open>PlayTransactions\<close> succeeds, the tree now stands at the new tip of a request
  that was made on its previous tip and contains exactly these transactions in a signed block, and the proof it returns, and
  keeps in the tree, is for that request and is accepted by \<^verbatim>\<open>proof.Verify\<close> with the group's quorum and keys. In every other
  case, the tree keeps its tip and its proof.\<close>

theorem play_confirmed:
  assumes "bls_scheme K" "round_store L" "verKeys ng = Ok vks"
    and "c_subscriber c = Some rs0" "follows C K L ng st rs" "snd ` set evs \<subseteq> set (rs_stream rs)"
    and "PlayTransactions S L H T mem C B Q visit evs timer key txns (tree, c, w) = (r, tree2, c', w')"
  shows "(\<forall>p. r = Ok p \<longrightarrow> Verify C K L p (QuorumCount ng) vks = Ok True \<and> sct_Proof tree2 = Some (Complete p) \<and>
      cid_Bytes (Tip tree2) = abr_NewTip (prf_AddBlockRequest p) \<and> abr_PreviousTip (prf_AddBlockRequest p) = cid_Bytes (Tip tree) \<and>
      (\<exists>b w0 n. signed_block S H T mem C B tree key txns w = (Ok b, w0) \<and> blk_Transactions (bwh_Block b) = txns \<and>
         sw_WrapBlockWithHeaders H b = Ok n \<and> abr_Payload (prf_AddBlockRequest p) = node_RawData n)) \<and>
    (is_ok r \<or> Tip tree2 = Tip tree \<and> sct_Proof tree2 = sct_Proof tree)"
proof (cases r)
  case (Ok p)
  with assms(7) have "PlayTransactions S L H T mem C B Q visit evs timer key txns (tree, c, w) = (Ok p, tree2, c', w')" by simp
  from PlayTransactions_Ok [OF assms(1-6) this] Ok show ?thesis by simp
next
  case (Fail e)
  then show ?thesis
    using assms(7) by (auto simp: PlayTransactions_def Let_def split: prod.splits res.splits dest!: NewAddBlockRequest_keeps)
next
  case (Panic e)
  then show ?thesis
    using assms(7) by (auto simp: PlayTransactions_def Let_def split: prod.splits res.splits dest!: NewAddBlockRequest_keeps)
qed

lemma ref_BlockValidators: "BlockValidators (ref_group_of ref_config) = Ok []"
  by (simp add: BlockValidators_def blockValidators_def Config_of_def ref_group_of_def group_of_def ref_config_def DefaultConfig_def)
    (simp add: AddSigner_def NewNotaryGroupFromConfig_def ref_member_def)

lemma ref_network:
  "abr_Marshal ref_client_lib abr = Ok (enc_abr abr)" "ps_Publish ref_client_lib ps topic bits w = (Ok (), bits # w)"
  by (simp_all add: ref_client_lib_def)

lemma ref_Send:
  defines "evs \<equiv> map (Pair False) (rs_stream (ref_subscriber_of ref_config))"
  shows "\<exists>p w'. Send (ref_rounds ref_dec) ref_client_lib evs False ref_abr (ref_client, w) = (Ok p, ref_client, w') \<and> prf_Tip p = [0]"
proof -
  let ?L = "ref_rounds ref_dec" and ?rs = "ref_subscriber_of ref_config"
  let ?s = "\<lparr>as_abr = ref_abr, as_abrCid = Cid (enc_abr ref_abr), as_isDone = False, as_ch = []\<rparr>"
  have hs: "rs_hamtStore ?rs = DagStoreToCborIpld ?L ()"
    using follows_hamtStore [OF ref_follows] .
  have s: "subscribe ?L ?rs ref_abr w = (Ok ?s, enc_abr ref_abr # w)"
    by (simp add: subscribe_def hs) (simp add: DagStoreToCborIpld_def AddBlock_def NewStore_def ref_rounds_def eff_defs Let_def)
  obtain p where p: "as_ch (fold (\<lambda>(ctxDone, noti). notify ctxDone noti) evs ?s) = [p]" "prf_Tip p = [0]"
    using ref_handled [of ref_config] by (auto simp: evs_def notify_def vn_includes_def Let_def ref_abr_def)
  have c: "c_subscriber ref_client = Some ?rs" "c_Group ref_client = Some (ref_group_of ref_config)" "c_pubsub ref_client = Some ()"
    by (simp_all add: ref_client_def)
  show ?thesis
    using p by (simp add: Send_def SubscribeToAbr_def SendWithoutWait_def eff_defs on_world_def c deref_def s send_select_def ref_network)
qed

lemma ref_play:
  "\<exists>p tree2 w'. PlayTransactions mem_store (ref_rounds ref_dec) ref_chain ref_trees () ref_crypto ref_blocks ref_client_lib id
     (map (Pair False) (rs_stream (ref_subscriber_of ref_config))) False [7] [] (ref_signed_tree (Map.empty :: Transaction_Type \<rightharpoonup> unit), ref_client, [[5]]) =
     (Ok p, tree2, ref_client, w')"
proof -
  let ?L = "ref_rounds ref_dec" and ?evs = "map (Pair False) (rs_stream (ref_subscriber_of ref_config))"
  have c: "c_Group ref_client = Some (ref_group_of ref_config)" by (simp add: ref_client_def)
  obtain p w' where "Send ?L ref_client_lib ?evs False ref_abr (ref_client, [[0], [5]]) = (Ok p, ref_client, w')" "prf_Tip p = [0]"
    using ref_Send [of "[[0], [5]]"] by blast
  then show ?thesis
    by (simp add: PlayTransactions_def c deref_def ref_BlockValidators ref_request ewrapf_def Let_def run_store_def)
qed

lemma ref_client_subscriber: "c_subscriber ref_client = Some (ref_subscriber_of ref_config)"
  by (simp add: ref_client_def)

theorem play_confirmed_witness:
  "\<exists>p tree2 c' w'. PlayTransactions mem_store (ref_rounds ref_dec) ref_chain ref_trees () ref_crypto ref_blocks ref_client_lib id
       (map (Pair False) (rs_stream (ref_subscriber_of ref_config))) False [7] [] (ref_signed_tree (Map.empty :: Transaction_Type \<rightharpoonup> unit), ref_client, [[5]]) =
       (Ok p, tree2, c', w') \<and>
     Verify ref_crypto ref_kyber (ref_rounds ref_dec) p 2 (map sk_verKey ref_keys) = Ok True \<and> sct_Proof tree2 = Some (Complete p)"
proof -
  have "snd ` set (map (Pair False) (rs_stream (ref_subscriber_of ref_config))) \<subseteq> set (rs_stream (ref_subscriber_of ref_config))" by auto
  from ref_play
    play_confirmed [OF ref_bls.bls_scheme_axioms ref_rounds.round_store_axioms ref_group_keys ref_client_subscriber ref_follows this]
  show ?thesis by (fastforce simp: ref_quorum)
qed

section \<open>Construction\<close>

text \<open>C36: a client is complete. A client that \<^verbatim>\<open>NewWithConfig\<close> makes of a configuration (without a subscriber, which only the package itself can set) has a group, a store, a pubsub and a logger, and a fresh
  subscriber to that group over that store. The group, the logger, the store, the pubsub, the validators and the transactors are the ones given, where they were, and the start hooks given
  are run first. Otherwise: the logger is the one named \<^verbatim>\<open>g4-client\<close>, the group that of the TOML text named \<^verbatim>\<open>gossip4\<close>; store and pubsub are those of a new host for the group's id on the storage given, or in memory, and
  a hook to bootstrap that host is added (one of store and pubsub without the other is an error); the validators are the group's own and that of the proofs of
  received tokens, against the keys and the quorum of that group; the transactors are the group's.\<close>

theorem client_complete:
  assumes "NewWithConfig C K L E G c0 = (Ok c, c1)" "cc_subscriber c0 = None"
  shows "\<exists>ng st ps lg. c_Group c = Some ng \<and> c_store c = Some st \<and> c_pubsub c = Some ps \<and> c_logger c = Some lg \<and>
    c_subscriber c = Some (newRoundSubscriber L ng st) \<and>
    (\<forall>g. cc_Group c0 = Some g \<longrightarrow> ng = g) \<and> (\<forall>s. cc_Store c0 = Some s \<longrightarrow> st = s \<and> cc_Pubsub c0 = Some ps) \<and>
    (\<forall>p. cc_Pubsub c0 = Some p \<longrightarrow> ps = p \<and> cc_Store c0 = Some st) \<and>
    (case cc_Validators c0 of Some vs \<Rightarrow> c_validators c = vs
     | None \<Rightarrow> \<exists>vks bvs. verKeys ng = Ok vks \<and> BlockValidators ng = Ok bvs \<and>
         c_validators c = bvs @ [GenerateHasValidProof E (Cast L) (\<lambda>prf. Verify C K L prf (QuorumCount ng) vks)]) \<and>
    c_transactors c = (case cc_Transactors c0 of Some ts \<Rightarrow> ts | None \<Rightarrow> cfg_Transactions (Config_of ng)) \<and>
    lg = (case cc_Logger c0 of Some l \<Rightarrow> l | None \<Rightarrow> new_Logger G ''g4-client'') \<and>
    (cc_Group c0 = None \<longrightarrow> (\<exists>toml. group_tomls G ''gossip4'' = Some toml \<and> toml_Group G toml = Ok ng)) \<and>
    (if cc_Store c0 = None \<and> cc_Pubsub c0 = None
     then \<exists>host. new_Host G (ng_ID ng) (case cc_Storage c0 of Some sg \<Rightarrow> sg | None \<Rightarrow> memory_Storage G) = Ok (host, st) \<and>
       ps = host_Pubsub G host \<and>
       c_onStartHooks c = (case cc_OnStartHooks c0 of None \<Rightarrow> [] | Some hooks \<Rightarrow> hooks) @ [bootstrap_hook G host]
     else c_onStartHooks c = (case cc_OnStartHooks c0 of None \<Rightarrow> [] | Some hooks \<Rightarrow> hooks))"
proof -
  have defaults: "SetDefaults C K L E G c0 = (Ok (), c1)" and c: "c = client_of_config c1"
    using assms(1) by (auto simp: NewWithConfig_def go_ok)
  obtain ng st ps lg where set: "cc_Group c1 = Some ng" "cc_Store c1 = Some st" "cc_Pubsub c1 = Some ps" "cc_Logger c1 = Some lg"
      "cc_subscriber c1 = Some (newRoundSubscriber L ng st)"
    and kept: "\<forall>g. cc_Group c0 = Some g \<longrightarrow> ng = g" "\<forall>s. cc_Store c0 = Some s \<longrightarrow> st = s \<and> cc_Pubsub c0 = Some ps"
      "\<forall>p. cc_Pubsub c0 = Some p \<longrightarrow> ps = p \<and> cc_Store c0 = Some st"
    and vs: "case cc_Validators c0 of Some vs \<Rightarrow> cc_Validators c1 = Some vs
     | None \<Rightarrow> \<exists>vks bvs. verKeys ng = Ok vks \<and> BlockValidators ng = Ok bvs \<and>
         cc_Validators c1 = Some (bvs @ [group_proof_validator C K L E (QuorumCount ng) vks])"
    and ts: "cc_Transactors c1 = (case cc_Transactors c0 of Some ts \<Rightarrow> Some ts | None \<Rightarrow> Some (cfg_Transactions (Config_of ng)))"
    and lg: "lg = (case cc_Logger c0 of Some l \<Rightarrow> l | None \<Rightarrow> new_Logger G ''g4-client'')"
    and toml: "cc_Group c0 = None \<longrightarrow> (\<exists>toml. group_tomls G ''gossip4'' = Some toml \<and> toml_Group G toml = Ok ng)"
    and hooks: "if cc_Store c0 = None \<and> cc_Pubsub c0 = None
     then \<exists>host. new_Host G (ng_ID ng) (case cc_Storage c0 of Some sg \<Rightarrow> sg | None \<Rightarrow> memory_Storage G) = Ok (host, st) \<and>
       ps = host_Pubsub G host \<and> hooks_of c1 = hooks_of c0 @ [bootstrap_hook G host]
     else hooks_of c1 = hooks_of c0"
    using SetDefaults_Ok [OF defaults assms(2)] by (elim exE conjE)
  show ?thesis
  proof (intro exI conjI)
    show "c_Group c = Some ng" "c_store c = Some st" "c_pubsub c = Some ps" "c_logger c = Some lg"
      "c_subscriber c = Some (newRoundSubscriber L ng st)" using set by (simp_all add: c client_of_config_def)
    show "c_transactors c = (case cc_Transactors c0 of Some ts \<Rightarrow> ts | None \<Rightarrow> cfg_Transactions (Config_of ng))"
      using ts by (simp add: c client_of_config_def split: option.splits)
    show "case cc_Validators c0 of Some vs \<Rightarrow> c_validators c = vs
     | None \<Rightarrow> \<exists>vks bvs. verKeys ng = Ok vks \<and> BlockValidators ng = Ok bvs \<and>
         c_validators c = bvs @ [GenerateHasValidProof E (Cast L) (\<lambda>prf. Verify C K L prf (QuorumCount ng) vks)]"
      using vs by (cases "cc_Validators c0") (auto simp: c client_of_config_def group_proof_validator_def)
    have same: "c_onStartHooks c = hooks_of c1" by (simp add: c client_of_config_def hooks_of_def)
    show "if cc_Store c0 = None \<and> cc_Pubsub c0 = None
     then \<exists>host. new_Host G (ng_ID ng) (case cc_Storage c0 of Some sg \<Rightarrow> sg | None \<Rightarrow> memory_Storage G) = Ok (host, st) \<and>
       ps = host_Pubsub G host \<and>
       c_onStartHooks c = (case cc_OnStartHooks c0 of None \<Rightarrow> [] | Some hooks \<Rightarrow> hooks) @ [bootstrap_hook G host]
     else c_onStartHooks c = (case cc_OnStartHooks c0 of None \<Rightarrow> [] | Some hooks \<Rightarrow> hooks)"
      unfolding same hooks_of_def [symmetric] by (rule hooks)
  qed (use kept lg toml in blast)+
qed

definition ref_config_lib :: "(bytes, u64, u64, unit, unit, unit, unit, unit, unit, unit, unit) config_lib" where
  "ref_config_lib = \<lparr>new_Logger = (\<lambda>_. ()), memory_Storage = (), toml_Group = (\<lambda>_. Fail (LibErr ''toml'')),
     new_Host = (\<lambda>_ _. Fail (LibErr ''host'')), host_Pubsub = (\<lambda>_. ()), bootstrap_hook = (\<lambda>_. ()), group_tomls = Map.empty\<rparr>"

theorem client_complete_witness:
  "\<exists>c c1. NewWithConfig ref_crypto ref_kyber (ref_rounds ref_dec) ref_txns ref_config_lib
       (empty_ClientConfig\<lparr>cc_Group := Some (ref_group_of ref_config), cc_Pubsub := Some (), cc_Store := Some ()\<rparr>) = (Ok c, c1) \<and>
     c_subscriber c = Some (newRoundSubscriber (ref_rounds ref_dec) (ref_group_of ref_config) ()) \<and> length (c_validators c) = 1"
proof -
  let ?c0 = "empty_ClientConfig\<lparr>cc_Group := Some (ref_group_of ref_config), cc_Pubsub := Some (), cc_Store := Some ()\<rparr>"
  obtain c c1 where run: "NewWithConfig ref_crypto ref_kyber (ref_rounds ref_dec) ref_txns ref_config_lib ?c0 = (Ok c, c1)"
    by (simp add: NewWithConfig_def SetDefaults_def default_if_def eff_defs option_defs empty_ClientConfig_def defaultRoundSubscriber_def
        WithValidatorsFromGroup_def WithTransactorsFromGroup_def ref_group_keys ref_BlockValidators)
  from client_complete [OF run] run show ?thesis by (auto simp: ref_BlockValidators empty_ClientConfig_def)
qed

end
