(* ===== verification/Genesis.thy ===== *)
theory Genesis
  imports Client_Properties
begin

text \<open>
  The first block of an object: \<^verbatim>\<open>NewAddBlockRequest\<close> sends no nodes of the old tree along, since \<^verbatim>\<open>GetLatest\<close> makes the empty tree of
  the object anew (\<^verbatim>\<open>consensus.NewEmptyTree\<close>) and plays the block on that.
\<close>

section \<open>What another client does with a first block\<close>

lemma char_of_byte: "char_of (unat (of_char c :: byte)) = c"
proof -
  have "(of_char c :: byte) = of_nat (of_char c)" by (simp only: of_nat_of_char)
  then have "unat (of_char c :: byte) = of_char c mod 256" by (simp add: unat_of_nat del: of_nat_of_char)
  then show ?thesis by simp
qed

lemma string_of_bytes_of [simp]: "string_of_bytes (bytes_of s) = s"
  by (simp add: string_of_bytes_def bytes_of_def o_def char_of_byte)

lemma first_block_plays:
  assumes "genesis_lib hash L H Q st T" "fst (NewEmptyTree T did m) = Ok tip0"
    and "clean_run hash (dag_store L st) play (wrapStoreForRefCounting w0)"
    and "run_tracked (dag_store L st) play (wrapStoreForRefCounting w0) = (r, sw)"
    and "set (swr_touched sw) \<subseteq> node_Cid ` set (empty_nodes T did)"
  shows "\<exists>w1 w2. NewEmptyTree (store_trees Q st) did w = (Ok tip0, w1) \<and> run_store (dag_store L st) play w1 = (r, w2)"
proof -
  have store: "content_store hash (dag_store L st)" by (rule replay_lib.store [OF genesis_lib.axioms(1) [OF assms(1)]])
  obtain w1 where w1: "NewEmptyTree (store_trees Q st) did w = (Ok tip0, w1)"
    "\<forall>n \<in> set (empty_nodes T did). ds_Get (dag_store L st) (node_Cid n) w1 = Ok (Some n)"
    using genesis_lib.empty_tree_again [OF assms(1,2)] by blast
  have "content_store.has (dag_store L st) w1 c"
    if "c \<in> set (swr_touched sw) \<union> set (swr_added (wrapStoreForRefCounting w0))" for c
    using that assms(5) w1(2) by (auto simp: content_store.has_def [OF store] wrapStoreForRefCounting_def)
  from content_store.replay [OF store assms(3,4) this] w1(1) show ?thesis by blast
qed

text \<open>C17: the first block of an object reaches other clients. Let a client make a request, of height zero, on the empty tree of an object, and let the processing of its block have found every node it asked for and have read, of what was there
  before, only the nodes of that empty tree. Let the tip that another client is given name that request, and let that client have a logger, the tree's transactors, and the tree's validators (those of the group, where the tree had none),
  followed by any others that accept the block whatever the tree (as does the validator of proofs of a default client, for a block whose received proofs verify). Then
  \<^verbatim>\<open>GetLatest\<close> succeeds although the request carries none of the nodes that were read, whatever is in its store: it returns the tree at the request's new tip, with the proof of the tip.\<close>

theorem first_block_is_played:
  assumes "genesis_lib hash L H Q st T"
    and "NewAddBlockRequest (dag_store L st) H T mem C' B visit gv key txns (tree, w1) = (Ok abr, tree', w1')"
    and "abr_Height abr = 0" "abr_ObjectId abr = bytes_of obj" "fst (NewEmptyTree T obj mem) = Ok (Tip tree)"
    and "signed_block (dag_store L st) H T mem C' B tree key txns w1 = (Ok b, w0)"
    and "clean_run hash (dag_store L st) (play_block H (Tip tree) (ct_BlockValidators (sct_ChainTree tree')) (ct_Transactors (sct_ChainTree tree')) b)
      (wrapStoreForRefCounting w0)"
    and "set (swr_touched (snd (run_tracked (dag_store L st)
        (play_block H (Tip tree) (ct_BlockValidators (sct_ChainTree tree')) (ct_Transactors (sct_ChainTree tree')) b) (wrapStoreForRefCounting w0))))
      \<subseteq> node_Cid ` set (empty_nodes T obj)"
    and "GetTip C K L during outcome did s = (Ok p, c, w)" "tp_AddBlockRequest p = abr"
    and "c_store c = Some st" "c_logger (fst s) \<noteq> None" "c_transactors c = ct_Transactors (sct_ChainTree tree')"
    and "c_validators c = ct_BlockValidators (sct_ChainTree tree') @ extra" "\<forall>v \<in> set extra. \<forall>t. v t b = Ok True"
  shows "\<exists>sct w'. GetLatest C K L H Q during outcome did s = (Ok sct, c, w') \<and> cid_Bytes (Tip sct) = abr_NewTip abr \<and>
    sct_Proof sct = Some (At_tip p)"
proof -
  have lib: "replay_lib hash L H Q st" by (rule genesis_lib.axioms(1) [OF assms(1)])
  let ?vs = "ct_BlockValidators (sct_ChainTree tree')"
  obtain n tip sw where req: "sw_WrapBlockWithHeaders H b = Ok n" "abr_Payload abr = node_RawData n"
    "abr_PreviousTip abr = cid_Bytes (Tip tree)" "abr_NewTip abr = cid_Bytes tip"
    and run: "run_tracked (dag_store L st) (play_block H (Tip tree) ?vs (c_transactors c) b) (wrapStoreForRefCounting w0) = (Ok (True, tip), sw)"
    and state: "block_state (dag_store L st) visit (abr_Height abr) sw = Ok (abr_State abr)"
    by (rule request_tracked [OF assms(2,6)]) (simp add: assms(13))
  have nodes: "\<forall>d \<in> set (abr_State abr). stored_data (dag_store L st) d" using block_state_stored [OF state] by blast
  have same: "play_block H (Tip tree) (c_validators c) (c_transactors c) b = play_block H (Tip tree) ?vs (c_transactors c) b"
    using replay_lib.play_block_extra [OF lib assms(15)] assms(14) by simp
  have prev: "Cast L (abr_PreviousTip abr) = Ok (Tip tree)" using replay_lib.cast_bytes [OF lib] req(3) by simp
  have "\<exists>w'. replay_request L H Q (Some st) (c_validators c) (c_transactors c) abr w =
      (Ok \<lparr>ct_Tip = tip, ct_BlockValidators = c_validators c, ct_Transactors = c_transactors c\<rparr>, w')"
    by (rule replay_lib.replay_request_at [OF lib prev req(4,1,2) nodes])
      (use first_block_plays [OF assms(1,5) _ run] assms(3,4,7,8) run in \<open>fastforce simp: assms(13) same [unfolded assms(13)]\<close>)
  then obtain w' where "replay_request L H Q (Some st) (c_validators c) (c_transactors c) abr w =
      (Ok \<lparr>ct_Tip = tip, ct_BlockValidators = c_validators c, ct_Transactors = c_transactors c\<rparr>, w')" by blast
  then show ?thesis
    using assms(9-12) req(4)
    by (auto simp: GetLatest_def ebind_def eread_def deref_def on_world_def eret_def Tip_def case_prod_beta)
qed

section \<open>A concrete first block\<close>

definition ref_first_block :: BlockWithHeaders where
  "ref_first_block = \<lparr>bwh_Block = \<lparr>blk_Height = 0, blk_PreviousTip = None, blk_Transactions = []\<rparr>,
     bwh_Headers = GMap [([CHR 0x07], GBytes (uint64ToBytes 0 @ [7, 0]))]\<rparr>"

definition ref_first_chain :: "('v, 'x) chain_lib" where
  "ref_first_chain = ref_chain\<lparr>
     sw_WrapBlockWithHeaders := (\<lambda>b. if b = ref_first_block then Ok (node_of (uint64ToBytes 0)) else Fail (LibErr ''cbor'')),
     decode_BlockWithHeaders := (\<lambda>_. Ok ref_first_block)\<rparr>"

text \<open>All values wrap to the empty node; a DAG has its first node as the tip.\<close>

definition ref_trees_in :: "(node list \<Rightarrow> 's \<Rightarrow> 's) \<Rightarrow> 's tree_lib" where
  "ref_trees_in add = \<lparr>sw_WrapValue = (\<lambda>_. Ok (node_of [])), NewDagWithNodes = (\<lambda>ns s. (Ok (node_Cid (hd ns)), add ns s))\<rparr>"

definition ref_memory_trees :: "unit tree_lib" where
  "ref_memory_trees = ref_trees_in (\<lambda>_ s. s)"

definition ref_first_lib :: "(unit, unit, ref_world) client_lib" where
  "ref_first_lib = ref_client_lib\<lparr>store_trees := (\<lambda>_. ref_trees_in (\<lambda>ns w. map node_RawData ns @ w))\<rparr>"

definition ref_first_abr :: AddBlockRequest where
  "ref_first_abr = \<lparr>abr_ObjectId = bytes_of ''did:tupelo:a'', abr_PreviousTip = [], abr_Height = 0, abr_NewTip = [0],
     abr_Payload = uint64ToBytes 0, abr_State = [[0]]\<rparr>"

definition ref_empty_tree :: "'v list \<Rightarrow> 'x \<Rightarrow> ('v, 'x, 'pf) SignedChainTree" where
  "ref_empty_tree vs xs = \<lparr>sct_ChainTree = \<lparr>ct_Tip = Cid [], ct_BlockValidators = vs, ct_Transactors = xs\<rparr>, sct_Proof = None\<rparr>"

lemma ref_empty_tree_simps [simp]:
  "Tip (ref_empty_tree vs xs) = Cid []"
  "sct_ChainTree (ref_empty_tree vs xs) = \<lparr>ct_Tip = Cid [], ct_BlockValidators = vs, ct_Transactors = xs\<rparr>"
  by (simp_all add: ref_empty_tree_def Tip_def)

lemma ref_empty_nodes [simp]: "node_Cid ` set (empty_nodes ref_memory_trees did) = {Cid []}"
  by (simp add: empty_nodes_def ref_memory_trees_def ref_trees_in_def)

lemma ref_first_chain_simps [simp]:
  "cl_NewChainTree ref_first_chain tip vs xs = GetNode tip (\<lambda>_. Return (Ok ()))"
  "cl_Id ref_first_chain tip = Return (Ok ''did:tupelo:a'')"
  "cl_ProcessBlock ref_first_chain tip vs xs b = GetNode tip (\<lambda>_. AddNode (node_of [0]) (\<lambda>_. Return (Ok (True, Cid [0]))))"
  "cl_ProcessBlockImmutable ref_first_chain = cl_ProcessBlock ref_first_chain"
  "decode_RootNode ref_first_chain bs = Ok 0"
  "sw_WrapBlockWithHeaders ref_first_chain b = (if b = ref_first_block then Ok (node_of (uint64ToBytes 0)) else Fail (LibErr ''cbor''))"
  "decode_BlockWithHeaders ref_first_chain bs = Ok ref_first_block"
  by (simp_all add: ref_first_chain_def ref_chain_def)

lemma ref_first_lib_simps:
  "sw_Decode ref_first_lib = sw_Decode ref_client_lib" "store_AddMany ref_first_lib = store_AddMany ref_client_lib"
  "store_trees ref_first_lib st = ref_trees_in (\<lambda>ns w. map node_RawData ns @ w)"
  by (simp_all add: ref_first_lib_def)

interpretation ref_first: genesis_lib Cid "ref_rounds dec" ref_first_chain ref_first_lib "()" ref_memory_trees
proof (intro genesis_lib.intro genesis_lib_axioms.intro)
  show "replay_lib Cid (ref_rounds dec) ref_first_chain ref_first_lib ()"
    by (rule replay_lib.intro)
      (use ref_replay.store ref_replay.cast_bytes ref_replay.decode_node ref_replay.add_many in
        \<open>auto simp: ref_first_lib_simps split: if_splits\<close>)
  show "\<exists>w'. NewDagWithNodes (store_trees ref_first_lib ()) (r # ns) w = (Ok (node_Cid r), w') \<and>
      (\<forall>n \<in> set (r # ns). ds_Get (dag_store (ref_rounds dec) ()) (node_Cid n) w' = Ok (Some n))"
    if "list_all (addressed Cid) (r # ns)" for r ns and w :: ref_world
    using ref_replay.add_many [OF that, of w] by (simp add: ref_first_lib_simps ref_trees_in_def ref_client_lib_def)
qed (simp_all add: ref_first_lib_simps ref_memory_trees_def ref_trees_in_def)

lemma ref_empty: "NewEmptyTree ref_memory_trees did () = (Ok (Cid []), ())"
  by (simp add: NewEmptyTree_def ref_memory_trees_def ref_trees_in_def must_def eff_defs)

lemma ref_first_signed:
  "signed_block mem_store ref_first_chain ref_memory_trees () ref_crypto ref_blocks (ref_empty_tree [] xs) [7] [] [[]] = (Ok ref_first_block, [[]])"
  (is "signed_block _ ?chain _ _ _ _ ?tree _ _ _ = _")
proof -
  have tip: "Tip ?tree = Cid []" "ct_Tip (sct_ChainTree ?tree) = Cid []" by (simp_all add: ref_empty_tree_def Tip_def)
  have g: "IsGenesis mem_store ?chain ref_memory_trees () ?tree [[]] = (Ok True, [[]])"
    by (simp add: IsGenesis_def MustId_def eff_defs run_store_def ref_empty tip)
  have h: "getHeight mem_store ?chain ref_memory_trees () ?tree [[]] = (Ok 0, [[]])"
    using g by (simp add: getHeight_def eff_defs missing_root_def mem_Get tip)
  have "SignBlock ref_crypto ref_blocks \<lparr>bwh_Block = \<lparr>blk_Height = 0, blk_PreviousTip = None, blk_Transactions = []\<rparr>, bwh_Headers = GNil\<rparr> [7] =
      Ok ref_first_block"
    using ref_block_hash [of "\<lparr>bwh_Block = \<lparr>blk_Height = 0, blk_PreviousTip = None, blk_Transactions = []\<rparr>, bwh_Headers = GNil\<rparr>"]
    by (simp add: SignBlock_def ref_crypto_sign ref_addr Let_def ref_headers ref_first_block_def)
  then show ?thesis using g h by (simp add: signed_block_def eff_defs)
qed

lemma ref_first_run:
  "run_tracked mem_store (play_block ref_first_chain (Cid []) vs xs b) (wrapStoreForRefCounting [[]]) =
     (Ok (True, Cid [0]), \<lparr>swr_DagStore = [[0], []], swr_touched = [Cid []], swr_added = [Cid [0]]\<rparr>)"
  "clean_run Cid mem_store (play_block ref_first_chain (Cid []) vs xs b) (wrapStoreForRefCounting [[]])"
  by (simp_all add: play_block_def run_tracked_def wrapStoreForRefCounting_def storeWrapper_Get_def storeWrapper_Add_def mem_Get mem_Add)

lemma ref_first_request:
  "NewAddBlockRequest mem_store ref_first_chain ref_memory_trees () ref_crypto ref_blocks id (Ok vs) [7] [] (ref_empty_tree [] xs, [[]]) =
     (Ok ref_first_abr, ref_empty_tree vs xs, [[0], []])"
  by (simp add: NewAddBlockRequest_def ref_first_signed)
    (simp add: with_validators_def refTrackingChainTree_def run_tracked_def wrapStoreForRefCounting_def storeWrapper_Get_def storeWrapper_Add_def
      mem_Get mem_Add ref_empty_tree_def block_state_def newNodes_def toSlice_def invalid_block_def SignedChainTree_Id_def run_store_def
      ref_first_block_def ref_first_abr_def Tip_def)

text \<open>A client whose current round, already fetched, names the request.\<close>

definition ref_first_current :: "(unit, bytes list) RoundConfirmationWrapper" where
  "ref_first_current = \<lparr>rcw_value = ref_conf, rcw_wrapped = None,
     rcw_completedRound = Some \<lparr>rw_round = ref_round, rw_wrapped = None, rw_checkpoint = None,
       rw_hamtNode = Some [bytes_of ''did:tupelo:a'', enc_abr ref_first_abr], rw_store = Some ()\<rparr>,
     rcw_store = Some ()\<rparr>"

definition ref_first_client :: "(bytes, u64, u64, unit, unit, unit, bytes list, ref_world, unit, unit, unit) Client" where
  "ref_first_client = ref_client\<lparr>c_subscriber := Some ((ref_subscriber_of ref_config)\<lparr>rs_current := Some ref_first_current\<rparr>)\<rparr>"

definition ref_first_tip :: TipProof where
  "ref_first_tip = \<lparr>tp_ObjectId = bytes_of ''did:tupelo:a'', tp_RoundConfirmation = ref_conf, tp_Tip = [0], tp_AddBlockRequest = ref_first_abr\<rparr>"

lemma ref_first_GetTip:
  "GetTip ref_crypto ref_kyber (ref_rounds ref_dec) [] Ctx_closed ''did:tupelo:a'' (ref_first_client, [enc_abr ref_first_abr]) =
     (Ok ref_first_tip, ref_first_client, [enc_abr ref_first_abr])"
proof -
  let ?L = "ref_rounds ref_dec" and ?rs = "(ref_subscriber_of ref_config)\<lparr>rs_current := Some ref_first_current\<rparr>"
  have sub: "c_subscriber ref_first_client = Some ?rs" "c_store ref_first_client = Some ()" by (simp_all add: ref_first_client_def ref_client_def)
  have same: "ref_first_client\<lparr>c_subscriber := Some ?rs\<rparr> = ref_first_client" by (simp add: ref_first_client_def)
  have f1: "on_current (FetchCompletedRound ?L w) ?rs = (Ok (the (rcw_completedRound ref_first_current)), ?rs)" for w
    by (simp add: on_current_def FetchCompletedRound_def ref_first_current_def)
  have f2: "on_current (on_completedRound (FetchHamt ?L w)) ?rs = (Ok [bytes_of ''did:tupelo:a'', enc_abr ref_first_abr], ?rs)" for w
    by (simp add: on_current_def on_completedRound_def FetchHamt_def ref_first_current_def)
  have f3: "hamt_Find ?L [bytes_of ''did:tupelo:a'', enc_abr ref_first_abr] ''did:tupelo:a'' w = Ok (Cid (enc_abr ref_first_abr))" for w
    by (simp add: ref_rounds_def)
  have f4: "ref_get (Cid (enc_abr ref_first_abr)) [enc_abr ref_first_abr] = Ok \<lparr>node_Cid = Cid (enc_abr ref_first_abr), node_RawData = enc_abr ref_first_abr\<rparr>"
    by (simp add: ref_get_def)
  have f5: "on_current (\<lambda>rc. (Ok (rcw_value rc), rc)) ?rs = (Ok ref_conf, ?rs)" by (simp add: on_current_def ref_first_current_def)
  have tip: "abr_NewTip ref_first_abr = [0]" by (simp add: ref_first_abr_def)
  show ?thesis
    by (simp add: GetTip_def WaitForFirstRound_def ebind_def CurrentRound_def on_subscriber_def sub same Current_def
        on_confirmation_def f1 f2 f5 ewrapf_def eread_def elift_def f3 f4 find_error_def deref_def
        RoundConfirmationWrapper_Value_def eret_def ref_first_tip_def tip)
qed

theorem first_block_is_played_witness:
  "\<exists>sct c w'. GetLatest ref_crypto ref_kyber (ref_rounds ref_dec) ref_first_chain ref_first_lib [] Ctx_closed ''did:tupelo:a''
       (ref_first_client, [enc_abr ref_first_abr]) = (Ok sct, c, w') \<and> cid_Bytes (Tip sct) = [0] \<and> sct_Proof sct = Some (At_tip ref_first_tip)"
proof -
  let ?vs = "[] :: unit validator list" and ?xs = "Map.empty :: Transaction_Type \<rightharpoonup> unit"
  have abr: "abr_Height ref_first_abr = 0" "abr_ObjectId ref_first_abr = bytes_of ''did:tupelo:a''" "abr_NewTip ref_first_abr = [0]"
    "tp_AddBlockRequest ref_first_tip = ref_first_abr" by (simp_all add: ref_first_abr_def ref_first_tip_def)
  let ?v = "group_proof_validator ref_crypto ref_kyber (ref_rounds ref_dec) ref_txns 2 (map sk_verKey ref_keys) :: unit validator"
  have c: "c_store ref_first_client = Some ()" "c_logger ref_first_client \<noteq> None" "c_validators ref_first_client = ?vs @ [?v]"
    "c_transactors ref_first_client = Map.empty" by (simp_all add: ref_first_client_def ref_client_def)
  have v: "\<forall>v \<in> set [?v]. \<forall>t. v t ref_first_block = Ok True"
    by (auto intro!: proof_validator_accepts [where ps = "[]"] simp: ref_first_block_def getReceiveTokenPayloads_def)
  from first_block_is_played [OF ref_first.genesis_lib_axioms, unfolded dag_store_ref,
      OF ref_first_request [of ?vs ?xs] abr(1,2) _ ref_first_signed _ _ ref_first_GetTip abr(4)]
  show ?thesis using v by (simp add: ref_empty ref_first_run abr(3) c) blast
qed

end
