(* ===== verification/Waiting.thy ===== *)
theory Waiting
  imports Prelude
begin

text \<open>
  How a client waits for its subscriber: \<^verbatim>\<open>Send\<close> and \<^verbatim>\<open>WaitForFirstRound\<close> (\<^verbatim>\<open>src/gossip/client/client.go\<close>) wait on a
  channel and on a timer, then unsubscribe, which needs the subscriber's lock, then close the channel; the
  subscriber's goroutine (\<^verbatim>\<open>src/gossip/client/roundsubscriber.go\<close>) publishes under that same lock, and the closure of a
  subscription sends on the channel from within. The two goroutines are a step relation. The event stream calls
  the closures before \<^verbatim>\<open>Publish\<close> returns.
\<close>

section \<open>The two goroutines\<close>

text \<open>
  The waiter: in its \<^verbatim>\<open>select\<close>; out of it, with a value or not, and in need of the lock; in \<^verbatim>\<open>unsubscribe\<close> with the lock; unsubscribed, the
  channel still open; returned. The follower, which runs \<^verbatim>\<open>handleMessage\<close>: without the lock; with the lock; at the send on the channel;
  crashed.
\<close>

datatype waiter = Waiting | Left_select bool | In_unsubscribe bool | Unsubscribed bool | Returned bool

datatype follower = Unlocked | Publishing | Sending | Crashed

datatype owner = Waiter_owns | Follower_owns

text \<open>\<^verbatim>\<open>wt_isDone\<close> is the flag of the closure of \<^verbatim>\<open>subscribe\<close>, \<^verbatim>\<open>wt_queue\<close> what the channel holds.\<close>

record waiting =
  wt_waiter :: waiter
  wt_follower :: follower
  wt_lock :: "owner option"
  wt_subscribed :: bool
  wt_isDone :: bool
  wt_queue :: nat
  wt_closed :: bool
  wt_timer :: bool

definition waiting_init :: waiting where
  "waiting_init = \<lparr>wt_waiter = Waiting, wt_follower = Unlocked, wt_lock = None, wt_subscribed = True, wt_isDone = False,
     wt_queue = 0, wt_closed = False, wt_timer = False\<rparr>"

text \<open>\<^verbatim>\<open>rs.Lock()\<close> and \<^verbatim>\<open>defer rs.Unlock()\<close> of \<^verbatim>\<open>handleMessage\<close>.\<close>

definition follower_lock :: "waiting \<Rightarrow> waiting" where
  "follower_lock s = s\<lparr>wt_follower := Publishing, wt_lock := Some Follower_owns\<rparr>"

definition follower_unlock :: "waiting \<Rightarrow> waiting" where
  "follower_unlock s = s\<lparr>wt_follower := Unlocked, wt_lock := None\<rparr>"

text \<open>
  The closure of a subscription up to its send: that of \<^verbatim>\<open>subscribe\<close> sends once, that of \<^verbatim>\<open>SubscribeToRounds\<close> at every event.
\<close>

definition wants_event :: "bool \<Rightarrow> waiting \<Rightarrow> bool" where
  "wants_event once s \<longleftrightarrow> wt_subscribed s \<and> \<not> (once \<and> wt_isDone s)"

definition begin_send :: "waiting \<Rightarrow> waiting" where
  "begin_send s = s\<lparr>wt_follower := Sending, wt_isDone := True\<rparr>"

text \<open>\<^verbatim>\<open>unsubscribe\<close> once it has the lock.\<close>

definition unsubscribe :: "bool \<Rightarrow> waiting \<Rightarrow> waiting" where
  "unsubscribe v s = s\<lparr>wt_waiter := Unsubscribed v, wt_subscribed := False, wt_lock := None\<rparr>"

text \<open>
  The early exits without a value are all \<^verbatim>\<open>time_out\<close>: when the timer fires, when \<^verbatim>\<open>WaitForFirstRound\<close> finds the context of its caller done, when \<^verbatim>\<open>Send\<close>
  cannot publish its request. Each leaves with the same deferred calls, at any time, and \<^verbatim>\<open>fire\<close> can come at any time.
\<close>

inductive wait_step :: "nat \<Rightarrow> bool \<Rightarrow> waiting \<Rightarrow> waiting \<Rightarrow> bool" for cap once where
  lock: "wt_follower s = Unlocked \<Longrightarrow> wt_lock s = None \<Longrightarrow> wait_step cap once s (follower_lock s)"
| other_event: "wt_follower s = Publishing \<Longrightarrow> wait_step cap once s (follower_unlock s)"
| event: "wt_follower s = Publishing \<Longrightarrow> wants_event once s \<Longrightarrow> wait_step cap once s (begin_send s)"
| send_queued: "wt_follower s = Sending \<Longrightarrow> \<not> wt_closed s \<Longrightarrow> wt_queue s < cap \<Longrightarrow>
    wait_step cap once s (follower_unlock (s\<lparr>wt_queue := wt_queue s + 1\<rparr>))"
| send_handed: "wt_follower s = Sending \<Longrightarrow> \<not> wt_closed s \<Longrightarrow> wt_queue s = 0 \<Longrightarrow> wt_waiter s = Waiting \<Longrightarrow>
    wait_step cap once s (follower_unlock (s\<lparr>wt_waiter := Left_select True\<rparr>))"
| send_closed: "wt_follower s = Sending \<Longrightarrow> wt_closed s \<Longrightarrow> wait_step cap once s (s\<lparr>wt_follower := Crashed\<rparr>)"
| receive: "wt_waiter s = Waiting \<Longrightarrow> 0 < wt_queue s \<Longrightarrow>
    wait_step cap once s (s\<lparr>wt_waiter := Left_select True, wt_queue := wt_queue s - 1\<rparr>)"
| fire: "\<not> wt_timer s \<Longrightarrow> wt_waiter s = Waiting \<Longrightarrow> wait_step cap once s (s\<lparr>wt_timer := True\<rparr>)"
| time_out: "wt_waiter s = Waiting \<Longrightarrow> wt_timer s \<Longrightarrow> wait_step cap once s (s\<lparr>wt_waiter := Left_select False\<rparr>)"
| enter: "wt_waiter s = Left_select v \<Longrightarrow> wt_lock s = None \<Longrightarrow>
    wait_step cap once s (s\<lparr>wt_waiter := In_unsubscribe v, wt_lock := Some Waiter_owns\<rparr>)"
| leave: "wt_waiter s = In_unsubscribe v \<Longrightarrow> wait_step cap once s (unsubscribe v s)"
| close: "wt_waiter s = Unsubscribed v \<Longrightarrow> wait_step cap once s (s\<lparr>wt_waiter := Returned v, wt_closed := True\<rparr>)"

inductive waits :: "nat \<Rightarrow> bool \<Rightarrow> waiting \<Rightarrow> bool" for cap once where
  init: "waits cap once waiting_init"
| step: "waits cap once s \<Longrightarrow> wait_step cap once s s' \<Longrightarrow> waits cap once s'"

lemmas waiting_defs = follower_lock_def follower_unlock_def begin_send_def unsubscribe_def wants_event_def

section \<open>The invariant\<close>

text \<open>
  Who holds the lock is where the program says; a value is sent only to a subscription, hence before \<^verbatim>\<open>unsubscribe\<close>; the channel is closed
  only after it.
\<close>

fun has_lock :: "waiter \<Rightarrow> bool" where
  "has_lock (In_unsubscribe v) = True"
| "has_lock _ = False"

fun has_returned :: "waiter \<Rightarrow> bool" where
  "has_returned (Returned v) = True"
| "has_returned _ = False"

fun is_subscribed :: "waiter \<Rightarrow> bool" where
  "is_subscribed (Unsubscribed v) = False"
| "is_subscribed (Returned v) = False"
| "is_subscribed _ = True"

fun has_value :: "waiter \<Rightarrow> bool" where
  "has_value Waiting = False"
| "has_value (Left_select v) = v"
| "has_value (In_unsubscribe v) = v"
| "has_value (Unsubscribed v) = v"
| "has_value (Returned v) = v"

definition lock_inv :: "waiting \<Rightarrow> bool" where
  "lock_inv s \<longleftrightarrow> wt_lock s = (if wt_follower s \<noteq> Unlocked then Some Follower_owns
     else if has_lock (wt_waiter s) then Some Waiter_owns else None) \<and> (wt_follower s = Unlocked \<or> \<not> has_lock (wt_waiter s))"

definition sub_inv :: "waiting \<Rightarrow> bool" where
  "sub_inv s \<longleftrightarrow> wt_follower s \<noteq> Crashed \<and> (wt_subscribed s \<longleftrightarrow> is_subscribed (wt_waiter s)) \<and>
     (wt_closed s \<longleftrightarrow> has_returned (wt_waiter s)) \<and> (wt_follower s = Sending \<longrightarrow> wt_subscribed s)"

definition queue_inv :: "nat \<Rightarrow> bool \<Rightarrow> waiting \<Rightarrow> bool" where
  "queue_inv cap once s \<longleftrightarrow> wt_queue s \<le> cap \<and> (wt_follower s = Sending \<longrightarrow> wt_isDone s) \<and>
     (once \<longrightarrow> 0 < wt_queue s \<or> has_value (wt_waiter s) \<longrightarrow> wt_isDone s \<and> wt_follower s \<noteq> Sending)"

definition waiting_inv :: "nat \<Rightarrow> bool \<Rightarrow> waiting \<Rightarrow> bool" where
  "waiting_inv cap once s \<longleftrightarrow> lock_inv s \<and> sub_inv s \<and> queue_inv cap once s"

lemma waiting_inv_init: "waiting_inv cap once waiting_init"
  by (simp add: waiting_inv_def lock_inv_def sub_inv_def queue_inv_def waiting_init_def)

lemma lock_inv_step: "wait_step cap once s s' \<Longrightarrow> lock_inv s \<Longrightarrow> lock_inv s'"
  by (induction rule: wait_step.induct) (auto simp: lock_inv_def waiting_defs split: if_splits)

lemma sub_inv_step: "wait_step cap once s s' \<Longrightarrow> lock_inv s \<Longrightarrow> sub_inv s \<Longrightarrow> sub_inv s'"
proof (induction rule: wait_step.induct)
  case (send_closed s)
  then show ?case by (cases "wt_waiter s") (auto simp: sub_inv_def)
qed (auto simp: lock_inv_def sub_inv_def waiting_defs split: if_splits)

lemma queue_inv_step: "wait_step cap once s s' \<Longrightarrow> queue_inv cap once s \<Longrightarrow> queue_inv cap once s'"
  by (induction rule: wait_step.induct) (auto simp: queue_inv_def waiting_defs)

lemma waiting_inv_step: "wait_step cap once s s' \<Longrightarrow> waiting_inv cap once s \<Longrightarrow> waiting_inv cap once s'"
  using lock_inv_step sub_inv_step queue_inv_step unfolding waiting_inv_def by blast

lemma waits_inv: "waits cap once s \<Longrightarrow> waiting_inv cap once s"
  by (induction rule: waits.induct) (auto simp: waiting_inv_init intro: waiting_inv_step)

text \<open>The only states without a next step: the follower waits for room in the channel, the waiter for the lock.\<close>

definition hung :: "nat \<Rightarrow> waiting \<Rightarrow> bool" where
  "hung cap s \<longleftrightarrow> wt_follower s = Sending \<and> wt_lock s = Some Follower_owns \<and> wt_queue s = cap \<and> (\<exists>v. wt_waiter s = Left_select v)"

lemma has_lock_iff: "has_lock w \<longleftrightarrow> (\<exists>v. w = In_unsubscribe v)"
  by (cases w) auto

lemma hung_stuck:
  assumes "hung cap s" "waiting_inv cap once s"
  shows "\<not> wait_step cap once s s'"
proof
  assume "wait_step cap once s s'"
  then show False
    by cases (use assms in \<open>auto simp: hung_def waiting_inv_def sub_inv_def\<close>)
qed

lemma progress:
  assumes "waiting_inv cap once s" "\<not> hung cap s"
  shows "\<exists>s'. wait_step cap once s s'"
proof (cases "wt_follower s")
  case Unlocked
  show ?thesis
  proof (cases "wt_lock s")
    case None
    then show ?thesis using Unlocked by (blast intro: wait_step.lock)
  next
    case (Some p)
    then obtain v where "wt_waiter s = In_unsubscribe v" using assms(1) Unlocked by (auto simp: waiting_inv_def lock_inv_def has_lock_iff split: if_splits)
    then show ?thesis by (blast intro: wait_step.leave)
  qed
next
  case Publishing
  then show ?thesis by (blast intro: wait_step.other_event)
next
  case Sending
  then have sub: "wt_lock s = Some Follower_owns" "is_subscribed (wt_waiter s)" "wt_queue s \<le> cap" "\<not> wt_closed s" "\<not> has_lock (wt_waiter s)"
    using assms(1) by (cases "wt_waiter s"; auto simp: waiting_inv_def lock_inv_def sub_inv_def queue_inv_def)+
  show ?thesis
  proof (cases "wt_queue s < cap")
    case True
    then show ?thesis using Sending sub(4) by (blast intro: wait_step.send_queued)
  next
    case False
    then have "wt_waiter s = Waiting" using sub Sending assms(2) by (cases "wt_waiter s") (auto simp: hung_def)
    then show ?thesis by (cases "wt_timer s") (blast intro: wait_step.time_out wait_step.fire)+
  qed
next
  case Crashed
  then show ?thesis using assms(1) by (simp add: waiting_inv_def sub_inv_def)
qed

section \<open>Properties\<close>

lemma hung_witness:
  assumes "wt_follower s = Unlocked" "wt_lock s = None" "wt_waiter s = Waiting" "\<not> wt_timer s" "wt_queue s = cap" "wants_event once s"
    and "waits cap once s"
  shows "\<exists>s'. waits cap once s' \<and> hung cap s' \<and> wt_waiter s' = Left_select False"
proof -
  let ?s1 = "s\<lparr>wt_timer := True\<rparr>"
  let ?s2 = "follower_lock ?s1"
  let ?s3 = "begin_send ?s2"
  have "wait_step cap once s ?s1" by (rule wait_step.fire) (use assms in simp_all)
  moreover have "wait_step cap once ?s1 ?s2" by (rule wait_step.lock) (use assms in simp_all)
  moreover have "wait_step cap once ?s2 ?s3" by (rule wait_step.event) (use assms in \<open>simp_all add: waiting_defs\<close>)
  moreover have "wait_step cap once ?s3 (?s3\<lparr>wt_waiter := Left_select False\<rparr>)"
    by (rule wait_step.time_out) (use assms in \<open>simp_all add: waiting_defs\<close>)
  ultimately have "waits cap once (?s3\<lparr>wt_waiter := Left_select False\<rparr>)"
    using waits.step assms(7) by metis
  moreover have "hung cap (?s3\<lparr>wt_waiter := Left_select False\<rparr>)" using assms(5) by (auto simp: hung_def waiting_defs)
  moreover have "wt_waiter (?s3\<lparr>wt_waiter := Left_select False\<rparr>) = Left_select False" by (simp add: waiting_defs)
  ultimately show ?thesis by blast
qed

text \<open>C33: no send on a closed channel. However the two goroutines interleave, for either kind of subscription, a value is
  only sent while the subscription is there and its channel open, so the subscriber never crashes; the
  lock is held by at most one of them; and when the call has returned, its subscription is gone and its channel closed.\<close>

theorem channel_closed_last:
  assumes "waits cap once s"
  shows "wt_follower s \<noteq> Crashed \<and> (wt_follower s = Sending \<longrightarrow> wt_subscribed s \<and> \<not> wt_closed s) \<and>
    \<not> (wt_follower s \<noteq> Unlocked \<and> (\<exists>v. wt_waiter s = In_unsubscribe v)) \<and>
    (\<forall>v. wt_waiter s = Returned v \<longrightarrow> \<not> wt_subscribed s \<and> wt_closed s) \<and> wt_queue s \<le> cap"
  using waits_inv [OF assms]
  by (cases "wt_waiter s") (auto simp: waiting_inv_def lock_inv_def sub_inv_def queue_inv_def)

theorem channel_closed_last_witness:
  "\<exists>s. waits 0 True s \<and> wt_follower s = Sending \<and> wt_subscribed s \<and> \<not> wt_closed s"
proof -
  let ?s1 = "follower_lock waiting_init"
  have "wait_step 0 True waiting_init ?s1" by (rule wait_step.lock) (simp_all add: waiting_init_def)
  moreover have "wait_step 0 True ?s1 (begin_send ?s1)" by (rule wait_step.event) (simp_all add: waiting_defs waiting_init_def)
  ultimately have w: "waits 0 True (begin_send ?s1)" using waits.intros by metis
  have "wt_follower (begin_send ?s1) = Sending" by (simp add: waiting_defs)
  with channel_closed_last [OF w] w show ?thesis by blast
qed

text \<open>C34: waiting can hang, and how. The state in which the subscriber, holding its lock, waits for the channel, while the
  waiter has left its \<^verbatim>\<open>select\<close> and waits for the lock, is the only one in which nothing can move. \<^verbatim>\<open>Send\<close>, whose channel has no room, gets there
  when its timer fires while a proof is being handed over; \<^verbatim>\<open>WaitForFirstRound\<close>, whose channel has room for one round and is sent every round, gets there too. With
  room for the one proof, \<^verbatim>\<open>Send\<close> could not.\<close>

theorem wait_hangs:
  "(\<forall>cap once s. waits cap once s \<longrightarrow> ((\<nexists>s'. wait_step cap once s s') \<longleftrightarrow> hung cap s)) \<and>
   (\<exists>s. waits 0 True s \<and> hung 0 s \<and> wt_waiter s = Left_select False) \<and>
   (\<exists>s. waits 1 False s \<and> hung 1 s \<and> wt_waiter s = Left_select False) \<and>
   (\<forall>s. waits 1 True s \<longrightarrow> \<not> hung 1 s)"
proof (intro conjI allI impI)
  fix cap once s
  assume "waits cap once s"
  from waits_inv [OF this] show "(\<nexists>s'. wait_step cap once s s') \<longleftrightarrow> hung cap s" using progress hung_stuck by blast
next
  show "\<exists>s. waits 0 True s \<and> hung 0 s \<and> wt_waiter s = Left_select False"
    by (rule hung_witness [OF _ _ _ _ _ _ waits.init]) (simp_all add: waiting_init_def wants_event_def)
next
  let ?s1 = "follower_lock waiting_init"
  let ?s3 = "follower_unlock (begin_send ?s1\<lparr>wt_queue := wt_queue (begin_send ?s1) + 1\<rparr>)"
  have "wait_step 1 False waiting_init ?s1" by (rule wait_step.lock) (simp_all add: waiting_init_def)
  moreover have "wait_step 1 False ?s1 (begin_send ?s1)" by (rule wait_step.event) (simp_all add: waiting_defs waiting_init_def)
  moreover have "wait_step 1 False (begin_send ?s1) ?s3"
    by (rule wait_step.send_queued) (simp_all add: waiting_defs waiting_init_def)
  ultimately have "waits 1 False ?s3" using waits.intros by metis
  from hung_witness [OF _ _ _ _ _ _ this] show "\<exists>s. waits 1 False s \<and> hung 1 s \<and> wt_waiter s = Left_select False"
    by (simp add: waiting_defs waiting_init_def)
next
  fix s
  assume "waits 1 True s"
  from waits_inv [OF this] show "\<not> hung 1 s" by (auto simp: waiting_inv_def queue_inv_def hung_def)
qed

theorem wait_hangs_witness: "\<exists>s. waits 0 True s \<and> (\<nexists>s'. wait_step 0 True s s') \<and> wt_waiter s = Left_select False"
  using wait_hangs by blast

section \<open>Returning\<close>

abbreviation wait_steps :: "nat \<Rightarrow> bool \<Rightarrow> waiting \<Rightarrow> waiting \<Rightarrow> bool" where
  "wait_steps cap once \<equiv> (wait_step cap once)\<^sup>*\<^sup>*"

lemma inv_steps: "wait_steps cap once s s' \<Longrightarrow> waiting_inv cap once s \<Longrightarrow> waiting_inv cap once s'"
  by (induction rule: rtranclp_induct) (auto intro: waiting_inv_step)

lemma returns_leaving:
  assumes "wt_waiter s = Left_select v" "wt_lock s = None"
  shows "\<exists>s'. wait_steps cap once s s' \<and> wt_waiter s' = Returned v"
proof -
  let ?s1 = "s\<lparr>wt_waiter := In_unsubscribe v, wt_lock := Some Waiter_owns\<rparr>"
  let ?s3 = "unsubscribe v ?s1\<lparr>wt_waiter := Returned v, wt_closed := True\<rparr>"
  have "wait_step cap once s ?s1" by (rule wait_step.enter [OF assms])
  moreover have "wait_step cap once ?s1 (unsubscribe v ?s1)" by (rule wait_step.leave) simp
  moreover have "wait_step cap once (unsubscribe v ?s1) ?s3" by (rule wait_step.close) (simp add: unsubscribe_def)
  ultimately have "wait_steps cap once s ?s3" by (meson converse_rtranclp_into_rtranclp rtranclp.rtrancl_refl)
  moreover have "wt_waiter ?s3 = Returned v" by simp
  ultimately show ?thesis by blast
qed

lemma returns_unlocked:
  assumes "waiting_inv cap once s" "wt_follower s = Unlocked"
  shows "\<exists>s' v. wait_steps cap once s s' \<and> wt_waiter s' = Returned v"
proof (cases "wt_waiter s")
  case Waiting
  let ?s1 = "if wt_timer s then s else s\<lparr>wt_timer := True\<rparr>"
  let ?s2 = "?s1\<lparr>wt_waiter := Left_select False\<rparr>"
  have "wait_steps cap once s ?s1" using wait_step.fire [OF _ Waiting] by auto
  moreover have "wait_step cap once ?s1 ?s2" by (rule wait_step.time_out) (use Waiting in auto)
  moreover have "wt_lock ?s2 = None" using assms Waiting by (simp add: waiting_inv_def lock_inv_def)
  with returns_leaving [of ?s2 False] obtain s' where "wait_steps cap once ?s2 s'" "wt_waiter s' = Returned False" by auto
  ultimately show ?thesis by (meson rtranclp.rtrancl_into_rtrancl rtranclp_trans)
next
  case (Left_select v)
  then show ?thesis using returns_leaving [OF Left_select] assms by (fastforce simp: waiting_inv_def lock_inv_def)
next
  case (In_unsubscribe v)
  let ?s2 = "unsubscribe v s\<lparr>wt_waiter := Returned v, wt_closed := True\<rparr>"
  have "wait_step cap once s (unsubscribe v s)" by (rule wait_step.leave [OF In_unsubscribe])
  moreover have "wait_step cap once (unsubscribe v s) ?s2" by (rule wait_step.close) (simp add: unsubscribe_def)
  ultimately have "wait_steps cap once s ?s2" by (meson converse_rtranclp_into_rtranclp rtranclp.rtrancl_refl)
  moreover have "wt_waiter ?s2 = Returned v" by simp
  ultimately show ?thesis by blast
next
  case (Unsubscribed v)
  let ?s1 = "s\<lparr>wt_waiter := Returned v, wt_closed := True\<rparr>"
  have "wait_steps cap once s ?s1" using wait_step.close [OF Unsubscribed] by blast
  moreover have "wt_waiter ?s1 = Returned v" by simp
  ultimately show ?thesis by blast
next
  case (Returned v)
  then show ?thesis by blast
qed

text \<open>The follower gets rid of the lock, unless both wait for each other.\<close>

lemma releases:
  assumes "waiting_inv cap once s" "\<not> hung cap s"
  shows "\<exists>s'. wait_steps cap once s s' \<and> wt_follower s' = Unlocked"
proof (cases "wt_follower s")
  case Unlocked
  then show ?thesis by blast
next
  case Publishing
  have "wt_follower (follower_unlock s) = Unlocked" by (simp add: follower_unlock_def)
  with wait_step.other_event [OF Publishing] show ?thesis by blast
next
  case Crashed
  then show ?thesis using assms(1) by (simp add: waiting_inv_def sub_inv_def)
next
  case Sending
  have open_: "\<not> wt_closed t" if "waiting_inv cap once t" "wt_follower t = Sending" for t
    using that by (cases "wt_waiter t") (auto simp: waiting_inv_def sub_inv_def)
  have queued: "\<exists>s'. wait_steps cap once t s' \<and> wt_follower s' = Unlocked" if "waiting_inv cap once t" "wt_follower t = Sending" "wt_queue t < cap" for t
  proof -
    let ?t = "follower_unlock (t\<lparr>wt_queue := wt_queue t + 1\<rparr>)"
    have "wt_follower ?t = Unlocked" by (simp add: follower_unlock_def)
    with wait_step.send_queued [OF that(2) open_ [OF that(1,2)] that(3)] show ?thesis by blast
  qed
  show ?thesis
  proof (cases "wt_queue s < cap")
    case True
    then show ?thesis using queued [OF assms(1) Sending] by blast
  next
    case False
    then have q: "wt_queue s = cap" using assms(1) by (simp add: waiting_inv_def queue_inv_def)
    have w: "wt_waiter s = Waiting"
      using q Sending assms by (cases "wt_waiter s") (auto simp: hung_def waiting_inv_def lock_inv_def sub_inv_def)
    show ?thesis
    proof (cases "cap = 0")
      case True
      let ?t = "follower_unlock (s\<lparr>wt_waiter := Left_select True\<rparr>)"
      have "wt_follower ?t = Unlocked" by (simp add: follower_unlock_def)
      with wait_step.send_handed [OF Sending open_ [OF assms(1) Sending] _ w] q True show ?thesis by blast
    next
      case False
      let ?t = "s\<lparr>wt_waiter := Left_select True, wt_queue := wt_queue s - 1\<rparr>"
      have step: "wait_step cap once s ?t" by (rule wait_step.receive [OF w]) (use q False in simp)
      have "wt_follower ?t = Sending" "wt_queue ?t < cap" using Sending q False by simp_all
      from queued [OF waiting_inv_step [OF step assms(1)] this] step show ?thesis by (meson converse_rtranclp_into_rtranclp)
    qed
  qed
qed

text \<open>C35: when a wait can still return. From every state that \<^verbatim>\<open>Send\<close> or \<^verbatim>\<open>WaitForFirstRound\<close> can reach, a run in which the call
  returns exists exactly if the state is not the hung one; so from nowhere else can the call be lost, and with room in the channel for the one
  value a \<^verbatim>\<open>Send\<close> could always still return.\<close>

theorem wait_returns:
  assumes "waits cap once s"
  shows "(\<exists>s' v. wait_steps cap once s s' \<and> wt_waiter s' = Returned v) \<longleftrightarrow> \<not> hung cap s"
proof
  note inv = waits_inv [OF assms]
  show "\<exists>s' v. wait_steps cap once s s' \<and> wt_waiter s' = Returned v" if not_hung: "\<not> hung cap s"
  proof -
    obtain t where t: "wait_steps cap once s t" "wt_follower t = Unlocked" using releases [OF inv not_hung] by blast
    from returns_unlocked [OF inv_steps [OF t(1) inv] t(2)] t(1) show ?thesis by (meson rtranclp_trans)
  qed
  show "\<not> hung cap s" if returns: "\<exists>s' v. wait_steps cap once s s' \<and> wt_waiter s' = Returned v"
  proof
    assume h: "hung cap s"
    obtain s' v where "wait_steps cap once s s'" "wt_waiter s' = Returned v" using returns by blast
    then show False by (cases rule: converse_rtranclpE) (use h hung_stuck [OF h inv] in \<open>auto simp: hung_def\<close>)
  qed
qed

theorem wait_returns_witness: "\<exists>s' v. wait_steps 0 True waiting_init s' \<and> wt_waiter s' = Returned v"
  using wait_returns [OF waits.init, of 0 True] by (simp add: hung_def waiting_init_def)

end
