(* ===== verification/Subscriptions.thy ===== *)
theory Subscriptions
  imports Client
begin

text \<open>
  The subscriptions of a client as entries of the subscriber's event stream: \<^verbatim>\<open>SubscribeToRounds\<close>, \<^verbatim>\<open>UnsubscribeFromRounds\<close>, \<^verbatim>\<open>SubscribeToAbr\<close> and
  \<^verbatim>\<open>UnsubscribeFromAbr\<close> of \<^verbatim>\<open>src/gossip/client/client.go\<close> over \<^verbatim>\<open>subscribe\<close> and \<^verbatim>\<open>unsubscribe\<close> of \<^verbatim>\<open>roundsubscriber.go\<close>. The stream (\<^verbatim>\<open>protoactor-go/eventstream\<close>) calls
  every closure that is subscribed with every event. \<^verbatim>\<open>Waiting\<close> has the same closures in a wait, with the locks.
\<close>

section \<open>The stream\<close>

text \<open>A closure with what it has sent on its channel, each send being received at some time.\<close>

datatype ('st, 'h) listener = On_abr abr_subscription | On_rounds "('st, 'h) RoundConfirmationWrapper list"

fun hear :: "bool \<Rightarrow> ('st, 'h) ValidationNotification \<Rightarrow> ('st, 'h) listener \<Rightarrow> ('st, 'h) listener" where
  "hear ctxDone noti (On_abr s) = On_abr (notify ctxDone noti s)"
| "hear ctxDone noti (On_rounds ch) = On_rounds (ch @ [vn_RoundConfirmation noti])"

text \<open>A subscription is the place of its closure; the flag says whether it is subscribed.\<close>

type_synonym ('st, 'h) event_stream = "(bool \<times> ('st, 'h) listener) list"

definition stream_Subscribe :: "('st, 'h) listener \<Rightarrow> ('st, 'h) event_stream \<Rightarrow> nat \<times> ('st, 'h) event_stream" where
  "stream_Subscribe l es = (length es, es @ [(True, l)])"

definition stream_Unsubscribe :: "nat \<Rightarrow> ('st, 'h) event_stream \<Rightarrow> ('st, 'h) event_stream" where
  "stream_Unsubscribe i es = (if i < length es then es[i := (False, snd (es ! i))] else es)"

text \<open>\<^verbatim>\<open>done i\<close>: the context of subscription \<^verbatim>\<open>i\<close> is done at the event.\<close>

definition stream_Publish :: "(nat \<Rightarrow> bool) \<Rightarrow> ('st, 'h) ValidationNotification \<Rightarrow> ('st, 'h) event_stream \<Rightarrow> ('st, 'h) event_stream" where
  "stream_Publish is_done noti es = map (\<lambda>i. if fst (es ! i) then (True, hear (is_done i) noti (snd (es ! i))) else es ! i) [0..<length es]"

section \<open>The operations of the client\<close>

text \<open>The state: the client, the stream of its subscriber, the world. A client that was not started has no subscriber.\<close>

definition the_subscriber where
  "the_subscriber = eread (\<lambda>(c, es, w). deref (c_subscriber c))"

definition SubscribeToRounds where
  "SubscribeToRounds = ebind the_subscriber (\<lambda>_ (c, es, w). case stream_Subscribe (On_rounds []) es of (i, es') \<Rightarrow> (Ok i, c, es', w))"

definition UnsubscribeFromRounds where
  "UnsubscribeFromRounds i = ebind the_subscriber (\<lambda>_ (c, es, w). (Ok (), c, stream_Unsubscribe i es, w))"

definition Client_SubscribeToAbr where
  "Client_SubscribeToAbr L abr = (\<lambda>(c, es, w). case SubscribeToAbr L abr (c, w) of
     (Ok s, c, w) \<Rightarrow> (case stream_Subscribe (On_abr s) es of (i, es') \<Rightarrow> (Ok i, c, es', w))
   | (Fail e, c, w) \<Rightarrow> (Fail e, c, es, w)
   | (Panic p, c, w) \<Rightarrow> (Panic p, c, es, w))"

definition UnsubscribeFromAbr where
  "UnsubscribeFromAbr i = ebind the_subscriber (\<lambda>_ (c, es, w). (Ok (), c, stream_Unsubscribe i es, w))"

section \<open>What a subscription hears\<close>

datatype ('st, 'h) stream_op = Subscribing "('st, 'h) listener" | Unsubscribing nat | Event "nat \<Rightarrow> bool" "('st, 'h) ValidationNotification"

fun stream_run :: "('st, 'h) stream_op list \<Rightarrow> ('st, 'h) event_stream \<Rightarrow> ('st, 'h) event_stream" where
  "stream_run [] es = es"
| "stream_run (Subscribing l # ops) es = stream_run ops (snd (stream_Subscribe l es))"
| "stream_run (Unsubscribing i # ops) es = stream_run ops (stream_Unsubscribe i es)"
| "stream_run (Event is_done noti # ops) es = stream_run ops (stream_Publish is_done noti es)"

fun events_for :: "nat \<Rightarrow> ('st, 'h) stream_op list \<Rightarrow> (bool \<times> ('st, 'h) ValidationNotification) list" where
  "events_for i [] = []"
| "events_for i (Event is_done noti # ops) = (is_done i, noti) # events_for i ops"
| "events_for i (Subscribing l # ops) = events_for i ops"
| "events_for i (Unsubscribing j # ops) = events_for i ops"

lemma length_stream_ops [simp]:
  "length (snd (stream_Subscribe l es)) = Suc (length es)" "length (stream_Unsubscribe i es) = length es"
  "length (stream_Publish is_done noti es) = length es"
  by (simp_all add: stream_Subscribe_def stream_Unsubscribe_def stream_Publish_def)

lemma stream_run_append: "stream_run (xs @ ys) es = stream_run ys (stream_run xs es)"
  by (induction xs es rule: stream_run.induct) simp_all

lemma stream_run_length: "length es \<le> length (stream_run ops es)"
  by (induction ops es rule: stream_run.induct) auto

lemma unsubscribed_stays: "i < length es \<Longrightarrow> es ! i = (False, l) \<Longrightarrow> stream_run ops es ! i = (False, l)"
  by (induction ops es rule: stream_run.induct)
    (auto simp: stream_Subscribe_def stream_Unsubscribe_def stream_Publish_def nth_append nth_list_update)

lemma subscribed_hears:
  "i < length es \<Longrightarrow> es ! i = (True, l) \<Longrightarrow> Unsubscribing i \<notin> set ops \<Longrightarrow>
   stream_run ops es ! i = (True, fold (\<lambda>(ctxDone, noti). hear ctxDone noti) (events_for i ops) l)"
  by (induction ops es arbitrary: l rule: stream_run.induct)
    (auto simp: stream_Subscribe_def stream_Unsubscribe_def stream_Publish_def nth_append nth_list_update)

text \<open>
  A closure hears exactly the events between its subscribing and its unsubscribing, in their order and whatever other subscriptions come and go, and
  nothing afterwards.
\<close>

theorem subscription_hears:
  assumes "stream_Subscribe l es = (i, es')" "Unsubscribing i \<notin> set ops"
  shows "stream_run (ops @ Unsubscribing i # later) es' ! i = (False, fold (\<lambda>(ctxDone, noti). hear ctxDone noti) (events_for i ops) l)"
proof -
  have es': "i < length es'" "es' ! i = (True, l)" using assms(1) by (auto simp: stream_Subscribe_def)
  let ?es = "stream_run ops es'"
  have "?es ! i = (True, fold (\<lambda>(ctxDone, noti). hear ctxDone noti) (events_for i ops) l)" by (rule subscribed_hears [OF es' assms(2)])
  moreover have "i < length ?es" using es'(1) stream_run_length [of es' ops] by linarith
  ultimately have "stream_Unsubscribe i ?es ! i = (False, fold (\<lambda>(ctxDone, noti). hear ctxDone noti) (events_for i ops) l)" "i < length (stream_Unsubscribe i ?es)"
    by (simp_all add: stream_Unsubscribe_def)
  then show ?thesis by (simp add: stream_run_append unsubscribed_stays)
qed

lemma fold_rounds: "fold (\<lambda>(ctxDone, noti). hear ctxDone noti) evs (On_rounds ch) = On_rounds (ch @ map (vn_RoundConfirmation \<circ> snd) evs)"
  by (induction evs arbitrary: ch) auto

lemma fold_abr: "fold (\<lambda>(ctxDone, noti). hear ctxDone noti) evs (On_abr s) = On_abr (fold (\<lambda>(ctxDone, noti). notify ctxDone noti) evs s)"
  by (induction evs arbitrary: s) auto

text \<open>The channel of \<^verbatim>\<open>SubscribeToRounds\<close> gets the confirmation of every event in between; a started client can always subscribe, one that was not panics.\<close>

corollary rounds_delivered:
  assumes "SubscribeToRounds (c, es, w) = (Ok i, c', es', w')" "Unsubscribing i \<notin> set ops"
  shows "snd (stream_run (ops @ Unsubscribing i # later) es' ! i) = On_rounds (map (vn_RoundConfirmation \<circ> snd) (events_for i ops))"
proof -
  have "stream_Subscribe (On_rounds []) es = (i, es')"
    using assms(1) by (auto simp: SubscribeToRounds_def the_subscriber_def go_ok stream_Subscribe_def)
  from subscription_hears [OF this assms(2)] show ?thesis by (simp add: fold_rounds)
qed

corollary abr_proofs_sent:
  assumes "Client_SubscribeToAbr L abr (c, es, w) = (Ok i, c', es', w')" "Unsubscribing i \<notin> set ops"
  shows "\<exists>s. SubscribeToAbr L abr (c, w) = (Ok s, c', w') \<and>
    snd (stream_run (ops @ Unsubscribing i # later) es' ! i) = On_abr (fold (\<lambda>(ctxDone, noti). notify ctxDone noti) (events_for i ops) s)"
proof -
  obtain s where s: "SubscribeToAbr L abr (c, w) = (Ok s, c', w')" and "stream_Subscribe (On_abr s) es = (i, es')"
    using assms(1) by (auto simp: Client_SubscribeToAbr_def split: prod.splits res.splits)
  from subscription_hears [OF this(2) assms(2)] s show ?thesis by (simp add: fold_abr)
qed

lemma no_subscriber_panics: "c_subscriber c = None \<Longrightarrow> \<exists>p. fst (SubscribeToRounds (c, es, w)) = Panic p"
  by (simp add: SubscribeToRounds_def the_subscriber_def ebind_def eread_def deref_def)

end
