(* ===== verification/Discovery.thy ===== *)
theory Discovery
  imports Prelude
begin

text \<open>
  \<^verbatim>\<open>src/p2p/discovery.go\<close> and the discovery operations of \<^verbatim>\<open>src/p2p/p2p.go\<close>: a host keeps a discoverer per namespace, which
  advertises the namespace, connects to the peers found and counts them; \<^verbatim>\<open>waitForNumber\<close> waits until enough were counted.
  Advertising and finding peers are library calls, given by their results.
\<close>

section \<open>Discoverers\<close>

record DiscoveryEvent =
  de_Namespace :: string
  de_Connected :: u64

text \<open>\<^verbatim>\<open>td_cancel\<close>: the cancel function is set, and its context not yet cancelled; \<^verbatim>\<open>td_events\<close>: what was published.\<close>

record tupeloDiscoverer =
  td_namespace :: string
  td_connected :: u64
  td_events :: "DiscoveryEvent list"
  td_cancel :: bool
  td_started :: bool

definition newTupeloDiscoverer :: "string \<Rightarrow> tupeloDiscoverer" where
  "newTupeloDiscoverer namespace = \<lparr>td_namespace = namespace, td_connected = 0, td_events = [], td_cancel = False, td_started = False\<rparr>"

text \<open>An empty routing table is not an error: the call is made again later.\<close>

definition constantlyAdvertise :: "unit res \<Rightarrow> unit res" where
  "constantlyAdvertise advertise = (case advertise of
     Fail e \<Rightarrow> if e = LibErr ''failed to find any peer in table'' then Ok () else Fail e
   | r \<Rightarrow> r)"

definition findPeers :: "unit res \<Rightarrow> unit res" where
  "findPeers found = wrapf ''error findPeers: %v'' found"

definition td_start :: "unit res \<Rightarrow> unit res \<Rightarrow> (tupeloDiscoverer, unit) eff" where
  "td_start advertise found td =
     (if td_started td then (Ok (), td)
      else
        let td = td\<lparr>td_cancel := True\<rparr> in
        ebind (elift (wrapf ''error advertising: %v'' (constantlyAdvertise advertise))) (\<lambda>_.
        ebind (elift (wrapf ''error finding peers: %v'' (findPeers found))) (\<lambda>_.
        (\<lambda>td. (Ok (), td\<lparr>td_started := True\<rparr>)))) td)"

definition td_stop :: "tupeloDiscoverer \<Rightarrow> tupeloDiscoverer" where
  "td_stop td =
     (if \<not> td_started td then td
      else if td_cancel td then td\<lparr>td_cancel := False, td_started := False\<rparr> else td)"

definition count_peer :: "tupeloDiscoverer \<Rightarrow> tupeloDiscoverer" where
  "count_peer td = (let numConnected = td_connected td + 1 in
     td\<lparr>td_connected := numConnected, td_events := td_events td @ [\<lparr>de_Namespace = td_namespace td, de_Connected = numConnected\<rparr>]\<rparr>)"

text \<open>
  A peer that was found: its id, whether the host is connected to it, and what \<^verbatim>\<open>Connect\<close> answers otherwise; an
  error of \<^verbatim>\<open>Connect\<close> is logged.
\<close>

definition handleNewPeerInfo :: "string \<Rightarrow> bool \<Rightarrow> unit res \<Rightarrow> tupeloDiscoverer \<Rightarrow> tupeloDiscoverer" where
  "handleNewPeerInfo peer_ID is_connected connect td =
     (if peer_ID = [] then td
      else if is_connected then count_peer td
      else (case connect of Ok _ \<Rightarrow> count_peer td | Fail e \<Rightarrow> count_peer td | Panic p \<Rightarrow> td))"

section \<open>The discoverers of a host\<close>

type_synonym discoverers = "string \<rightharpoonup> tupeloDiscoverer"

definition StartDiscovery :: "unit res \<Rightarrow> unit res \<Rightarrow> string \<Rightarrow> (discoverers, unit) eff" where
  "StartDiscovery advertise found namespace ds =
     (let discoverer = (case ds namespace of Some d \<Rightarrow> d | None \<Rightarrow> newTupeloDiscoverer namespace) in
      case td_start advertise found discoverer of (r, d) \<Rightarrow> (r, ds(namespace \<mapsto> d)))"

text \<open>The map without the discoverer, and the discoverer that was stopped, which other goroutines may still hold.\<close>

definition StopDiscovery :: "string \<Rightarrow> discoverers \<Rightarrow> tupeloDiscoverer option \<times> discoverers" where
  "StopDiscovery namespace ds = (map_option td_stop (ds namespace), ds(namespace := None))"

definition WaitForDiscovery :: "(tupeloDiscoverer \<Rightarrow> unit res) \<Rightarrow> string \<Rightarrow> discoverers \<Rightarrow> unit res" where
  "WaitForDiscovery waitForNumber namespace ds =
     (case ds namespace of
        None \<Rightarrow> Fail (Errorf ''error missing discoverer (%s)'' [])
      | Some discoverer \<Rightarrow> waitForNumber discoverer)"

section \<open>Waiting for a number of peers\<close>

text \<open>
  The program points of \<^verbatim>\<open>waitForNumber\<close>: subscribed but not yet looked at the counter; in the \<^verbatim>\<open>select\<close>; out of it; after
  \<^verbatim>\<open>close(doneChan)\<close>; returned. \<^verbatim>\<open>wn_senders\<close> counts the goroutines that wait to send on \<^verbatim>\<open>doneChan\<close>.
\<close>

datatype wn_point = Counting | Selecting | Leaving bool | Closed bool | Finished bool

record waitForNumber =
  wn_point :: wn_point
  wn_connected :: u64
  wn_senders :: nat
  wn_subscribed :: bool
  wn_crashed :: bool

definition wn_init :: "u64 \<Rightarrow> waitForNumber" where
  "wn_init c0 = \<lparr>wn_point = Counting, wn_connected = c0, wn_senders = 0, wn_subscribed = True, wn_crashed = False\<rparr>"

text \<open>The closure that is subscribed, called with the number just counted.\<close>

definition on_event :: "u64 \<Rightarrow> waitForNumber \<Rightarrow> waitForNumber" where
  "on_event num s = (if wn_subscribed s \<and> wn_connected s \<ge> num then s\<lparr>wn_senders := wn_senders s + 1\<rparr> else s)"

fun is_closed :: "wn_point \<Rightarrow> bool" where
  "is_closed (Closed v) = True"
| "is_closed (Finished v) = True"
| "is_closed _ = False"

text \<open>The steps; \<^verbatim>\<open>n\<close> counts the peers that have been counted since the call.\<close>

inductive wn_reach :: "u64 \<Rightarrow> u64 \<Rightarrow> nat \<Rightarrow> waitForNumber \<Rightarrow> bool" for num c0 where
  init: "wn_reach num c0 0 (wn_init c0)"
| peer: "wn_reach num c0 n s \<Longrightarrow> \<not> wn_crashed s \<Longrightarrow>
    wn_reach num c0 (n + 1) (on_event num (s\<lparr>wn_connected := wn_connected s + 1\<rparr>))"
| count: "wn_reach num c0 n s \<Longrightarrow> \<not> wn_crashed s \<Longrightarrow> wn_point s = Counting \<Longrightarrow>
    wn_reach num c0 n (s\<lparr>wn_point := Selecting,
      wn_senders := (if wn_connected s \<ge> num then wn_senders s + 1 else wn_senders s)\<rparr>)"
| receive: "wn_reach num c0 n s \<Longrightarrow> \<not> wn_crashed s \<Longrightarrow> wn_point s = Selecting \<Longrightarrow> 0 < wn_senders s \<Longrightarrow>
    wn_reach num c0 n (s\<lparr>wn_point := Leaving True, wn_senders := wn_senders s - 1\<rparr>)"
| time_out: "wn_reach num c0 n s \<Longrightarrow> \<not> wn_crashed s \<Longrightarrow> wn_point s = Selecting \<Longrightarrow>
    wn_reach num c0 n (s\<lparr>wn_point := Leaving False\<rparr>)"
| close: "wn_reach num c0 n s \<Longrightarrow> \<not> wn_crashed s \<Longrightarrow> wn_point s = Leaving v \<Longrightarrow> wn_reach num c0 n (s\<lparr>wn_point := Closed v\<rparr>)"
| unsubscribe: "wn_reach num c0 n s \<Longrightarrow> \<not> wn_crashed s \<Longrightarrow> wn_point s = Closed v \<Longrightarrow>
    wn_reach num c0 n (s\<lparr>wn_point := Finished v, wn_subscribed := False\<rparr>)"
| send_closed: "wn_reach num c0 n s \<Longrightarrow> \<not> wn_crashed s \<Longrightarrow> is_closed (wn_point s) \<Longrightarrow> 0 < wn_senders s \<Longrightarrow>
    wn_reach num c0 n (s\<lparr>wn_crashed := True\<rparr>)"

fun has_succeeded :: "wn_point \<Rightarrow> bool" where
  "has_succeeded Counting = False"
| "has_succeeded Selecting = False"
| "has_succeeded (Leaving v) = v"
| "has_succeeded (Closed v) = v"
| "has_succeeded (Finished v) = v"

lemma wn_inv:
  assumes "wn_reach num c0 n s"
  shows "wn_connected s = c0 + of_nat n \<and> (0 < wn_senders s \<or> has_succeeded (wn_point s) \<longrightarrow> (\<exists>k \<le> n. num \<le> c0 + of_nat k))"
  using assms
proof (induction rule: wn_reach.induct)
  case (peer n s)
  have "\<exists>k \<le> n + 1. num \<le> c0 + of_nat k" if "\<exists>k \<le> n. num \<le> c0 + of_nat k" using that by (meson le_SucI Suc_eq_plus1 le_add1 order_trans)
  moreover have "\<exists>k \<le> n + 1. num \<le> c0 + of_nat k" if "num \<le> c0 + (of_nat n + 1)" using that by (intro exI [of _ "n + 1"]) (simp add: add.commute)
  ultimately show ?case using peer by (auto simp: on_event_def ac_simps)
next
  case (count n s)
  then show ?case by auto
qed (auto simp: wn_init_def)

text \<open>What a successful wait means, and what it may cost. A wait for \<^verbatim>\<open>num\<close> peers that succeeds, or is about to,
  has seen the counter at \<^verbatim>\<open>num\<close> or above. But only one of the goroutines that report this is ever received from, and the channel is then
  closed: whenever enough peers are counted at the call and one more is counted before it leaves, there is a run in which the
  wait succeeds and the process crashes with a send on the closed channel.\<close>

theorem discovery_wait:
  "(\<forall>num c0 n s. wn_reach num c0 n s \<longrightarrow> has_succeeded (wn_point s) \<longrightarrow> (\<exists>k \<le> n. num \<le> c0 + of_nat k)) \<and>
   (\<forall>num c0. num \<le> c0 \<longrightarrow> num \<le> c0 + 1 \<longrightarrow>
      (\<exists>s. wn_reach num c0 1 s \<and> wn_crashed s \<and> has_succeeded (wn_point s)))"
proof (intro conjI allI impI)
  fix num c0 n s
  assume "wn_reach num c0 n s" "has_succeeded (wn_point s)"
  then show "\<exists>k \<le> n. num \<le> c0 + of_nat k" using wn_inv by blast
next
  fix num c0 :: u64
  assume n: "num \<le> c0" "num \<le> c0 + 1"
  let ?s = "\<lambda>p k c. \<lparr>wn_point = p, wn_connected = c, wn_senders = k, wn_subscribed = True, wn_crashed = False\<rparr>"
  have r0: "wn_reach num c0 0 (?s Counting 0 c0)" using wn_reach.init [of num c0] by (simp add: wn_init_def)
  have r1: "wn_reach num c0 0 (?s Selecting 1 c0)" using wn_reach.count [OF r0] n(1) by simp
  have r2: "wn_reach num c0 1 (?s Selecting 2 (c0 + 1))" using wn_reach.peer [OF r1] n(2) by (simp add: on_event_def numeral_2_eq_2)
  have r3: "wn_reach num c0 1 (?s (Leaving True) 1 (c0 + 1))" using wn_reach.receive [OF r2] by simp
  have r4: "wn_reach num c0 1 (?s (Closed True) 1 (c0 + 1))" using wn_reach.close [OF r3] by simp
  have r5: "wn_reach num c0 1 (?s (Closed True) 1 (c0 + 1)\<lparr>wn_crashed := True\<rparr>)" using wn_reach.send_closed [OF r4] by simp
  show "\<exists>s. wn_reach num c0 1 s \<and> wn_crashed s \<and> has_succeeded (wn_point s)"
    by (rule exI [of _ "?s (Closed True) 1 (c0 + 1)\<lparr>wn_crashed := True\<rparr>"], rule conjI [OF r5]) simp
qed

theorem discovery_wait_witness: "\<exists>s. wn_reach 2 3 1 s \<and> wn_crashed s \<and> has_succeeded (wn_point s)"
  using conjunct2 [OF discovery_wait, rule_format, of 2 3] by simp

section \<open>The life of a discoverer\<close>

lemma started_once: "td_started td \<Longrightarrow> td_start a f td = (Ok (), td)"
  by (simp add: td_start_def)

lemma start_stop:
  assumes "td_start a f td = (Ok (), td')" "\<not> td_started td"
  shows "td_started td' \<and> td_cancel td' \<and> \<not> td_started (td_stop td') \<and> \<not> td_cancel (td_stop td')"
  using assms by (auto simp: td_start_def td_stop_def go_ok)

text \<open>After a failed start \<^verbatim>\<open>stop\<close> does nothing: the context that was made, and what already runs under it, is not cancelled.\<close>

lemma failed_start_runs_on:
  assumes "td_start a f td = (Fail e, td')"
  shows "\<not> td_started td' \<and> td_cancel td' \<and> td_stop td' = td'"
  using assms by (cases "td_started td") (auto simp: td_start_def td_stop_def eff_defs Let_def split: res.splits)

text \<open>A peer is counted whether the connection succeeds or not.\<close>

lemma failed_connections_count:
  "peer_ID \<noteq> [] \<Longrightarrow> handleNewPeerInfo peer_ID False (Fail e) td = handleNewPeerInfo peer_ID False (Ok ()) td"
  by (simp add: handleNewPeerInfo_def)

section \<open>The goroutines of a discoverer\<close>

text \<open>The peers that \<^verbatim>\<open>findPeers\<close> receives, in the order in which they are counted.\<close>

fun find_peers_loop :: "(string \<times> bool \<times> unit res) list \<Rightarrow> tupeloDiscoverer \<Rightarrow> tupeloDiscoverer" where
  "find_peers_loop [] td = td"
| "find_peers_loop ((peer_ID, is_connected, connect) # peers) td = find_peers_loop peers (handleNewPeerInfo peer_ID is_connected connect td)"

text \<open>
  The repetition of \<^verbatim>\<open>constantlyAdvertise\<close>: for every call its answer, and whether the context is done before the timer fires. The
  result: how many calls were made, and whether another one is to come. The retry for an empty routing table is not tied to the context.
\<close>

definition no_peer_in_table :: goerr where
  "no_peer_in_table = LibErr ''failed to find any peer in table''"

fun advertise_run :: "(unit res \<times> bool) list \<Rightarrow> nat \<times> bool" where
  "advertise_run [] = (0, True)"
| "advertise_run ((Ok _, ctx_done) # answers) = (if ctx_done then (1, False) else (case advertise_run answers of (n, to_come) \<Rightarrow> (Suc n, to_come)))"
| "advertise_run ((Fail e, ctx_done) # answers) =
     (if e = no_peer_in_table then (case advertise_run answers of (n, to_come) \<Rightarrow> (Suc n, to_come)) else (1, False))"
| "advertise_run ((Panic p, ctx_done) # answers) = (1, False)"

definition counts_as_peer :: "(string \<times> bool \<times> unit res) \<Rightarrow> bool" where
  "counts_as_peer peer = (case peer of (peer_ID, is_connected, connect) \<Rightarrow> peer_ID \<noteq> [] \<and> (is_connected \<or> (\<forall>p. connect \<noteq> Panic p)))"

lemma handleNewPeerInfo_counted:
  "handleNewPeerInfo i c r td = (if counts_as_peer (i, c, r) then count_peer td else td)"
  by (cases r) (auto simp: handleNewPeerInfo_def counts_as_peer_def)

text \<open>Every peer with an identifier is counted once, and announced with the number that it got.\<close>

lemma find_peers_counts:
  "td_connected (find_peers_loop peers td) = td_connected td + of_nat (length (filter counts_as_peer peers)) \<and>
   td_events (find_peers_loop peers td) = td_events td @
     map (\<lambda>k. \<lparr>de_Namespace = td_namespace td, de_Connected = td_connected td + 1 + of_nat k\<rparr>) [0..<length (filter counts_as_peer peers)]"
proof (induction peers td rule: find_peers_loop.induct)
  case (2 i c r peers td)
  then show ?case
    by (simp add: handleNewPeerInfo_counted count_peer_def Let_def upt_conv_Cons map_Suc_upt [symmetric] o_def algebra_simps del: upt_Suc)
qed simp

fun goes_on :: "unit res \<times> bool \<Rightarrow> bool" where
  "goes_on (Ok _, ctx_done) \<longleftrightarrow> \<not> ctx_done"
| "goes_on (Fail e, ctx_done) \<longleftrightarrow> e = no_peer_in_table"
| "goes_on (Panic p, ctx_done) \<longleftrightarrow> False"

text \<open>One error of any other kind ends advertising for good, although the discoverer still counts as started.\<close>

lemma advertise_run_eq:
  "advertise_run answers = (if list_all goes_on answers then (length answers, True) else (Suc (length (takeWhile goes_on answers)), False))"
  by (induction answers rule: advertise_run.induct) simp_all

lemma advertising_ends:
  assumes "list_all goes_on answers" "e \<noteq> no_peer_in_table"
  shows "advertise_run (answers @ (Fail e, False) # later) = (Suc (length answers), False)"
  using assms by (simp add: advertise_run_eq takeWhile_append2 list_all_iff)

lemma retry_outlives_stop: "advertise_run (replicate n (Fail no_peer_in_table, True)) = (n, True)"
  by (simp add: advertise_run_eq list_all_iff)

end
