(* ===== verification/Host_Config.thy ===== *)
theory Host_Config
  imports Discovery Go_Strings
begin

text \<open>
  \<^verbatim>\<open>src/p2p/config.go\<close> and the constructors of \<^verbatim>\<open>src/p2p/p2p.go\<close>: the options of a p2p host, and what is handed to the libp2p
  library from the configuration they make. The option values of the library are opaque.
\<close>

section \<open>Private keys\<close>

text \<open>\<^verbatim>\<open>big.Int.Bytes\<close>: big-endian, without leading zeros.\<close>

fun big_Bytes :: "nat \<Rightarrow> bytes" where
  "big_Bytes n = (if n = 0 then [] else big_Bytes (n div 256) @ [of_nat (n mod 256)])"

declare big_Bytes.simps [simp del]

definition expectedKeySize :: nat where
  "expectedKeySize = 32"

definition p2pPrivateFromEcdsaPrivate :: "(bytes \<Rightarrow> 'k res) \<Rightarrow> nat \<Rightarrow> 'k res" where
  "p2pPrivateFromEcdsaPrivate unmarshal key_D =
     (let keyBytes = big_Bytes key_D in
      if length keyBytes \<noteq> expectedKeySize \<and> length keyBytes \<noteq> expectedKeySize - 1
      then Fail (Errorf ''error: length of private key must be 31 or 32 bytes'' [])
      else
        let keyBytes = replicate (expectedKeySize - length keyBytes) 0 @ keyBytes in
        wrapf ''error unmarshaling: %v'' (unmarshal keyBytes))"

section \<open>Options\<close>

text \<open>\<^verbatim>\<open>'opt\<close> are options of the libraries (relay, pubsub, libp2p, bitswap), \<^verbatim>\<open>'e\<close> public keys.\<close>

record 'e ecdsa_PrivateKey =
  ek_D :: nat
  ek_PublicKey :: 'e

record ('e, 'net, 'opt, 'ds, 'bs, 'rep) HostConfig =
  hcf_RelayOpts :: "'opt list"
  hcf_EnableAutoRelay :: bool
  hcf_EnableWebsocket :: bool
  hcf_WebsocketPort :: int
  hcf_PubSubRouter :: string
  hcf_PubSubOptions :: "'opt list"
  hcf_PrivateKey :: "'e ecdsa_PrivateKey option"
  hcf_EnableNATMap :: bool
  hcf_ExternalAddrs :: "string list"
  hcf_ListenAddrs :: "string list"
  hcf_AddrFilters :: "'net list"
  hcf_Port :: int
  hcf_ListenIP :: string
  hcf_DiscoveryNamespaces :: "string list"
  hcf_AdditionalP2POptions :: "'opt list"
  hcf_Transports :: "'opt list"
  hcf_DataStore :: "'ds option"
  hcf_Blockstore :: "'bs option"
  hcf_BandwidthReporter :: "'rep option"
  hcf_Segmenter :: bytes
  hcf_ClientOnlyDHT :: bool
  hcf_BitswapOptions :: "'opt list"

definition empty_HostConfig :: "('e, 'net, 'opt, 'ds, 'bs, 'rep) HostConfig" where
  "empty_HostConfig = \<lparr>hcf_RelayOpts = [], hcf_EnableAutoRelay = False, hcf_EnableWebsocket = False, hcf_WebsocketPort = 0,
     hcf_PubSubRouter = [], hcf_PubSubOptions = [], hcf_PrivateKey = None, hcf_EnableNATMap = False, hcf_ExternalAddrs = [],
     hcf_ListenAddrs = [], hcf_AddrFilters = [], hcf_Port = 0, hcf_ListenIP = [], hcf_DiscoveryNamespaces = [],
     hcf_AdditionalP2POptions = [], hcf_Transports = [], hcf_DataStore = None, hcf_Blockstore = None,
     hcf_BandwidthReporter = None, hcf_Segmenter = [], hcf_ClientOnlyDHT = False, hcf_BitswapOptions = []\<rparr>"

fun p2p_applyOptions :: "('c, unit) eff list \<Rightarrow> ('c, unit) eff" where
  "p2p_applyOptions [] = eret ()"
| "p2p_applyOptions (factory # opts) = ebind (ewrapf ''error applying option: %v'' factory) (\<lambda>_. p2p_applyOptions opts)"

text \<open>\<^verbatim>\<open>ParseCIDR\<close> and \<^verbatim>\<open>NewMultiaddr\<close> are arguments; \<^verbatim>\<open>%d\<close> is decimal.\<close>

definition stringToIPNet :: "(string \<Rightarrow> 'net res) \<Rightarrow> string \<Rightarrow> 'net res" where
  "stringToIPNet ParseCIDR str = wrapf ''error parsing %s: %v'' (ParseCIDR str)"

fun addr_filters :: "(string \<Rightarrow> 'net res) \<Rightarrow> string list \<Rightarrow> 'net list res" where
  "addr_filters ParseCIDR [] = Ok []"
| "addr_filters ParseCIDR (cidr # rest) =
     rbind (wrapf ''error getting stringToIPnet: %v'' (stringToIPNet ParseCIDR cidr)) (\<lambda>n.
     rbind (addr_filters ParseCIDR rest) (\<lambda>ns. Ok (n # ns)))"

definition WithAddrFilters where
  "WithAddrFilters ParseCIDR addrFilters =
     ebind (elift (addr_filters ParseCIDR addrFilters)) (\<lambda>addrFilterIPs c. (Ok (), c\<lparr>hcf_AddrFilters := addrFilterIPs\<rparr>))"

definition WithAutoRelay where
  "WithAutoRelay enabled c = (Ok (), c\<lparr>hcf_EnableAutoRelay := enabled\<rparr>)"

definition WithDiscoveryNamespaces where
  "WithDiscoveryNamespaces namespaces c = (Ok (), c\<lparr>hcf_DiscoveryNamespaces := namespaces\<rparr>)"

definition WithSegmenter where
  "WithSegmenter secret c = (Ok (), c\<lparr>hcf_Segmenter := secret\<rparr>)"

definition WithBandwidthReporter where
  "WithBandwidthReporter reporter c = (Ok (), c\<lparr>hcf_BandwidthReporter := reporter\<rparr>)"

definition WithPubSubOptions where
  "WithPubSubOptions opts c = (Ok (), c\<lparr>hcf_PubSubOptions := opts\<rparr>)"

definition WithDatastore where
  "WithDatastore store c = (Ok (), c\<lparr>hcf_DataStore := store\<rparr>)"

definition WithBlockstore where
  "WithBlockstore store c = (Ok (), c\<lparr>hcf_Blockstore := store\<rparr>)"

definition WithRelayOpts where
  "WithRelayOpts opts c = (Ok (), c\<lparr>hcf_RelayOpts := opts\<rparr>)"

definition WithKey where
  "WithKey key c = (Ok (), c\<lparr>hcf_PrivateKey := key\<rparr>)"

definition ip4_tcp :: "string \<Rightarrow> int \<Rightarrow> string" where
  "ip4_tcp ip port = ''/ip4/'' @ ip @ ''/tcp/'' @ show_int port"

definition WithListenIP where
  "WithListenIP ip port c = (Ok (), c\<lparr>hcf_Port := port, hcf_ListenIP := ip, hcf_ListenAddrs := [ip4_tcp ip port]\<rparr>)"

definition WithWebSockets where
  "WithWebSockets port c = (Ok (), c\<lparr>hcf_EnableWebsocket := True, hcf_WebsocketPort := port\<rparr>)"

definition supportedGossipTypes :: "string list" where
  "supportedGossipTypes = [''gossip'', ''random'', ''floodsub'']"

definition WithPubSubRouter where
  "WithPubSubRouter routeType c =
     (if routeType \<notin> set supportedGossipTypes then (Fail (Errorf ''%s is an unsupported gossip type'' []), c)
      else (Ok (), c\<lparr>hcf_PubSubRouter := routeType\<rparr>))"

definition WithNATMap where
  "WithNATMap c = (Ok (), c\<lparr>hcf_EnableNATMap := True\<rparr>)"

definition WithExternalAddr where
  "WithExternalAddr NewMultiaddr addr =
     ebind (elift (wrapf ''Error creating multiaddress: %v'' (NewMultiaddr addr))) (\<lambda>_ c.
     (Ok (), c\<lparr>hcf_ExternalAddrs := hcf_ExternalAddrs c @ [addr]\<rparr>))"

definition WithExternalIP where
  "WithExternalIP NewMultiaddr ip port = WithExternalAddr NewMultiaddr (ip4_tcp ip port)"

definition WithWebSocketExternalIP where
  "WithWebSocketExternalIP NewMultiaddr ip port = WithExternalAddr NewMultiaddr (ip4_tcp ip port @ ''/ws'')"

definition WithClientOnlyDHT where
  "WithClientOnlyDHT isClientOnly c = (Ok (), c\<lparr>hcf_ClientOnlyDHT := isClientOnly\<rparr>)"

definition WithLibp2pOptions where
  "WithLibp2pOptions opts c = (Ok (), c\<lparr>hcf_AdditionalP2POptions := opts\<rparr>)"

definition WithBitswapOptions where
  "WithBitswapOptions opts c = (Ok (), c\<lparr>hcf_BitswapOptions := opts\<rparr>)"

definition WithTransports where
  "WithTransports transports c = (Ok (), c\<lparr>hcf_Transports := transports\<rparr>)"

text \<open>\<^verbatim>\<open>key\<close> is what \<^verbatim>\<open>GenerateKey\<close> returns; \<^verbatim>\<open>pubsub_opts\<close> are the two pubsub options, \<^verbatim>\<open>reporter\<close> and \<^verbatim>\<open>store\<close> are made afresh.\<close>

definition defaultOptions where
  "defaultOptions key pubsub_opts reporter store =
     rbind (case key of Ok k \<Rightarrow> Ok k | _ \<Rightarrow> Panic ''unable to generate a new key'') (\<lambda>key.
     Ok [WithKey (Some key), WithPubSubRouter ''gossip'', WithPubSubOptions pubsub_opts, WithNATMap, WithListenIP ''0.0.0.0'' 0,
         WithBandwidthReporter (Some reporter), WithDatastore (Some store)])"

text \<open>\<^verbatim>\<open>public_ip\<close> is the environment's \<^verbatim>\<open>TUPELO_PUBLIC_IP\<close>.\<close>

definition backwardsCompatibleConfig where
  "backwardsCompatibleConfig gen_key pubsub_opts reporter store NewMultiaddr public_ip relay_opts key port useRelay =
     rbind (defaultOptions gen_key pubsub_opts reporter store) (\<lambda>opts.
     let opts = opts @ [WithKey key, WithDiscoveryNamespaces [''tupelo-transaction-gossipers''], WithListenIP ''0.0.0.0'' port];
         opts = (case public_ip of None \<Rightarrow> opts | Some hostIP \<Rightarrow> opts @ [WithExternalIP NewMultiaddr hostIP port]);
         opts = (if useRelay then opts @ [WithRelayOpts relay_opts] else opts) in
     case p2p_applyOptions opts empty_HostConfig of
       (Ok _, c) \<Rightarrow> Ok c
     | (Fail e, c) \<Rightarrow> Fail (Errorf ''error applying opts: %v'' [e])
     | (Panic p, c) \<Rightarrow> Panic p)"

section \<open>Hosts\<close>

text \<open>What is handed to \<^verbatim>\<open>libp2p.New\<close>.\<close>

datatype ('k, 'net, 'opt, 'rep, 'ds, 'ma, 'prot) libp2p_option =
    ListenAddrStrings "string list" | Identity_of 'k | DefaultTransports | ChainOptions "'opt list" | DefaultMuxers | DefaultSecurity
  | BandwidthReporter "'rep option" | Routing "'ds option" bool | EnableAutoRelay | FilterAddresses "'net list"
  | AddrsFactory "'ma list" | EnableRelay "'opt list" | PrivateNetwork 'prot | Additional 'opt

datatype pubsub_kind = NewGossipSub | NewFloodSub | NewRandomSub

record ('k, 'net, 'opt, 'rep, 'ds, 'bs, 'ma, 'prot, 'hst, 'pub) host_lib =
  UnmarshalSecp256k1PrivateKey :: "bytes \<Rightarrow> 'k res"
  NewMultiaddr :: "string \<Rightarrow> 'ma res"
  NewV1ProtectorFromBytes :: "bytes \<Rightarrow> 'prot res"
  libp2p_New :: "('k, 'net, 'opt, 'rep, 'ds, 'ma, 'prot) libp2p_option list \<Rightarrow> 'hst res"
  new_PubSub :: "pubsub_kind \<Rightarrow> 'hst \<Rightarrow> 'opt list \<Rightarrow> 'pub res"
  cached_Blockstore :: "'ds option \<Rightarrow> 'bs res"

record ('e, 'rep, 'ds, 'bs, 'hst, 'pub) LibP2PHost =
  lh_host :: 'hst
  lh_publicKey :: 'e
  lh_Reporter :: "'rep option"
  lh_pubsub :: 'pub
  lh_datastore :: "'ds option"
  lh_blockstore :: 'bs
  lh_discoverers :: discoverers
  lh_bootstrapStarted :: bool

fun multiaddrs :: "(string \<Rightarrow> 'ma res) \<Rightarrow> string list \<Rightarrow> 'ma list res" where
  "multiaddrs new_addr [] = Ok []"
| "multiaddrs new_addr (addr # addrs) =
     rbind (wrapf ''Error creating Multiaddr for ExternalAddrs: %v'' (new_addr addr)) (\<lambda>mAddr.
     rbind (multiaddrs new_addr addrs) (\<lambda>ms. Ok (mAddr # ms)))"

text \<open>\<^verbatim>\<open>copy(key[:], c.Segmenter)\<close> into 32 zero bytes.\<close>

definition segment_key :: "bytes \<Rightarrow> bytes" where
  "segment_key secret = take 32 secret @ replicate (32 - length secret) 0"

definition listen_addrs where
  "listen_addrs c = (if hcf_EnableWebsocket c
     then hcf_ListenAddrs c @ [ip4_tcp (if hcf_ListenIP c = [] then ''0.0.0.0'' else hcf_ListenIP c) (hcf_WebsocketPort c) @ ''/ws'']
     else hcf_ListenAddrs c)"

definition libp2p_options where
  "libp2p_options B c priv =
     (let opts = [ListenAddrStrings (listen_addrs c), Identity_of priv,
            (if length (hcf_Transports c) = 0 then DefaultTransports else ChainOptions (hcf_Transports c)),
            DefaultMuxers, DefaultSecurity, BandwidthReporter (hcf_BandwidthReporter c), Routing (hcf_DataStore c) (hcf_ClientOnlyDHT c)];
          opts = (if hcf_EnableAutoRelay c then opts @ [EnableAutoRelay] else opts);
          opts = (if length (hcf_AddrFilters c) > 0 then opts @ [FilterAddresses (hcf_AddrFilters c)] else opts) in
      rbind (if length (hcf_ExternalAddrs c) > 0 then
               rbind (multiaddrs (NewMultiaddr B) (hcf_ExternalAddrs c)) (\<lambda>extmAddrs. Ok (opts @ [AddrsFactory extmAddrs]))
             else Ok opts) (\<lambda>opts.
      let opts = (if length (hcf_RelayOpts c) > 0 then opts @ [EnableRelay (hcf_RelayOpts c)] else opts) in
      rbind (if length (hcf_Segmenter c) > 0 then
               rbind (wrapf ''error creating protected network: %v'' (NewV1ProtectorFromBytes B (segment_key (hcf_Segmenter c)))) (\<lambda>prot.
               Ok (opts @ [PrivateNetwork prot]))
             else Ok opts) (\<lambda>opts.
      Ok (opts @ map Additional (hcf_AdditionalP2POptions c)))))"

text \<open>A router that is none of the three leaves the creator nil, and calling it panics.\<close>

definition pub_creator :: "string \<Rightarrow> pubsub_kind res" where
  "pub_creator router =
     (if router = ''gossip'' then Ok NewGossipSub
      else if router = ''floodsub'' then Ok NewFloodSub
      else if router = ''random'' then Ok NewRandomSub
      else Panic ''invalid memory address or nil pointer dereference'')"

definition newLibP2PHostFromConfig where
  "newLibP2PHostFromConfig B c =
     rbind (case hcf_PrivateKey c of None \<Rightarrow> Panic ''invalid memory address or nil pointer dereference'' | Some k \<Rightarrow> Ok k) (\<lambda>key.
     rbind (p2pPrivateFromEcdsaPrivate (UnmarshalSecp256k1PrivateKey B) (ek_D key)) (\<lambda>priv.
     rbind (libp2p_options B c priv) (\<lambda>opts.
     rbind (libp2p_New B opts) (\<lambda>routedHost.
     rbind (pub_creator (hcf_PubSubRouter c)) (\<lambda>pubCreator.
     rbind (wrapf ''error creating new gossip sub: %v'' (new_PubSub B pubCreator routedHost (hcf_PubSubOptions c))) (\<lambda>pub.
     rbind (case hcf_Blockstore c of
              None \<Rightarrow> wrapf ''error wrapping: %w'' (cached_Blockstore B (hcf_DataStore c))
            | Some bs \<Rightarrow> Ok bs) (\<lambda>hostBlockStore.
     Ok \<lparr>lh_host = routedHost, lh_publicKey = ek_PublicKey key, lh_Reporter = hcf_BandwidthReporter c, lh_pubsub = pub,
         lh_datastore = hcf_DataStore c, lh_blockstore = hostBlockStore,
         lh_discoverers = (\<lambda>namespace. if namespace \<in> set (hcf_DiscoveryNamespaces c) then Some (newTupeloDiscoverer namespace) else None),
         lh_bootstrapStarted = False\<rparr>)))))))"

definition NewHostFromOptions where
  "NewHostFromOptions B gen_key pubsub_opts reporter store userOpts =
     rbind (defaultOptions gen_key pubsub_opts reporter store) (\<lambda>opts.
     case p2p_applyOptions (opts @ userOpts) empty_HostConfig of
       (Ok _, c) \<Rightarrow> newLibP2PHostFromConfig B c
     | (Fail e, c) \<Rightarrow> Fail (Errorf ''error applying opts: %v'' [e])
     | (Panic p, c) \<Rightarrow> Panic p)"

text \<open>The message prints the options in place of the error.\<close>

definition NewHostAndBitSwapPeer where
  "NewHostAndBitSwapPeer B gen_key pubsub_opts reporter store newBitswapPeer userOpts =
     rbind (defaultOptions gen_key pubsub_opts reporter store) (\<lambda>opts.
     case p2p_applyOptions (opts @ userOpts) empty_HostConfig of
       (Ok _, c) \<Rightarrow>
         rbind (wrapf ''error generating libp2p host: %v'' (newLibP2PHostFromConfig B c)) (\<lambda>h.
         rbind (wrapf ''error generating bitswap peer: %v'' (newBitswapPeer h (hcf_BitswapOptions c))) (\<lambda>peer. Ok (h, peer)))
     | (Fail e, c) \<Rightarrow> Fail (Errorf ''error applying opts: %v'' [])
     | (Panic p, c) \<Rightarrow> Panic p)"

definition NewRelayLibP2PHost where
  "NewRelayLibP2PHost B gen_key pubsub_opts reporter store public_ip relay_opts privateKey port =
     rbind (wrapf ''error generating config: %v''
       (backwardsCompatibleConfig gen_key pubsub_opts reporter store (NewMultiaddr B) public_ip relay_opts privateKey port True)) (\<lambda>cfg.
     newLibP2PHostFromConfig B cfg)"

definition NewLibP2PHost where
  "NewLibP2PHost B gen_key pubsub_opts reporter store public_ip relay_opts privateKey port =
     rbind (wrapf ''error generating config: %v''
       (backwardsCompatibleConfig gen_key pubsub_opts reporter store (NewMultiaddr B) public_ip relay_opts privateKey port False)) (\<lambda>cfg.
     newLibP2PHostFromConfig B cfg)"

section \<open>The router is always known\<close>

text \<open>The options of the package; of \<^verbatim>\<open>NewMultiaddr\<close> only the success matters. A nil key can only come from the caller.\<close>

inductive host_option :: "(('e, 'net, 'opt, 'ds, 'bs, 'rep) HostConfig, unit) eff \<Rightarrow> bool" where
  "host_option (WithAddrFilters ParseCIDR filters)"
| "host_option (WithAutoRelay enabled)"
| "host_option (WithDiscoveryNamespaces namespaces)"
| "host_option (WithSegmenter secret)"
| "host_option (WithBandwidthReporter reporter)"
| "host_option (WithPubSubOptions opts)"
| "host_option (WithDatastore ds)"
| "host_option (WithBlockstore bs)"
| "host_option (WithRelayOpts opts)"
| "host_option (WithKey (Some key))"
| "host_option (WithListenIP ip port)"
| "host_option (WithWebSockets port)"
| "host_option (WithPubSubRouter router)"
| "host_option WithNATMap"
| "host_option (WithExternalAddr (new_addr :: string \<Rightarrow> unit res) addr)"
| "host_option (WithExternalIP (new_addr :: string \<Rightarrow> unit res) ip port)"
| "host_option (WithWebSocketExternalIP (new_addr :: string \<Rightarrow> unit res) ip port)"
| "host_option (WithClientOnlyDHT is_client)"
| "host_option (WithLibp2pOptions opts)"
| "host_option (WithBitswapOptions opts)"
| "host_option (WithTransports opts)"

lemmas host_option_defs = WithAddrFilters_def WithAutoRelay_def WithDiscoveryNamespaces_def WithSegmenter_def
  WithBandwidthReporter_def WithPubSubOptions_def WithDatastore_def WithBlockstore_def WithRelayOpts_def WithKey_def
  WithListenIP_def WithWebSockets_def WithPubSubRouter_def WithNATMap_def WithExternalAddr_def WithExternalIP_def
  WithWebSocketExternalIP_def WithClientOnlyDHT_def WithLibp2pOptions_def WithBitswapOptions_def WithTransports_def

text \<open>A configuration that a host can be made from: a known router and a key.\<close>

definition usable :: "('e, 'net, 'opt, 'ds, 'bs, 'rep) HostConfig \<Rightarrow> bool" where
  "usable c \<longleftrightarrow> hcf_PubSubRouter c \<in> set supportedGossipTypes \<and> hcf_PrivateKey c \<noteq> None"

lemma host_option_usable: "host_option opt \<Longrightarrow> keeps (\<lambda>a b. usable a \<longrightarrow> usable b) opt"
  by (induction rule: host_option.induct)
    (auto simp: keeps_def usable_def host_option_defs eff_defs split: res.splits)

lemma applyOptions_usable: "list_all host_option opts \<Longrightarrow> keeps (\<lambda>a b. usable a \<longrightarrow> usable b) (p2p_applyOptions opts)"
proof (induction opts)
  case Nil
  then show ?case by (simp add: keeps_def eret_def)
next
  case (Cons opt opts)
  have "transp (\<lambda>a b. usable a \<longrightarrow> usable b)" by (auto intro: transpI)
  moreover have "keeps (\<lambda>a b. usable a \<longrightarrow> usable b) (ewrapf ''error applying option: %v'' opt)"
    using Cons.prems by (simp add: keeps_ewrapf host_option_usable)
  moreover have "keeps (\<lambda>a b. usable a \<longrightarrow> usable b) (p2p_applyOptions opts)" using Cons by simp
  ultimately show ?case by (auto intro: keeps_ebind)
qed

lemma applyOptions_append: "p2p_applyOptions (xs @ ys) = ebind (p2p_applyOptions xs) (\<lambda>_. p2p_applyOptions ys)"
  by (induction xs) (auto simp: eff_defs fun_eq_iff split: prod.splits res.splits)

lemma defaults_usable:
  assumes "defaultOptions key po reporter store = Ok opts"
  shows "\<exists>c. p2p_applyOptions opts empty_HostConfig = (Ok (), c) \<and> usable c"
  using assms
  by (auto simp: defaultOptions_def host_option_defs eff_defs usable_def supportedGossipTypes_def split: res.splits)

lemma configured:
  assumes "defaultOptions key po reporter store = Ok opts" "list_all host_option userOpts"
    "p2p_applyOptions (opts @ userOpts) empty_HostConfig = (r, c)"
  shows "usable c"
proof -
  obtain c0 where c0: "p2p_applyOptions opts empty_HostConfig = (Ok (), c0)" "usable c0"
    using defaults_usable [OF assms(1)] by blast
  then have "p2p_applyOptions userOpts c0 = (r, c)" using assms(3) by (simp add: applyOptions_append ebind_def)
  from keepsD [OF applyOptions_usable [OF assms(2)] this] c0(2) show ?thesis by simp
qed

text \<open>A host is never made without a router or a key. Whatever options of the package are applied after the
  defaults, and even if one of them fails, the configuration they leave has a key and a router for which there is a constructor, so that
  making the host from it does not call a nil function.\<close>

theorem host_configured:
  assumes "defaultOptions key po reporter store = Ok opts" "list_all host_option userOpts"
    and "p2p_applyOptions (opts @ userOpts) empty_HostConfig = (r, c)"
  shows "(\<exists>kind. pub_creator (hcf_PubSubRouter c) = Ok kind) \<and> hcf_PrivateKey c \<noteq> None"
  using configured [OF assms] by (auto simp: usable_def supportedGossipTypes_def pub_creator_def)

theorem host_configured_witness:
  "\<exists>c. p2p_applyOptions ([WithKey (Some \<lparr>ek_D = 1, ek_PublicKey = ()\<rparr>), WithPubSubRouter ''gossip'', WithPubSubOptions [True], WithNATMap,
      WithListenIP ''0.0.0.0'' 0, WithBandwidthReporter (Some ()), WithDatastore (Some ())] @ [WithPubSubRouter ''floodsub''])
      (empty_HostConfig :: (unit, unit, bool, unit, unit, unit) HostConfig) = (Ok (), c) \<and> pub_creator (hcf_PubSubRouter c) = Ok NewFloodSub \<and>
    hcf_PrivateKey c \<noteq> None"
proof -
  let ?opts = "[WithKey (Some \<lparr>ek_D = 1, ek_PublicKey = ()\<rparr>), WithPubSubRouter ''gossip'', WithPubSubOptions [True], WithNATMap,
      WithListenIP ''0.0.0.0'' 0, WithBandwidthReporter (Some ()), WithDatastore (Some ())]
      :: ((unit, unit, bool, unit, unit, unit) HostConfig, unit) eff list"
  obtain c where c: "p2p_applyOptions (?opts @ [WithPubSubRouter ''floodsub'']) empty_HostConfig = (Ok (), c)"
    "hcf_PubSubRouter c = ''floodsub''"
    by (simp add: host_option_defs eff_defs supportedGossipTypes_def)
  have "defaultOptions (Ok \<lparr>ek_D = 1, ek_PublicKey = ()\<rparr>) [True] () () = Ok ?opts" by (simp add: defaultOptions_def)
  from host_configured [OF this _ c(1)] c show ?thesis by (auto simp: pub_creator_def intro: host_option.intros)
qed

section \<open>Key bytes\<close>

text \<open>The bytes of a number at a fixed length, most significant first, and their value.\<close>

definition be_bytes :: "nat \<Rightarrow> nat \<Rightarrow> bytes" where
  "be_bytes k n = map (\<lambda>i. of_nat (n div 256 ^ (k - 1 - i))) [0..<k]"

definition be_value :: "bytes \<Rightarrow> nat" where
  "be_value bs = foldl (\<lambda>v b. 256 * v + unat b) 0 bs"

lemma of_nat_byte_mod: "(of_nat (n mod 256) :: byte) = of_nat n"
  by (simp add: word_of_nat_eq_iff take_bit_eq_mod)

lemma be_bytes_Suc: "be_bytes (Suc k) n = be_bytes k (n div 256) @ [of_nat n]"
proof -
  have "n div 256 ^ (k - i) = n div 256 div 256 ^ (k - 1 - i)" if "i < k" for i
  proof -
    have "k - i = Suc (k - 1 - i)" using that by simp
    then show ?thesis by (simp add: div_mult2_eq)
  qed
  then show ?thesis by (auto simp: be_bytes_def)
qed

lemma big_Bytes_padded: "n < 256 ^ k \<Longrightarrow> length (big_Bytes n) \<le> k \<and> replicate (k - length (big_Bytes n)) 0 @ big_Bytes n = be_bytes k n"
proof (induction k arbitrary: n)
  case 0
  then show ?case by (simp add: be_bytes_def big_Bytes.simps [of 0])
next
  case (Suc k)
  then have IH: "length (big_Bytes (n div 256)) \<le> k"
    "replicate (k - length (big_Bytes (n div 256))) 0 @ big_Bytes (n div 256) = be_bytes k (n div 256)"
    by (simp_all add: less_mult_imp_div_less mult.commute)
  show ?case
  proof (cases "n = 0")
    case True
    then have "be_bytes k 0 = replicate k 0" using IH by (simp add: big_Bytes.simps [of 0])
    then show ?thesis using True by (simp add: be_bytes_Suc big_Bytes.simps [of 0] replicate_append_same)
  next
    case False
    then have "big_Bytes n = big_Bytes (n div 256) @ [of_nat n]" by (simp add: big_Bytes.simps [of n] of_nat_byte_mod)
    then show ?thesis using IH by (simp add: be_bytes_Suc)
  qed
qed

lemma big_Bytes_length: "length (big_Bytes n) \<le> k \<longleftrightarrow> n < 256 ^ k"
proof
  show "n < 256 ^ k" if "length (big_Bytes n) \<le> k"
    using that
  proof (induction k arbitrary: n)
    case 0
    then show ?case by (simp add: big_Bytes.simps [of n] split: if_splits)
  next
    case (Suc k)
    then have "n = 0 \<or> n div 256 < 256 ^ k" by (simp add: big_Bytes.simps [of n] split: if_splits)
    then show ?case by (auto simp: div_less_iff_less_mult mult.commute)
  qed
qed (use big_Bytes_padded in blast)

lemma be_value_snoc [simp]: "be_value (bs @ [b]) = 256 * be_value bs + unat b"
  by (simp add: be_value_def)

lemma be_value_be_bytes: "n < 256 ^ k \<Longrightarrow> be_value (be_bytes k n) = n"
proof (induction k arbitrary: n)
  case 0
  then show ?case by (simp add: be_bytes_def be_value_def)
next
  case (Suc k)
  have "unat (of_nat n :: byte) = n mod 256" by (simp add: unat_of_nat)
  with Suc show ?case by (simp add: be_bytes_Suc less_mult_imp_div_less mult.commute)
qed

text \<open>Which private keys a host accepts. The bytes that are handed to libp2p are the 32 bytes of the key's number, most significant first,
  and they stand for that number; but this holds only from \<^verbatim>\<open>2^240\<close> on. A smaller key, which is as valid, is refused.\<close>

theorem host_key_range:
  "p2pPrivateFromEcdsaPrivate unmarshal D =
     (if 2 ^ 240 \<le> D \<and> D < 2 ^ 256 then wrapf ''error unmarshaling: %v'' (unmarshal (be_bytes 32 D))
      else Fail (Errorf ''error: length of private key must be 31 or 32 bytes'' [])) \<and>
   (D < 2 ^ 256 \<longrightarrow> length (be_bytes 32 D) = 32 \<and> be_value (be_bytes 32 D) = D)"
proof -
  have "length (big_Bytes D) = 32 \<or> length (big_Bytes D) = 31 \<longleftrightarrow> length (big_Bytes D) \<le> 32 \<and> \<not> length (big_Bytes D) \<le> 30" by linarith
  also have "\<dots> \<longleftrightarrow> 2 ^ 240 \<le> D \<and> D < 2 ^ 256" by (auto simp: big_Bytes_length not_less)
  finally have "length (big_Bytes D) \<noteq> 32 \<and> length (big_Bytes D) \<noteq> 31 \<longleftrightarrow> \<not> (2 ^ 240 \<le> D \<and> D < 2 ^ 256)" by blast
  moreover have "replicate (32 - length (big_Bytes D)) 0 @ big_Bytes D = be_bytes 32 D" if "D < 2 ^ 256"
    using big_Bytes_padded [of D 32] that by simp
  moreover have "be_value (be_bytes 32 D) = D" if "D < 2 ^ 256" using be_value_be_bytes [of D 32] that by simp
  moreover have "length (be_bytes 32 D) = 32" by (simp add: be_bytes_def)
  ultimately show ?thesis by (simp add: p2pPrivateFromEcdsaPrivate_def expectedKeySize_def Let_def)
qed

theorem host_key_range_witness:
  "p2pPrivateFromEcdsaPrivate (\<lambda>b. Ok b) 5 = Fail (Errorf ''error: length of private key must be 31 or 32 bytes'' []) \<and>
   be_value (be_bytes 32 5) = 5"
  using host_key_range [of "\<lambda>b. Ok b" 5] by simp

end
