(* ===== verification/Bootstrap.thy ===== *)
theory Bootstrap
  imports Host_Config "HOL-Library.Multiset"
begin

text \<open>
  \<^verbatim>\<open>src/p2p/bootstrap.go\<close> and \<^verbatim>\<open>LibP2PHost.Bootstrap\<close>, \<^verbatim>\<open>WaitForBootstrap\<close> of \<^verbatim>\<open>p2p.go\<close>: a host keeps itself connected by dialling some of its
  bootstrap peers whenever it has too few connections. The random permutation, the peers that are connected at
  a tick, and the answers of the network are arguments.
\<close>

section \<open>Bootstrap peers\<close>

definition defaultBootstrapNodes :: "string list" where
  "defaultBootstrapNodes =
     [''/ip4/18.196.112.81/tcp/34001/ipfs/16Uiu2HAmJXuoQMRqg4bShcBTczUMn8zMyCvXAPuefCtqZb21iih8'',
      ''/ip4/34.231.17.217/tcp/34001/ipfs/16Uiu2HAmLos2gmQLkVkiYF3JJBDW2WqZxCHoMb2fLmo77a2tqExF'']"

text \<open>\<^verbatim>\<open>env\<close> is the environment's \<^verbatim>\<open>TUPELO_BOOTSTRAP_NODES\<close>.\<close>

definition BootstrapNodes :: "string option \<Rightarrow> string list" where
  "BootstrapNodes env = (case env of Some envSpecifiedNodes \<Rightarrow> Split envSpecifiedNodes (CHR '','') | None \<Rightarrow> defaultBootstrapNodes)"

record AddrInfo =
  ai_ID :: string
  ai_Addrs :: "string list"

text \<open>\<^verbatim>\<open>StringCast\<close> panics on a bad address, and \<^verbatim>\<open>log.Fatal\<close> ends the process.\<close>

fun convertPeers :: "(string \<Rightarrow> 'ma res) \<Rightarrow> ('ma \<Rightarrow> AddrInfo res) \<Rightarrow> string list \<Rightarrow> AddrInfo list res" where
  "convertPeers new_addr AddrInfoFromP2pAddr [] = Ok []"
| "convertPeers new_addr AddrInfoFromP2pAddr (p # peers) =
     rbind (case new_addr p of Ok m \<Rightarrow> Ok m | _ \<Rightarrow> Panic ''multiaddr'') (\<lambda>maddr.
     rbind (case AddrInfoFromP2pAddr maddr of Ok ai \<Rightarrow> Ok ai | _ \<Rightarrow> Panic ''log.Fatal'') (\<lambda>ai.
     rbind (convertPeers new_addr AddrInfoFromP2pAddr peers) (\<lambda>ais. Ok (ai # ais))))"

section \<open>The bootstrapper\<close>

record Bootstrapper =
  bt_MinPeerThreshold :: int
  bt_bootstrapPeers :: "AddrInfo list"
  bt_dhtBootStarted :: bool

definition NewBootstrapper :: "AddrInfo list \<Rightarrow> int \<Rightarrow> Bootstrapper" where
  "NewBootstrapper bootstrapPeers minPeer =
     \<lparr>bt_MinPeerThreshold = minPeer, bt_bootstrapPeers = bootstrapPeers, bt_dhtBootStarted = False\<rparr>"

fun hasPID :: "string list \<Rightarrow> string \<Rightarrow> bool" where
  "hasPID [] pid = False"
| "hasPID (p # pids) pid = (if p = pid then True else hasPID pids pid)"

text \<open>The loop over the permutation: the peers that are dialled, until as many as needed were.\<close>

fun dial_loop :: "int \<Rightarrow> string list \<Rightarrow> AddrInfo list \<Rightarrow> int \<Rightarrow> nat list \<Rightarrow> AddrInfo list" where
  "dial_loop peersNeeded currentPeers bootstrapPeers peersAttempted [] = []"
| "dial_loop peersNeeded currentPeers bootstrapPeers peersAttempted (i # rest) =
     (let pinfo = bootstrapPeers ! i in
      if hasPID currentPeers (ai_ID pinfo) then dial_loop peersNeeded currentPeers bootstrapPeers peersAttempted rest
      else pinfo # (if peersAttempted + 1 = peersNeeded then []
                    else dial_loop peersNeeded currentPeers bootstrapPeers (peersAttempted + 1) rest))"

text \<open>The peers dialled, whether the routing table is bootstrapped now, and the state after it.\<close>

definition bootstrap :: "nat list \<Rightarrow> string list \<Rightarrow> Bootstrapper \<Rightarrow> (AddrInfo list \<times> bool) \<times> Bootstrapper" where
  "bootstrap perm currentPeers b =
     (let peersNeeded = bt_MinPeerThreshold b - int (length currentPeers) in
      if peersNeeded < 1 then (([], False), b)
      else ((dial_loop peersNeeded currentPeers (bt_bootstrapPeers b) 0 perm, \<not> bt_dhtBootStarted b),
            b\<lparr>bt_dhtBootStarted := True\<rparr>))"

text \<open>The goroutine of \<^verbatim>\<open>Start\<close>: one round at once and one at every tick, until the context is done.\<close>

fun Bootstrapper_Start :: "(nat list \<times> string list) list \<Rightarrow> Bootstrapper \<Rightarrow> (AddrInfo list \<times> bool) list \<times> Bootstrapper" where
  "Bootstrapper_Start [] b = ([], b)"
| "Bootstrapper_Start ((perm, peers) # ticks) b =
     (case bootstrap perm peers b of (d, b') \<Rightarrow> (case Bootstrapper_Start ticks b' of (ds, b'') \<Rightarrow> (d # ds, b'')))"

section \<open>Bootstrapping a host\<close>

text \<open>
  \<^verbatim>\<open>starts\<close> gives, for each discoverer in the order the map is visited, the answers to its start.
\<close>

definition minPeers :: "string list \<Rightarrow> int" where
  "minPeers peers = (if length peers < 4 then int (length peers) else 4)"

fun start_discoverers :: "(string \<times> unit res \<times> unit res) list \<Rightarrow> (discoverers, unit) eff" where
  "start_discoverers [] = eret ()"
| "start_discoverers ((namespace, advertise, found) # starts) =
     ebind (\<lambda>ds. case ds namespace of
         None \<Rightarrow> (Ok (), ds)
       | Some d \<Rightarrow> (case td_start advertise found d of (r, d') \<Rightarrow>
           (wrapf ''error starting discovery for %s: %v'' r, ds(namespace \<mapsto> d')))) (\<lambda>_.
     start_discoverers starts)"

definition Host_Bootstrap where
  "Host_Bootstrap new_addr AddrInfoFromP2pAddr starts peers h =
     (case convertPeers new_addr AddrInfoFromP2pAddr peers of
        Ok ais \<Rightarrow>
          let bootstrapper = NewBootstrapper ais (minPeers peers);
              h = h\<lparr>lh_bootstrapStarted := True\<rparr> in
          (case start_discoverers starts (lh_discoverers h) of (r, ds) \<Rightarrow>
             (rbind r (\<lambda>_. Ok bootstrapper), h\<lparr>lh_discoverers := ds\<rparr>))
      | Fail e \<Rightarrow> (Fail e, h)
      | Panic p \<Rightarrow> (Panic p, h))"

text \<open>\<^verbatim>\<open>ticks\<close>: the numbers of connected peers at the ticks before the timeout.\<close>

fun wait_ticks :: "int \<Rightarrow> nat list \<Rightarrow> unit res" where
  "wait_ticks peerCount [] = Fail (Errorf ''timeout waiting for bootstrap'' [])"
| "wait_ticks peerCount (connected # ticks) = (if int connected \<ge> peerCount then Ok () else wait_ticks peerCount ticks)"

definition WaitForBootstrap where
  "WaitForBootstrap peerCount ticks h =
     (if \<not> lh_bootstrapStarted h then Fail (Errorf ''error must call Bootstrap() before calling WaitForBootstrap'' [])
      else wait_ticks peerCount ticks)"

section \<open>What is dialled\<close>

lemma hasPID_iff: "hasPID pids pid \<longleftrightarrow> pid \<in> set pids"
  by (induction pids) auto

lemma dial_loop_eq:
  assumes "k < need"
  shows "dial_loop need cur peers k js = take (nat (need - k)) (filter (\<lambda>p. ai_ID p \<notin> set cur) (map (\<lambda>i. peers ! i) js))"
  using assms
proof (induction js arbitrary: k)
  case (Cons i js)
  have "nat (need - k) = Suc (nat (need - (k + 1)))" using Cons.prems by simp
  then show ?case using Cons by (auto simp: Let_def hasPID_iff)
qed simp

lemma dhtBootStarted_once:
  "Bootstrapper_Start ticks b = (ds, b') \<Longrightarrow> length (filter snd ds) \<le> (if bt_dhtBootStarted b then 0 else 1)"
proof (induction ticks arbitrary: b ds)
  case (Cons t ticks)
  obtain perm peers where t: "t = (perm, peers)" by fastforce
  obtain d b1 ds' where "bootstrap perm peers b = (d, b1)" "Bootstrapper_Start ticks b1 = (ds', b')" "ds = d # ds'"
    using Cons.prems t by (auto split: prod.splits)
  with Cons.IH [of b1 ds'] show ?case by (auto simp: bootstrap_def Let_def split: if_splits)
qed simp

text \<open>C40: a host dials neither too much nor too little. In a round of bootstrapping with any permutation, the peers dialled are bootstrap peers, each
  at most as often as it is listed, none of them already connected; together with the connected ones they are exactly as many as the threshold asks for, unless there are not
  enough. Over any sequence of rounds the routing table is bootstrapped at most once.\<close>

theorem bootstrap_exact:
  assumes "mset perm = mset [0..<length (bt_bootstrapPeers b)]" "bootstrap perm cur b = ((dialled, dht), b')"
  shows "mset dialled \<subseteq># filter_mset (\<lambda>p. ai_ID p \<notin> set cur) (mset (bt_bootstrapPeers b)) \<and>
    int (length dialled) = min (max 0 (bt_MinPeerThreshold b - int (length cur)))
      (int (length (filter (\<lambda>p. ai_ID p \<notin> set cur) (bt_bootstrapPeers b)))) \<and>
    bt_bootstrapPeers b' = bt_bootstrapPeers b \<and> bt_MinPeerThreshold b' = bt_MinPeerThreshold b \<and>
    (\<forall>ticks ds b''. Bootstrapper_Start ticks b = (ds, b'') \<longrightarrow> length (filter snd ds) \<le> 1)"
proof -
  let ?peers = "bt_bootstrapPeers b" and ?fresh = "\<lambda>p. ai_ID p \<notin> set cur"
  let ?need = "bt_MinPeerThreshold b - int (length cur)" and ?dial = "filter ?fresh (map (\<lambda>i. bt_bootstrapPeers b ! i) perm)"
  have "mset (map (\<lambda>i. ?peers ! i) perm) = mset ?peers"
    using arg_cong [OF assms(1), of "image_mset (\<lambda>i. ?peers ! i)"] map_nth [of ?peers] by (metis mset_map)
  then have perm: "mset ?dial = filter_mset ?fresh (mset ?peers)" by simp
  then have len: "length ?dial = length (filter ?fresh ?peers)" by (metis mset_filter size_mset)
  have dialled: "dialled = (if ?need < 1 then [] else take (nat ?need) ?dial)"
    and b': "bt_bootstrapPeers b' = ?peers" "bt_MinPeerThreshold b' = bt_MinPeerThreshold b"
    using assms(2) dial_loop_eq [of 0 ?need cur ?peers perm] by (auto simp: bootstrap_def Let_def split: if_splits)
  have "mset (take k xs) \<subseteq># mset xs" for k and xs :: "AddrInfo list"
    using mset_subset_eq_add_left [of "mset (take k xs)" "mset (drop k xs)"] by (simp flip: mset_append)
  then have "mset dialled \<subseteq># mset ?dial" unfolding dialled by (simp del: mset_filter)
  moreover have "int (length dialled) = min (max 0 ?need) (int (length ?dial))" unfolding dialled by auto
  moreover have "length (filter snd ds) \<le> 1" if "Bootstrapper_Start ticks b = (ds, b'')" for ticks ds b''
    using dhtBootStarted_once [OF that] by (auto split: if_splits)
  ultimately show ?thesis using perm len b' by auto
qed

definition ref_peer :: "string \<Rightarrow> AddrInfo" where
  "ref_peer i = \<lparr>ai_ID = i, ai_Addrs = []\<rparr>"

theorem bootstrap_exact_witness:
  "length (fst (fst (bootstrap [2, 0, 1] [''b'', ''z''] (NewBootstrapper (map ref_peer [''a'', ''b'', ''c'']) 3)))) = 1"
proof -
  let ?b = "NewBootstrapper (map ref_peer [''a'', ''b'', ''c'']) 3"
  obtain d t b' where run: "bootstrap [2, 0, 1] [''b'', ''z''] ?b = ((d, t), b')" by (metis prod.exhaust)
  have "mset [2, 0, 1] = mset [0..<length (bt_bootstrapPeers ?b)]" by (simp add: NewBootstrapper_def upt_rec numeral_eq_Suc)
  from bootstrap_exact [OF this run] run show ?thesis by (simp add: NewBootstrapper_def ref_peer_def)
qed

end
