(* ===== verification/Host_Streams.thy ===== *)
theory Host_Streams
  imports Bootstrap Client_Config
begin

text \<open>
  The other operations of \<^verbatim>\<open>src/p2p/p2p.go\<close>: keys and peer ids, streams, connections, addresses; and the start hook of a
  client with a host of its own (\<^verbatim>\<open>defaultP2P\<close> of \<^verbatim>\<open>src/gossip/client/config.go\<close>). \<^verbatim>\<open>'w\<close> is the network.
\<close>

section \<open>Keys and peers\<close>

datatype 'e libp2p_key = Secp256k1PublicKey 'e | OtherKey string

record ('e, 'pid, 'str, 'w) stream_lib =
  IDFromPublicKey :: "'e libp2p_key \<Rightarrow> 'pid res"
  ExtractPublicKey :: "'pid \<Rightarrow> 'e libp2p_key res"
  host_NewStream :: "'pid \<Rightarrow> string \<Rightarrow> ('w, 'str) eff"
  host_Connect :: "'pid \<Rightarrow> ('w, unit) eff"
  network_ClosePeer :: "'pid \<Rightarrow> ('w, unit) eff"
  stream_Write :: "'str \<Rightarrow> bytes \<Rightarrow> ('w, nat) eff"
  stream_Close :: "'str \<Rightarrow> 'w \<Rightarrow> 'w"
  stream_ReadAll :: "'str \<Rightarrow> ('w, bytes) eff"

definition p2pPublicKeyFromEcdsaPublic :: "'e \<Rightarrow> 'e libp2p_key" where
  "p2pPublicKeyFromEcdsaPublic key = Secp256k1PublicKey key"

definition PeerFromEcdsaKey where
  "PeerFromEcdsaKey B publicKey = IDFromPublicKey B (p2pPublicKeyFromEcdsaPublic publicKey)"

definition PeerIDFromPublicKey where
  "PeerIDFromPublicKey B publicKey = IDFromPublicKey B (p2pPublicKeyFromEcdsaPublic publicKey)"

definition EcdsaKeyFromPeer where
  "EcdsaKeyFromPeer B pid =
     rbind (wrapf ''error extracting pubkey from peer: %v'' (ExtractPublicKey B pid)) (\<lambda>pubkey.
     case pubkey of
       Secp256k1PublicKey k \<Rightarrow> Ok k
     | OtherKey t \<Rightarrow> Fail (Errorf ''unsupported key type %s from peer id, must be Secp256k1'' []))"

lemma peer_roundtrip:
  assumes "\<And>k p. IDFromPublicKey B k = Ok p \<Longrightarrow> ExtractPublicKey B p = Ok k" "PeerFromEcdsaKey B key = Ok p"
  shows "EcdsaKeyFromPeer B p = Ok key"
  using assms by (simp add: PeerFromEcdsaKey_def EcdsaKeyFromPeer_def p2pPublicKeyFromEcdsaPublic_def)

section \<open>Streams and connections\<close>

definition ErrDialBackoff :: goerr where
  "ErrDialBackoff = Sentinel ''dial backoff''"

definition stream_error :: "'a res \<Rightarrow> 'a res" where
  "stream_error r = (case r of
     Fail e \<Rightarrow> if e = ErrDialBackoff then Fail ErrDialBackoff else Fail (Errorf ''Error opening stream: %v'' [e])
   | r \<Rightarrow> r)"

definition NewStreamWithPeerID where
  "NewStreamWithPeerID B peerID protocol w = (case host_NewStream B peerID protocol w of (r, w') \<Rightarrow> (stream_error r, w'))"

definition peer_of where
  "peer_of B publicKey =
     wrapf ''Could not convert public key to peer id: %v'' (IDFromPublicKey B (p2pPublicKeyFromEcdsaPublic publicKey))"

definition NewStream where
  "NewStream B publicKey protocol = ebind (elift (peer_of B publicKey)) (\<lambda>peerID. NewStreamWithPeerID B peerID protocol)"

definition Connect where
  "Connect B publicKey = ebind (elift (peer_of B publicKey)) (\<lambda>peerID. host_Connect B peerID)"

definition Disconnect where
  "Disconnect B publicKey = ebind (elift (peer_of B publicKey)) (\<lambda>peerID. network_ClosePeer B peerID)"

text \<open>The stream is closed by \<^verbatim>\<open>defer\<close>, whatever the write returns.\<close>

definition Host_Send where
  "Host_Send B publicKey protocol payload =
     ebind (ewrapf ''Error opening new stream: %v'' (NewStream B publicKey protocol)) (\<lambda>stream w.
     case stream_Write B stream payload w of (r, w') \<Rightarrow>
       (rbind (wrapf ''Error writing message: %v'' r) (\<lambda>n. Ok ()), stream_Close B stream w'))"

text \<open>Closed for writing before the answer is read.\<close>

definition SendAndReceive where
  "SendAndReceive B publicKey protocol payload w =
     (case NewStream B publicKey protocol w of
        (Fail e, w') \<Rightarrow> (Fail (Errorf ''error creating new stream'' []), w')
      | (Panic p, w') \<Rightarrow> (Panic p, w')
      | (Ok stream, w') \<Rightarrow>
          (case stream_Write B stream payload w' of
             (Fail e, w'') \<Rightarrow> (Fail (Errorf ''Error writing message: %v'' [e]), stream_Close B stream w'')
           | (Panic p, w'') \<Rightarrow> (Panic p, w'')
           | (Ok n, w'') \<Rightarrow> stream_ReadAll B stream (stream_Close B stream w'')))"

definition Addresses where
  "Addresses Encapsulate hostAddr addrs = map (\<lambda>addr. Encapsulate addr hostAddr) addrs"

text \<open>A stream that was opened is closed, on every path without a panic.\<close>

lemma Send_closes:
  assumes "NewStream B key protocol w = (Ok stream, w1)" "Host_Send B key protocol payload w = (r, w')"
  shows "\<exists>w2. w' = stream_Close B stream w2"
  using assms by (auto simp: Host_Send_def ebind_def ewrapf_def split: prod.splits)

lemma SendAndReceive_closes:
  assumes "NewStream B key protocol w = (Ok stream, w1)" "SendAndReceive B key protocol payload w = (r, w')"
    "\<And>p. fst (stream_Write B stream payload w1) \<noteq> Panic p"
  shows "\<exists>w2. w' = stream_Close B stream w2 \<or> (r, w') = stream_ReadAll B stream (stream_Close B stream w2)"
  using assms by (auto simp: SendAndReceive_def split: prod.splits res.splits) metis

section \<open>The start hook of a client\<close>

text \<open>\<^verbatim>\<open>starts\<close> and \<^verbatim>\<open>ticks\<close> as for \<^verbatim>\<open>Bootstrap\<close> and \<^verbatim>\<open>WaitForBootstrap\<close>.\<close>

definition p2p_start_hook where
  "p2p_start_hook new_addr AddrInfoFromP2pAddr starts ticks ng =
     ebind (ewrapf ''error bootstrapping: %w''
       (Host_Bootstrap new_addr AddrInfoFromP2pAddr starts (cfg_BootstrapAddresses (Config_of ng)))) (\<lambda>_.
     eread (WaitForBootstrap (1 + int (length (cfg_Signers (Config_of ng)) div 2)) ticks))"

lemma wait_ticks_Ok: "wait_ticks n ticks = Ok () \<longleftrightarrow> (\<exists>c \<in> set ticks. n \<le> int c)"
  by (induction ticks) auto

text \<open>A client with its own host has started only when more than half as many peers are connected as the group has signers.\<close>

lemma p2p_start_hook_connected:
  assumes "p2p_start_hook new_addr ai starts ticks ng h = (Ok (), h')"
  shows "\<exists>c \<in> set ticks. length (cfg_Signers (Config_of ng)) < 2 * c"
proof -
  have "wait_ticks (1 + int (length (cfg_Signers (Config_of ng)) div 2)) ticks = Ok ()"
    using assms by (auto simp: p2p_start_hook_def go_ok WaitForBootstrap_def split: if_splits)
  then obtain c where "c \<in> set ticks" "1 + int (length (cfg_Signers (Config_of ng)) div 2) \<le> int c"
    by (auto simp: wait_ticks_Ok)
  then show ?thesis by (intro bexI [of _ c]) auto
qed

end
