(* ===== verification/Host_Services.thy ===== *)
theory Host_Services
  imports Host_Streams
begin

text \<open>
  What a host offers besides connections: \<^verbatim>\<open>src/p2p/bitswap.go\<close>, the accessors and forwarders of \<^verbatim>\<open>src/p2p/p2p.go\<close>, the life of the bootstrapper
  (\<^verbatim>\<open>src/p2p/bootstrap.go\<close>), the wrapper of libp2p's pubsub in \<^verbatim>\<open>src/gossip/client/pubsubinterfaces\<close>, and the
  standalone server (\<^verbatim>\<open>src/p2p/standalone\<close>). The libraries behind them are arguments.
\<close>

section \<open>Bitswap\<close>

record ('dag, 'bs) BitswapPeer =
  bp_DAGService :: 'dag
  bp_bstore :: 'bs

record ('hst, 'rt, 'net, 'opt, 'bs, 'swap, 'serv, 'dag, 'ng) bitswap_lib =
  NewFromIpfsHost :: "'hst \<Rightarrow> 'rt \<Rightarrow> 'net"
  bitswap_New :: "'net \<Rightarrow> 'bs \<Rightarrow> 'opt list \<Rightarrow> 'swap"
  blockservice_New :: "'bs \<Rightarrow> 'swap \<Rightarrow> 'serv"
  NewDAGService :: "'serv \<Rightarrow> 'dag"
  NewSession :: "'dag \<Rightarrow> 'ng"

text \<open>\<^verbatim>\<open>routing\<close> is the routing table that the host's routing option made.\<close>

definition NewBitswapPeer ::
  "('hst, 'rt, 'net, 'opt, 'bs, 'swap, 'serv, 'dag, 'ng) bitswap_lib \<Rightarrow> 'rt \<Rightarrow> ('e, 'rep, 'ds, 'bs, 'hst, 'pub) LibP2PHost \<Rightarrow> 'opt list \<Rightarrow>
     ('dag, 'bs) BitswapPeer res" where
  "NewBitswapPeer BL routing host bitswapOpts =
     (let bswapnet = NewFromIpfsHost BL (lh_host host) routing;
          bswap = bitswap_New BL bswapnet (lh_blockstore host) bitswapOpts;
          bserv = blockservice_New BL (lh_blockstore host) bswap;
          dags = NewDAGService BL bserv in
      Ok \<lparr>bp_DAGService = dags, bp_bstore = lh_blockstore host\<rparr>)"

definition bp_Session :: "('hst, 'rt, 'net, 'opt, 'bs, 'swap, 'serv, 'dag, 'ng) bitswap_lib \<Rightarrow> ('dag, 'bs) BitswapPeer \<Rightarrow> 'ng" where
  "bp_Session BL bp = NewSession BL (bp_DAGService bp)"

definition bp_BlockStore :: "('dag, 'bs) BitswapPeer \<Rightarrow> 'bs" where
  "bp_BlockStore bp = bp_bstore bp"

definition HasBlock :: "('bs \<Rightarrow> cid \<Rightarrow> bool res) \<Rightarrow> ('dag, 'bs) BitswapPeer \<Rightarrow> cid \<Rightarrow> bool res" where
  "HasBlock bs_Has bp c = bs_Has (bp_BlockStore bp) c"

lemma applied_options:
  "(case r of (Ok x, c) \<Rightarrow> f c | (Fail e, c) \<Rightarrow> Fail (g e) | (Panic p, c) \<Rightarrow> Panic p) = Ok y \<longleftrightarrow> (\<exists>c. r = (Ok (), c) \<and> f c = Ok y)"
  by (cases r; cases "fst r") auto

text \<open>A host and the peer that is made with it share one store of blocks: the host's, which is the configured one if one was configured.\<close>

lemma host_and_peer_share_store:
  assumes "NewHostAndBitSwapPeer B gen_key pubsub_opts reporter store (NewBitswapPeer BL routing) userOpts = Ok (h, peer)"
  shows "bp_BlockStore peer = lh_blockstore h \<and> HasBlock bs_Has peer c = bs_Has (lh_blockstore h) c"
  using assms
  by (auto simp: NewHostAndBitSwapPeer_def applied_options NewBitswapPeer_def bp_BlockStore_def HasBlock_def rbind_Ok_iff Let_def)

lemma configured_store_is_used:
  assumes "newLibP2PHostFromConfig B c = Ok h" "hcf_Blockstore c = Some bs"
  shows "lh_blockstore h = bs"
  using assms by (auto simp: newLibP2PHostFromConfig_def rbind_Ok_iff)

section \<open>Accessors and forwarders\<close>

definition Host_PublicKey :: "('e, 'rep, 'ds, 'bs, 'hst, 'pub) LibP2PHost \<Rightarrow> 'e" where
  "Host_PublicKey h = lh_publicKey h"

text \<open>\<^verbatim>\<open>host_ID\<close> and \<^verbatim>\<open>Pretty\<close> are libp2p's.\<close>

definition Host_Identity :: "('hst \<Rightarrow> 'pid) \<Rightarrow> ('pid \<Rightarrow> string) \<Rightarrow> ('e, 'rep, 'ds, 'bs, 'hst, 'pub) LibP2PHost \<Rightarrow> string" where
  "Host_Identity host_ID Pretty h = Pretty (host_ID (lh_host h))"

definition GetPubSub :: "('e, 'rep, 'ds, 'bs, 'hst, 'pub) LibP2PHost \<Rightarrow> 'pub" where
  "GetPubSub h = lh_pubsub h"

definition Host_SetStreamHandler ::
  "('hst \<Rightarrow> 'prot \<Rightarrow> 'handler \<Rightarrow> 'w \<Rightarrow> 'w) \<Rightarrow> ('e, 'rep, 'ds, 'bs, 'hst, 'pub) LibP2PHost \<Rightarrow> 'prot \<Rightarrow> 'handler \<Rightarrow> 'w \<Rightarrow> 'w" where
  "Host_SetStreamHandler set_handler h protocol handler = set_handler (lh_host h) protocol handler"

definition Host_Subscribe ::
  "('pub \<Rightarrow> string \<Rightarrow> 'opt list \<Rightarrow> ('w, 'sub) eff) \<Rightarrow> ('e, 'rep, 'ds, 'bs, 'hst, 'pub) LibP2PHost \<Rightarrow> string \<Rightarrow> 'opt list \<Rightarrow> ('w, 'sub) eff" where
  "Host_Subscribe pub_Subscribe h topic opts = pub_Subscribe (lh_pubsub h) topic opts"

definition Host_Publish ::
  "('pub \<Rightarrow> string \<Rightarrow> bytes \<Rightarrow> ('w, unit) eff) \<Rightarrow> ('e, 'rep, 'ds, 'bs, 'hst, 'pub) LibP2PHost \<Rightarrow> string \<Rightarrow> bytes \<Rightarrow> ('w, unit) eff" where
  "Host_Publish pub_Publish h topic data = pub_Publish (lh_pubsub h) topic data"

section \<open>The wrapper of pubsub\<close>

record ('pub, 'sub, 'msg, 'w) libp2p_pubsub =
  ps_Subscribe :: "'pub \<Rightarrow> string \<Rightarrow> ('w, 'sub) eff"
  ps_Publish :: "'pub \<Rightarrow> string \<Rightarrow> bytes \<Rightarrow> ('w, unit) eff"
  sub_Next :: "'sub \<Rightarrow> ('w, 'msg) eff"

record 'pub libp2pWrapper =
  lw_PubSub :: 'pub

text \<open>The wrapped subscription; \<^verbatim>\<open>None\<close> inside a wrapper that is there is a nil subscription.\<close>

record 'sub libp2pSubscriptionWrapper =
  lsw_Subscription :: "'sub option"

definition WrapLibp2p :: "'pub \<Rightarrow> 'pub libp2pWrapper" where
  "WrapLibp2p libp2ppubsub = \<lparr>lw_PubSub = libp2ppubsub\<rparr>"

text \<open>Both results of \<^verbatim>\<open>Subscribe\<close>: the wrapper is made whether or not there is an error.\<close>

definition lw_Subscribe ::
  "('pub, 'sub, 'msg, 'w) libp2p_pubsub \<Rightarrow> 'pub libp2pWrapper \<Rightarrow> string \<Rightarrow> 'w \<Rightarrow> ('sub libp2pSubscriptionWrapper \<times> goerr option) res \<times> 'w" where
  "lw_Subscribe P lpw topic w = (case ps_Subscribe P (lw_PubSub lpw) topic w of
     (Ok sub, w') \<Rightarrow> (Ok (\<lparr>lsw_Subscription = Some sub\<rparr>, None), w')
   | (Fail e, w') \<Rightarrow> (Ok (\<lparr>lsw_Subscription = None\<rparr>, Some e), w')
   | (Panic p, w') \<Rightarrow> (Panic p, w'))"

definition lw_Publish :: "('pub, 'sub, 'msg, 'w) libp2p_pubsub \<Rightarrow> 'pub libp2pWrapper \<Rightarrow> string \<Rightarrow> bytes \<Rightarrow> ('w, unit) eff" where
  "lw_Publish P lpw topic data = ps_Publish P (lw_PubSub lpw) topic data"

definition lsw_Next :: "('pub, 'sub, 'msg, 'w) libp2p_pubsub \<Rightarrow> 'sub libp2pSubscriptionWrapper \<Rightarrow> ('w, 'msg) eff" where
  "lsw_Next P lpsw w = (case lsw_Subscription lpsw of
     None \<Rightarrow> (Panic ''invalid memory address or nil pointer dereference'', w)
   | Some sub \<Rightarrow> sub_Next P sub w)"

text \<open>Seen through the interface the wrapper is the pubsub itself for callers that look at the error first.\<close>

lemma wrapper_forwards:
  assumes "lw_Subscribe P (WrapLibp2p pub) topic w = (Ok (sub, None), w')"
  shows "\<exists>s. ps_Subscribe P pub topic w = (Ok s, w') \<and> lsw_Next P sub = sub_Next P s"
  using assms by (auto simp: lw_Subscribe_def WrapLibp2p_def lsw_Next_def split: prod.splits res.splits)

section \<open>The life of the bootstrapper\<close>

text \<open>What its goroutine meets after the first round: a tick with what is connected then, or the end of its context.\<close>

datatype boot_event = Boot_tick "nat list" "string list" | Boot_done

fun boot_loop :: "boot_event list \<Rightarrow> Bootstrapper \<Rightarrow> (AddrInfo list \<times> bool) list \<times> Bootstrapper" where
  "boot_loop [] b = ([], b)"
| "boot_loop (Boot_done # evs) b = ([], b)"
| "boot_loop (Boot_tick perm peers # evs) b =
     (case bootstrap perm peers b of (d, b') \<Rightarrow> (case boot_loop evs b' of (ds, b'') \<Rightarrow> (d # ds, b'')))"

text \<open>\<^verbatim>\<open>cancel\<close> is nil before \<^verbatim>\<open>Start\<close>; afterwards it says whether the context was cancelled.\<close>

definition Bootstrapper_Stop :: "bool option \<Rightarrow> bool option" where
  "Bootstrapper_Stop cancel = (case cancel of None \<Rightarrow> None | Some _ \<Rightarrow> Some True)"

definition Bootstrapper_Close :: "(bool option, unit) eff" where
  "Bootstrapper_Close cancel = (Ok (), Bootstrapper_Stop cancel)"

text \<open>\<^verbatim>\<open>dht\<close> is the answer of \<^verbatim>\<open>BootstrapWithConfig\<close> if the routing is the IPFS table.\<close>

definition bootstrapRouting :: "unit res option \<Rightarrow> unit res" where
  "bootstrapRouting dht = (case dht of None \<Rightarrow> Ok () | Some answer \<Rightarrow> answer)"

lemma boot_loop_stops: "boot_loop (evs @ Boot_done # rest) b = boot_loop evs b"
  by (induction evs b rule: boot_loop.induct) (auto split: prod.split)

lemma boot_loop_ticks: "boot_loop (map (\<lambda>(perm, peers). Boot_tick perm peers) ticks) b = Bootstrapper_Start ticks b"
  by (induction ticks b rule: Bootstrapper_Start.induct) (auto split: prod.split)

text \<open>Closing twice, or before the start, is harmless.\<close>

lemma Close_idempotent: "Bootstrapper_Close (Bootstrapper_Stop c) = (Ok (), Bootstrapper_Stop c)"
  by (cases c) (simp_all add: Bootstrapper_Close_def Bootstrapper_Stop_def)

section \<open>The standalone server\<close>

definition startServer where
  "startServer B gen_key gen_default pubsub_opts reporter store =
     rbind (wrapf ''error generating key'' gen_key) (\<lambda>key.
     NewHostFromOptions B gen_default pubsub_opts reporter store [WithKey (Some key), WithWebSockets 0])"

text \<open>The loop that publishes, over the answers to its calls: the messages that were sent, and whether the last answer ended the program.\<close>

fun standalone_loop :: "int \<Rightarrow> unit res list \<Rightarrow> (string \<times> bytes) list \<times> bool" where
  "standalone_loop i [] = ([], False)"
| "standalone_loop i (answer # answers) =
     (let msg = ''hi - '' @ show_int i in
      case answer of
        Ok _ \<Rightarrow> (case standalone_loop (i + 1) answers of (sent, ended) \<Rightarrow> ((''test'', bytes_of msg) # sent, ended))
      | _ \<Rightarrow> ([(''test'', bytes_of msg)], True))"

text \<open>The server listens on a websocket beside the default address, with the key it was started with.\<close>

lemma startServer_listens:
  assumes "startServer B gen_key gen_default pubsub_opts reporter store = Ok h"
  shows "\<exists>key. \<exists>c :: (_, _, _, _, _, _) HostConfig. gen_key = Ok key \<and> newLibP2PHostFromConfig B c = Ok h \<and> hcf_PrivateKey c = Some key \<and>
    listen_addrs c = [''/ip4/0.0.0.0/tcp/0'', ''/ip4/0.0.0.0/tcp/0/ws'']"
proof -
  obtain key where key: "gen_key = Ok key"
    and run: "NewHostFromOptions B gen_default pubsub_opts reporter store [WithKey (Some key), WithWebSockets 0] = Ok h"
    using assms by (auto simp: startServer_def rbind_Ok_iff)
  have port: "show_int 0 = ''0''" by (simp add: show_int_def decimal.simps) code_simp
  from run obtain c opts where host: "newLibP2PHostFromConfig B c = Ok h"
    and opts: "defaultOptions gen_default pubsub_opts reporter store = Ok opts" "p2p_applyOptions (opts @ [WithKey (Some key), WithWebSockets 0]) empty_HostConfig = (Ok (), c)"
    by (auto simp: NewHostFromOptions_def rbind_Ok_iff applied_options)
  from opts have "hcf_PrivateKey c = Some key" "listen_addrs c = [''/ip4/0.0.0.0/tcp/0'', ''/ip4/0.0.0.0/tcp/0/ws'']"
    by (auto simp: defaultOptions_def rbind_Ok_iff WithKey_def WithWebSockets_def WithPubSubRouter_def
        supportedGossipTypes_def WithPubSubOptions_def WithNATMap_def WithListenIP_def WithBandwidthReporter_def WithDatastore_def ebind_def ewrapf_def
        eret_def listen_addrs_def ip4_tcp_def port empty_HostConfig_def)
  with key host show ?thesis by blast
qed

lemma standalone_counts:
  assumes "list_all is_ok answers"
  shows "standalone_loop i answers = (map (\<lambda>k. (''test'', bytes_of (''hi - '' @ show_int (i + int k)))) [0..<length answers], False)"
  using assms
proof (induction answers arbitrary: i)
  case (Cons a answers)
  then obtain u where "a = Ok u" by (cases a) auto
  with Cons show ?case
    by (simp add: Let_def upt_conv_Cons map_Suc_upt [symmetric] o_def add.assoc del: upt_Suc)
qed simp

end
