(* ===== verification/Js_Then.thy ===== *)
theory Js_Then
  imports Prelude
begin

text \<open>
  \<^verbatim>\<open>src/wasm/then/then.go\<close>: the awaitable object that the wasm client hands to JavaScript. JavaScript values and
  functions are opaque; a call started in a goroutine is an entry in the list of calls made.
\<close>

section \<open>The object\<close>

text \<open>\<^verbatim>\<open>'v\<close> are the non-nil values of \<^verbatim>\<open>interface{}\<close>, \<^verbatim>\<open>'f\<close> the JavaScript functions; \<^verbatim>\<open>th_calls\<close>: a callback and its argument, \<^verbatim>\<open>None\<close> for nil.\<close>

record ('v, 'f) Then =
  th_result :: "'v option"
  th_err :: "'v option"
  th_resolveCbs :: "'f list"
  th_errorCbs :: "'f list"
  th_calls :: "('f \<times> 'v option) list"

definition Then_New :: "('v, 'f) Then" where
  "Then_New = \<lparr>th_result = None, th_err = None, th_resolveCbs = [], th_errorCbs = [], th_calls = []\<rparr>"

text \<open>A \<^verbatim>\<open>reject\<close> that is not truthy is \<^verbatim>\<open>None\<close>.\<close>

definition handleJSThenCall :: "'f \<Rightarrow> 'f option \<Rightarrow> ('v, 'f) Then \<Rightarrow> ('v, 'f) Then" where
  "handleJSThenCall resolve reject t =
     (case th_result t of
        Some r \<Rightarrow> t\<lparr>th_calls := th_calls t @ [(resolve, Some r)]\<rparr>
      | None \<Rightarrow> (case th_err t of
          Some e \<Rightarrow> (case reject of Some rej \<Rightarrow> t\<lparr>th_calls := th_calls t @ [(rej, Some e)]\<rparr> | None \<Rightarrow> t)
        | None \<Rightarrow>
            let t = t\<lparr>th_resolveCbs := th_resolveCbs t @ [resolve]\<rparr> in
            (case reject of Some rej \<Rightarrow> t\<lparr>th_errorCbs := th_errorCbs t @ [rej]\<rparr> | None \<Rightarrow> t)))"

text \<open>The function that JavaScript calls as \<^verbatim>\<open>then\<close>; handing it no or more than two arguments yields an error value, and
  what the arguments are is not looked at. \<^verbatim>\<open>truthy\<close>: which JavaScript values are.\<close>

definition js_then :: "('f \<Rightarrow> bool) \<Rightarrow> 'f list \<Rightarrow> (('v, 'f) Then, unit) eff" where
  "js_then truthy args t = (case args of
     [resolve] \<Rightarrow> (Ok (), handleJSThenCall resolve None t)
   | [resolve, reject] \<Rightarrow> (Ok (), handleJSThenCall resolve (if truthy reject then Some reject else None) t)
   | _ \<Rightarrow> (Fail (Errorf ''error, must specify at least a resolve'' []), t))"

definition Then_Resolve :: "'v option \<Rightarrow> ('v, 'f) Then \<Rightarrow> ('v, 'f) Then" where
  "Then_Resolve res t = t\<lparr>th_result := res, th_calls := th_calls t @ map (\<lambda>cb. (cb, res)) (th_resolveCbs t), th_resolveCbs := []\<rparr>"

definition Then_Reject :: "'v option \<Rightarrow> ('v, 'f) Then \<Rightarrow> ('v, 'f) Then" where
  "Then_Reject err t = t\<lparr>th_err := err, th_calls := th_calls t @ map (\<lambda>cb. (cb, err)) (th_errorCbs t), th_errorCbs := []\<rparr>"

section \<open>Awaiting\<close>

datatype ('v, 'f) then_op = Await 'f "'f option" | Settle "'v option"

fun run_then :: "('v, 'f) then_op list \<Rightarrow> ('v, 'f) Then \<Rightarrow> ('v, 'f) Then" where
  "run_then [] t = t"
| "run_then (Await f g # ops) t = run_then ops (handleJSThenCall f g t)"
| "run_then (Settle v # ops) t = run_then ops (Then_Resolve v t)"

fun awaits :: "('v, 'f) then_op list \<Rightarrow> 'f list" where
  "awaits [] = []"
| "awaits (Await f g # ops) = f # awaits ops"
| "awaits (Settle v # ops) = awaits ops"

lemma run_then_append: "run_then (xs @ ys) t = run_then ys (run_then xs t)"
  by (induction xs t rule: run_then.induct) simp_all

lemma awaits_before:
  assumes "th_result t = None" "th_err t = None" "awaits ops = fs" "\<forall>v. Settle v \<notin> set ops"
  shows "th_result (run_then ops t) = None \<and> th_err (run_then ops t) = None \<and>
    th_resolveCbs (run_then ops t) = th_resolveCbs t @ fs \<and> th_calls (run_then ops t) = th_calls t"
  using assms
proof (induction ops arbitrary: t fs)
  case (Cons op ops)
  obtain f g where op: "op = Await f g" using Cons.prems(4) by (cases op) auto
  show ?case
    using Cons.IH [of "handleJSThenCall f g t" "awaits ops"] Cons.prems op
    by (auto simp: handleJSThenCall_def Let_def split: option.splits)
qed simp

lemma awaits_after:
  assumes "th_result t = Some v" "awaits ops = fs" "\<forall>v. Settle v \<notin> set ops"
  shows "th_calls (run_then ops t) = th_calls t @ map (\<lambda>f. (f, Some v)) fs"
  using assms
proof (induction ops arbitrary: t fs)
  case (Cons op ops)
  obtain f g where op: "op = Await f g" using Cons.prems(3) by (cases op) auto
  show ?case using Cons.IH [of "handleJSThenCall f g t" "awaits ops"] Cons.prems op by (auto simp: handleJSThenCall_def)
qed simp

text \<open>Awaiting a result. If the object is resolved once, with a value, then every callback that was registered before it or comes after
  it is called exactly once, with that value, and the calls are started in the order they came. If it is resolved with nil, which is what the wait for the
  first round does, the callbacks registered before it are called, but those that come after it never are.\<close>

theorem await_once:
  fixes xs ys :: "('v, 'f) then_op list"
  assumes "\<forall>v. Settle v \<notin> set (xs @ ys)"
  shows "th_calls (run_then (xs @ Settle (Some v) # ys) Then_New) = map (\<lambda>f. (f, Some v)) (awaits xs @ awaits ys) \<and>
    th_calls (run_then (xs @ Settle None # ys) Then_New) = map (\<lambda>f. (f, None)) (awaits xs)"
proof -
  let ?t = "run_then xs (Then_New :: ('v, 'f) Then)"
  have t: "th_result ?t = None" "th_err ?t = None" "th_resolveCbs ?t = awaits xs" "th_calls ?t = []"
    using awaits_before [of "Then_New :: ('v, 'f) Then" xs] assms by (auto simp: Then_New_def)
  have some: "th_result (Then_Resolve (Some v) ?t) = Some v" "th_calls (Then_Resolve (Some v) ?t) = map (\<lambda>f. (f, Some v)) (awaits xs)"
    using t by (simp_all add: Then_Resolve_def)
  have none: "th_result (Then_Resolve None ?t) = None" "th_err (Then_Resolve None ?t) = None"
    "th_calls (Then_Resolve None ?t) = map (\<lambda>f. (f, None)) (awaits xs)"
    using t by (simp_all add: Then_Resolve_def)
  have ys: "\<forall>v. Settle v \<notin> set ys" using assms by simp
  show ?thesis
    using awaits_after [OF some(1) refl ys] awaits_before [OF none(1,2) refl ys] some(2) none(3)
    by (simp add: run_then_append)
qed

theorem await_once_witness:
  "th_calls (run_then ([Await (1 :: nat) None] @ Settle (Some True) # [Await 2 (Some 3)]) Then_New) = [(1, Some True), (2, Some True)]"
  using await_once [of "[Await (1 :: nat) None]" "[Await 2 (Some 3)]" True] by simp

end
