(* ===== verification/Js_Client.thy ===== *)
theory Js_Client
  imports Js_Then Client_Config
begin

text \<open>
  \<^verbatim>\<open>src/wasm/jsclient/jsclient.go\<close>, and the functions that \<^verbatim>\<open>src/wasm/main.go\<close> exports to JavaScript: each returns a thenable object
  at once and lets a goroutine call the SDK and settle it. Buffers and the buffers of CIDs are the bytes that \<^verbatim>\<open>src/wasm/helpers/helpers.go\<close>
  copies out of them. An operation is modelled by the outcome of its goroutine.
\<close>

section \<open>Values and settling\<close>

datatype js_value = Js_bytes bytes | Js_string string | Js_bool bool | Js_pair bytes bytes | Js_cid bytes | Js_error goerr

text \<open>A panic in a goroutine ends the program.\<close>

definition settle :: "js_value option res \<Rightarrow> (js_value, 'f) Then \<Rightarrow> (js_value, 'f) Then" where
  "settle r t = (case r of Ok v \<Rightarrow> Then_Resolve v t | Fail e \<Rightarrow> Then_Reject (Some (Js_error e)) t | Panic p \<Rightarrow> t)"

text \<open>The object when the goroutine ends between the awaits \<^verbatim>\<open>xs\<close> and \<^verbatim>\<open>ys\<close>.\<close>

definition promise :: "(js_value, 'f) then_op list \<Rightarrow> js_value option res \<Rightarrow> (js_value, 'f) then_op list \<Rightarrow> (js_value, 'f) Then" where
  "promise xs r ys = run_then ys (settle r (run_then xs Then_New))"

record 'd js_lib =
  FromECDSA :: "'d \<Rightarrow> bytes"
  tx_Unmarshal :: "bytes \<Rightarrow> Transaction res"
  proof_Marshal :: "gossip_Proof \<Rightarrow> bytes res"
  proof_Unmarshal :: "bytes \<Rightarrow> Proof res"
  payload_Marshal :: "TokenPayload \<Rightarrow> bytes res"
  group_Unmarshal :: "bytes \<Rightarrow> pb_NotaryGroup res"

section \<open>Keys\<close>

definition jsKeyBitsToPrivateKey :: "'d kdf_lib \<Rightarrow> bytes \<Rightarrow> 'd res" where
  "jsKeyBitsToPrivateKey KD jsKeyBits = ToECDSA KD jsKeyBits"

definition key_pair :: "('e, 'd, 'sc) crypto_lib \<Rightarrow> 'd js_lib \<Rightarrow> 'd \<Rightarrow> js_value option" where
  "key_pair C J key = Some (Js_pair (FromECDSA J key) (FromECDSAPub C (ecdsa_Public C key)))"

text \<open>\<^verbatim>\<open>generated\<close> is what \<^verbatim>\<open>crypto.GenerateKey\<close> returns.\<close>

definition js_GenerateKey where
  "js_GenerateKey C J generated = rbind generated (\<lambda>key. Ok (key_pair C J key))"

definition KeyFromPrivateBytes where
  "KeyFromPrivateBytes C J KD jsBits = rbind (jsKeyBitsToPrivateKey KD jsBits) (\<lambda>key. Ok (key_pair C J key))"

definition js_PassPhraseKey where
  "js_PassPhraseKey C J KD jsPhrase jsSalt = rbind (PassPhraseKey KD jsPhrase jsSalt) (\<lambda>key. Ok (key_pair C J key))"

definition jsToPubKey :: "('e, 'd, 'sc) crypto_lib \<Rightarrow> bytes \<Rightarrow> 'e res" where
  "jsToPubKey C jsPubKeyBits = wrapf ''error unmarshaling public key'' (UnmarshalPubkey C jsPubKeyBits)"

definition js_EcdsaPubkeyToDid where
  "js_EcdsaPubkeyToDid C jsPubKeyBits = rbind (jsToPubKey C jsPubKeyBits) (\<lambda>pubKey. Ok (Some (Js_string (EcdsaPubkeyToDid C pubKey))))"

definition EcdsaPubkeyToAddress where
  "EcdsaPubkeyToAddress C jsPubKeyBits =
     rbind (jsToPubKey C jsPubKeyBits) (\<lambda>pubKey. Ok (Some (Js_string (Address_String C (PubkeyToAddress C pubKey)))))"

section \<open>Trees and payloads\<close>

text \<open>\<^verbatim>\<open>T\<close> builds trees in the given block service; \<^verbatim>\<open>S\<close> and \<^verbatim>\<open>D\<close> read trees from it.\<close>

definition js_NewEmptyTree where
  "js_NewEmptyTree C T jsPublicKeyBits =
     ebind (elift (UnmarshalPubkey C jsPublicKeyBits)) (\<lambda>treeKey.
     let did = EcdsaPubkeyToDid C treeKey in
     ebind (NewEmptyTree T did) (\<lambda>tip. eret (Some (Js_cid (cid_Bytes tip)))))"

definition JsCidToCid where
  "JsCidToCid L jsCid = Cast L jsCid"

definition JsConfigToHumanConfig where
  "JsConfigToHumanConfig J jsBits = group_Unmarshal J jsBits"

definition js_TokenPayloadForTransaction where
  "js_TokenPayloadForTransaction J L S H D chain_Tree transactors jsTip tokenName sendTokenTxId jsSendTxProofBits =
     ebind (elift (JsCidToCid L jsTip)) (\<lambda>tip.
     ebind (run_store S (cl_NewChainTree H tip [] transactors)) (\<lambda>_.
     ebind (elift (proof_Unmarshal J jsSendTxProofBits)) (\<lambda>proof.
     let canonicalTokenName = TokenNameFromString tokenName in
     ebind (eread (TokenPayloadForTransaction D chain_Tree tip canonicalTokenName sendTokenTxId (Some proof))) (\<lambda>payload.
     ebind (elift (payload_Marshal J payload)) (\<lambda>bits.
     eret (Some (Js_bytes bits)))))))"

section \<open>The client\<close>

record ('e, 'k, 'p, 's, 't, 'st, 'h, 'w, 'ps, 'hk, 'lg) JSClient =
  jc_client :: "('e, 'k, 'p, 's, 't, 'st, 'h, 'w, 'ps, 'hk, 'lg) Client"
  jc_pubsub :: 'ps
  jc_notaryGroup :: "('e, 'k, 'p, ('e, 'p, 's ValidatorGenerator, 't) Config) NotaryGroup"
  jc_store :: 'st

definition JSClient_New where
  "JSClient_New C K L E G type_value transactorRegistry validatorGeneratorRegistry defaults peer pubsub humanConfig store =
     rbind (must (HumanConfigToConfig C K type_value transactorRegistry validatorGeneratorRegistry defaults humanConfig)) (\<lambda>ngConfig.
     rbind (must (Config_NotaryGroup C peer ngConfig None)) (\<lambda>ng.
     rbind (New C K L E G [Arg_option (WithNotaryGroup (Some ng)), Arg_option (WithPubsub (Some pubsub)), Arg_option (WithDagStore (Some store))]) (\<lambda>cli.
     Ok \<lparr>jc_client = cli, jc_pubsub = pubsub, jc_notaryGroup = ng, jc_store = store\<rparr>)))"

text \<open>An operation of the client that it holds.\<close>

definition on_client where
  "on_client m = (\<lambda>(jsc, w). case m (jc_client jsc, w) of (r, c, w') \<Rightarrow> (r, jsc\<lparr>jc_client := c\<rparr>, w'))"

definition JSClient_Start where
  "JSClient_Start Q call = on_client (Start Q call)"

definition js_marshal :: "'d js_lib \<Rightarrow> gossip_Proof \<Rightarrow> js_value option res" where
  "js_marshal J prf = rbind (proof_Marshal J prf) (\<lambda>bits. Ok (Some (Js_bytes bits)))"

definition js_GetTip where
  "js_GetTip C K L J during outcome jsDid =
     ebind (ewrapf ''error getting tip: %w'' (on_client (GetTip C K L during outcome jsDid))) (\<lambda>prf.
     elift (js_marshal J (At_tip prf)))"

definition js_GetLatest where
  "js_GetLatest C K L H Q J during outcome jsDid =
     ebind (ewrapf ''error getting tip: %w'' (on_client (GetLatest C K L H Q during outcome jsDid))) (\<lambda>tree.
     ebind (elift (deref (sct_Proof tree))) (\<lambda>prf.
     elift (js_marshal J prf)))"

text \<open>Resolved with nil.\<close>

definition js_WaitForRound where
  "js_WaitForRound C K L during outcome = ebind (on_client (WaitForFirstRound C K L during outcome)) (\<lambda>_. eret None)"

fun jsTransactionsToTransactions :: "'d js_lib \<Rightarrow> bytes list \<Rightarrow> Transaction list res" where
  "jsTransactionsToTransactions J [] = Ok []"
| "jsTransactionsToTransactions J (bits # transBits) =
     rbind (wrapf ''error unmarshaling'' (tx_Unmarshal J bits)) (\<lambda>tran.
     rbind (jsTransactionsToTransactions J transBits) (\<lambda>trans. Ok (tran # trans)))"

text \<open>A fresh tree at the tip, without validators; \<^verbatim>\<open>transactors\<close> is \<^verbatim>\<open>consensus.DefaultTransactors\<close>. The tree is dropped afterwards.\<close>

definition js_playTransactions where
  "js_playTransactions L H T mem C B Q visit evs timer transactors treeKey tip transactions = (\<lambda>(jsc, w).
     ebind (\<lambda>(jsc, w). case run_store (dag_store L (jc_store jsc)) (cl_NewChainTree H tip [] transactors) w of
              (r, w') \<Rightarrow> (wrapf ''error creating chaintree'' r, jsc, w')) (\<lambda>_.
     let tree = NewSignedChainTreeFromChainTree \<lparr>ct_Tip = tip, ct_BlockValidators = [], ct_Transactors = transactors\<rparr> in
     (\<lambda>(jsc, w). case PlayTransactions (dag_store L (jc_store jsc)) L H T mem C B Q visit evs timer treeKey transactions (tree, jc_client jsc, w) of
              (r, tree', c, w') \<Rightarrow> (r, jsc\<lparr>jc_client := c\<rparr>, w'))) (jsc, w))"

definition js_PlayTransactions where
  "js_PlayTransactions L H T mem C B Q J KD visit evs timer transactors jsKeyBits tip jsTransactions =
     ebind (elift (jsTransactionsToTransactions J jsTransactions)) (\<lambda>trans.
     ebind (elift (jsKeyBitsToPrivateKey KD jsKeyBits)) (\<lambda>key.
     ebind (elift (JsCidToCid L tip)) (\<lambda>tip.
     ebind (js_playTransactions L H T mem C B Q visit evs timer transactors key tip trans) (\<lambda>prf.
     elift (js_marshal J (Complete prf))))))"

definition verifyProof where
  "verifyProof C K L ng prf =
     (let quorumCount = QuorumCount ng in rbind (verKeys ng) (\<lambda>vks. Verify C K L prf quorumCount vks))"

definition js_VerifyProof where
  "js_VerifyProof C K L J proofBits = (\<lambda>(jsc, w).
     (rbind (wrapf ''error unmarshaling: %w'' (proof_Unmarshal J proofBits)) (\<lambda>prf.
      rbind (wrapf ''error verifying: %w'' (verifyProof C K L (jc_notaryGroup jsc) prf)) (\<lambda>isVerified.
      Ok (Some (Js_bool isVerified)))), jsc, w))"

section \<open>The exported functions\<close>

text \<open>
  The state is \<^verbatim>\<open>clientSingleton\<close>, nil until a client was started, and the world. Only \<^verbatim>\<open>playTransactions\<close> looks whether there is a
  client; the others use the nil pointer.
\<close>

definition with_singleton where
  "with_singleton missing m = (\<lambda>(singleton, w). case singleton of
     None \<Rightarrow> (missing, None, w)
   | Some jsc \<Rightarrow> (case m (jsc, w) of (r, jsc', w') \<Rightarrow> (r, Some jsc', w')))"

definition nil_client :: "'a res" where
  "nil_client = Panic ''invalid memory address or nil pointer dereference''"

definition export_getTip where
  "export_getTip C K L J during outcome jsDid = with_singleton nil_client (js_GetTip C K L J during outcome jsDid)"

definition export_getLatest where
  "export_getLatest C K L H Q J during outcome jsDid = with_singleton nil_client (js_GetLatest C K L H Q J during outcome jsDid)"

definition export_verifyProof where
  "export_verifyProof C K L J proofBits = with_singleton nil_client (js_VerifyProof C K L J proofBits)"

definition export_waitForRound where
  "export_waitForRound C K L during outcome = with_singleton nil_client (js_WaitForRound C K L during outcome)"

definition export_playTransactions where
  "export_playTransactions L H T mem C B Q J KD visit evs timer transactors privateKey tip transactions =
     with_singleton (Fail (Errorf ''no client has been started'' []))
       (js_PlayTransactions L H T mem C B Q J KD visit evs timer transactors privateKey tip transactions)"

text \<open>The client becomes the singleton only once it has started.\<close>

definition startClient where
  "startClient J C K L E G Q call type_value transactorRegistry validatorGeneratorRegistry defaults peer notaryGroup blockService pubsub = (\<lambda>(singleton, w).
     case wrapf ''error converting config %w'' (JsConfigToHumanConfig J notaryGroup) of
       Fail e \<Rightarrow> (Fail e, singleton, w)
     | Panic p \<Rightarrow> (Panic p, singleton, w)
     | Ok config \<Rightarrow>
     (case JSClient_New C K L E G type_value transactorRegistry validatorGeneratorRegistry defaults peer pubsub config blockService of
       Fail e \<Rightarrow> (Fail e, singleton, w)
     | Panic p \<Rightarrow> (Panic p, singleton, w)
     | Ok cli \<Rightarrow>
     (case JSClient_Start Q call (cli, w) of
       (Fail e, _, w) \<Rightarrow> (Fail e, singleton, w)
     | (Panic p, _, w) \<Rightarrow> (Panic p, singleton, w)
     | (Ok _, cli, w) \<Rightarrow> (Ok (Some (Js_bool True)), Some cli, w))))"

end
