(* ===== verification/Js_Client_Properties.thy ===== *)
theory Js_Client_Properties
  imports Js_Client Client_Properties
begin

text \<open>
  The browser's client: what its functions return to JavaScript.
\<close>

section \<open>Promises\<close>

lemma promise_resolved:
  assumes "\<forall>u. Settle u \<notin> set (xs @ ys)"
  shows "th_calls (promise xs (Ok (Some v)) ys) = map (\<lambda>f. (f, Some v)) (awaits xs @ awaits ys)"
  using await_once [OF assms, of v] by (simp add: promise_def settle_def run_then_append)

section \<open>A new client\<close>

lemma New_Ok:
  assumes "New C K L E G [Arg_option (WithNotaryGroup (Some ng)), Arg_option (WithPubsub (Some ps)), Arg_option (WithDagStore (Some st))] = Ok c"
  shows "c_Group c = Some ng \<and> c_store c = Some st \<and> c_pubsub c = Some ps \<and> c_subscriber c = Some (newRoundSubscriber L ng st) \<and>
    is_ok (verKeys ng)"
proof -
  let ?c0 = "empty_ClientConfig\<lparr>cc_Group := Some ng, cc_Pubsub := Some ps, cc_Store := Some st\<rparr>"
  obtain c1 where run: "NewWithConfig C K L E G ?c0 = (Ok c, c1)"
    using assms by (auto simp: New_def eff_defs option_defs WithNotaryGroup_def split: res.splits prod.splits)
  then have defaults: "SetDefaults C K L E G ?c0 = (Ok (), c1)" and c: "c = client_of_config c1"
    by (auto simp: NewWithConfig_def go_ok)
  from SetDefaults_Ok [OF defaults] show ?thesis
    by (auto simp: c client_of_config_def empty_ClientConfig_def)
qed

lemma JSClient_New_Ok:
  assumes "JSClient_New C K L E G tv treg vreg defaults peer ps hc st = Ok jsc"
  shows "jc_store jsc = st \<and> jc_pubsub jsc = ps \<and> c_store (jc_client jsc) = Some st \<and> c_pubsub (jc_client jsc) = Some ps \<and>
    c_Group (jc_client jsc) = Some (jc_notaryGroup jsc) \<and>
    c_subscriber (jc_client jsc) = Some (newRoundSubscriber L (jc_notaryGroup jsc) st) \<and> is_ok (verKeys (jc_notaryGroup jsc))"
  using assms by (auto simp: JSClient_New_def go_ok dest: New_Ok)

section \<open>Playing and verifying\<close>

lemma js_playTransactions_OkE:
  assumes "js_playTransactions L H T mem C B Q visit evs timer transactors key tip txns (jsc, w) = (Ok p, jsc', w')"
  obtains S tree w1 tree' where
    "PlayTransactions S L H T mem C B Q visit evs timer key txns (tree, jc_client jsc, w1) = (Ok p, tree', jc_client jsc', w')"
    "jsc' = jsc\<lparr>jc_client := jc_client jsc'\<rparr>"
proof -
  let ?S = "dag_store L (jc_store jsc)"
  let ?tree = "NewSignedChainTreeFromChainTree \<lparr>ct_Tip = tip, ct_BlockValidators = [], ct_Transactors = transactors\<rparr>"
  obtain r1 w1 where r1: "run_store ?S (cl_NewChainTree H tip [] transactors) w = (r1, w1)" by fastforce
  obtain r2 tree' c w2 where r2: "PlayTransactions ?S L H T mem C B Q visit evs timer key txns (?tree, jc_client jsc, w1) = (r2, tree', c, w2)"
    by (rule prod_cases4)
  have "r2 = Ok p" "jsc' = jsc\<lparr>jc_client := c\<rparr>" "w' = w2"
    using assms r1 r2 by (auto simp: js_playTransactions_def ebind_def Let_def split: res.splits)
  with r2 show thesis using that by simp
qed

lemma js_PlayTransactions_OkE:
  assumes "js_PlayTransactions L H T mem C B Q J KD visit evs timer transactors bits tip txns (jsc, w) = (Ok v, jsc', w')"
  obtains S key tree txs w1 p tree' prf_bits where
    "PlayTransactions S L H T mem C B Q visit evs timer key txs (tree, jc_client jsc, w1) = (Ok p, tree', jc_client jsc', w')"
    "jsc' = jsc\<lparr>jc_client := jc_client jsc'\<rparr>" "proof_Marshal J (Complete p) = Ok prf_bits" "v = Some (Js_bytes prf_bits)"
proof -
  obtain txs key tip' p prf_bits where
    play: "js_playTransactions L H T mem C B Q visit evs timer transactors key tip' txs (jsc, w) = (Ok p, jsc', w')"
    and m: "proof_Marshal J (Complete p) = Ok prf_bits" "v = Some (Js_bytes prf_bits)"
    using assms by (auto simp: js_PlayTransactions_def go_ok js_marshal_def)
  from js_playTransactions_OkE [OF play] show thesis using that m by metis
qed

text \<open>C37: a proof played in the browser verifies there. As long as no client was started, playing transactions is rejected with an error. With
  a client, if the promise of \<^verbatim>\<open>playTransactions\<close> is resolved, it is with the bytes of a proof such that the promise of \<^verbatim>\<open>verifyProof\<close>
  on these bytes calls every callback, attached before or after it is settled, exactly once and with true.\<close>

theorem js_proof_verifies:
  assumes "bls_scheme K" "round_store L" "\<forall>p bits. proof_Marshal J (Complete p) = Ok bits \<longrightarrow> proof_Unmarshal J bits = Ok p"
    and "\<forall>jsc. singleton = Some jsc \<longrightarrow> verKeys (jc_notaryGroup jsc) = Ok vks \<and> c_subscriber (jc_client jsc) = Some rs0 \<and>
      follows C K L (jc_notaryGroup jsc) st rs"
    and "snd ` set evs \<subseteq> set (rs_stream rs)" "\<forall>u. Settle u \<notin> set (xs @ ys)"
    and "export_playTransactions L H T mem C B Q J KD visit evs timer transactors key tip txns (singleton, w) = (r, s')"
  shows "(singleton = None \<longrightarrow> r = Fail (Errorf ''no client has been started'' []) \<and> s' = (None, w)) \<and>
    (\<forall>v. r = Ok v \<longrightarrow> (\<exists>bits. v = Some (Js_bytes bits) \<and>
       th_calls (promise xs (fst (export_verifyProof C K L J bits s')) ys) = map (\<lambda>f. (f, Some (Js_bool True))) (awaits xs @ awaits ys)))"
proof (cases singleton)
  case None
  then show ?thesis using assms(7) by (auto simp: export_playTransactions_def with_singleton_def)
next
  case (Some jsc)
  obtain jsc' w' where run: "js_PlayTransactions L H T mem C B Q J KD visit evs timer transactors key tip txns (jsc, w) = (r, jsc', w')"
    and s': "s' = (Some jsc', w')"
    using assms(7) Some by (auto simp: export_playTransactions_def with_singleton_def split: prod.splits)
  have "\<exists>bits. v = Some (Js_bytes bits) \<and>
       th_calls (promise xs (fst (export_verifyProof C K L J bits s')) ys) = map (\<lambda>f. (f, Some (Js_bool True))) (awaits xs @ awaits ys)"
    if r: "r = Ok v" for v
  proof -
    from run r obtain S key' tree txs w1 p tree' bits where
      play: "PlayTransactions S L H T mem C B Q visit evs timer key' txs (tree, jc_client jsc, w1) = (Ok p, tree', jc_client jsc', w')"
      and jsc': "jsc' = jsc\<lparr>jc_client := jc_client jsc'\<rparr>"
      and bits: "proof_Marshal J (Complete p) = Ok bits" "v = Some (Js_bytes bits)"
      using js_PlayTransactions_OkE by metis
    have ng: "jc_notaryGroup jsc' = jc_notaryGroup jsc" by (subst jsc') simp
    have c: "verKeys (jc_notaryGroup jsc) = Ok vks" "c_subscriber (jc_client jsc) = Some rs0" "follows C K L (jc_notaryGroup jsc) st rs"
      using assms(4) Some by simp_all
    have "Verify C K L p (QuorumCount (jc_notaryGroup jsc)) vks = Ok True"
      using PlayTransactions_Ok [OF assms(1,2) c assms(5) play] by simp
    then have "fst (export_verifyProof C K L J bits s') = Ok (Some (Js_bool True))"
      using assms(3) bits(1) c(1) ng
      by (simp add: s' export_verifyProof_def with_singleton_def js_VerifyProof_def verifyProof_def Let_def)
    then show ?thesis using promise_resolved [OF assms(6)] bits(2) by auto
  qed
  then show ?thesis using Some by blast
qed

definition ref_js_client where
  "ref_js_client = \<lparr>jc_client = ref_client, jc_pubsub = (), jc_notaryGroup = ref_group_of ref_config, jc_store = ()\<rparr>"

text \<open>An encoder that knows one proof.\<close>

definition ref_js_lib :: "Proof \<Rightarrow> bytes js_lib" where
  "ref_js_lib p = \<lparr>FromECDSA = (\<lambda>k. k), tx_Unmarshal = (\<lambda>_. Fail (LibErr ''proto'')),
     proof_Marshal = (\<lambda>q. if q = Complete p then Ok [1] else Fail (LibErr ''proto'')), proof_Unmarshal = (\<lambda>_. Ok p),
     payload_Marshal = (\<lambda>_. Fail (LibErr ''proto'')), group_Unmarshal = (\<lambda>_. Fail (LibErr ''proto''))\<rparr>"

lemma ref_fresh_tree:
  "NewSignedChainTreeFromChainTree \<lparr>ct_Tip = Cid [5], ct_BlockValidators = [], ct_Transactors = xs\<rparr> = ref_signed_tree xs"
  by (simp add: NewSignedChainTreeFromChainTree_def ref_signed_tree_def)

theorem js_proof_verifies_witness:
  "\<exists>p bits s'. export_playTransactions (ref_rounds ref_dec) ref_chain ref_trees () ref_crypto ref_blocks ref_client_lib (ref_js_lib p) ref_kdf id
       (map (Pair False) (rs_stream (ref_subscriber_of ref_config))) False (Map.empty :: Transaction_Type \<rightharpoonup> unit) [7] [5] [] (Some ref_js_client, [[5]]) =
       (Ok (Some (Js_bytes bits)), s') \<and>
     th_calls (promise [Await (1 :: nat) None] (fst (export_verifyProof ref_crypto ref_kyber (ref_rounds ref_dec) (ref_js_lib p) bits s'))
       [Await 2 None]) = [(1, Some (Js_bool True)), (2, Some (Js_bool True))]"
proof -
  let ?L = "ref_rounds ref_dec" and ?evs = "map (Pair False) (rs_stream (ref_subscriber_of ref_config))"
  obtain p tree2 w' where play: "PlayTransactions mem_store ?L ref_chain ref_trees () ref_crypto ref_blocks ref_client_lib id
     ?evs False [7] [] (ref_signed_tree (Map.empty :: Transaction_Type \<rightharpoonup> unit), ref_client, [[5]]) = (Ok p, tree2, ref_client, w')" using ref_play by blast
  have run: "export_playTransactions ?L ref_chain ref_trees () ref_crypto ref_blocks ref_client_lib (ref_js_lib p) ref_kdf id
       ?evs False (Map.empty :: Transaction_Type \<rightharpoonup> unit) [7] [5] [] (Some ref_js_client, [[5]]) = (Ok (Some (Js_bytes [1])), Some ref_js_client, w')"
    using play
    by (simp add: ref_fresh_tree export_playTransactions_def with_singleton_def js_PlayTransactions_def js_playTransactions_def eff_defs jsKeyBitsToPrivateKey_def
        ref_kdf_def JsCidToCid_def ref_js_client_def dag_store_ref run_store_def mem_Get js_marshal_def ref_js_lib_def)
  have J: "\<forall>q bits. proof_Marshal (ref_js_lib p) (Complete q) = Ok bits \<longrightarrow> proof_Unmarshal (ref_js_lib p) bits = Ok q"
    by (auto simp: ref_js_lib_def)
  have client: "\<forall>jsc. Some ref_js_client = Some jsc \<longrightarrow> verKeys (jc_notaryGroup jsc) = Ok (map sk_verKey ref_keys) \<and>
      c_subscriber (jc_client jsc) = Some (ref_subscriber_of ref_config) \<and>
      follows ref_crypto ref_kyber ?L (jc_notaryGroup jsc) () (ref_subscriber_of ref_config)"
    using ref_follows [of ref_config] ref_group_keys [of ref_config] ref_client_subscriber by (simp add: ref_js_client_def)
  have evs: "snd ` set ?evs \<subseteq> set (rs_stream (ref_subscriber_of ref_config))" by auto
  have "\<forall>u. Settle u \<notin> set ([Await (1 :: nat) None] @ [Await 2 None])" by simp
  from js_proof_verifies [OF ref_bls.bls_scheme_axioms ref_rounds.round_store_axioms J client evs this run] run show ?thesis by fastforce
qed

end
