(* ===== verification/Js_Bridge.thy ===== *)
theory Js_Bridge
  imports Store_Tracking
begin

text \<open>
  \<^verbatim>\<open>src/wasm/jsstore/jsstore.go\<close>, \<^verbatim>\<open>src/wasm/jspubsub/jspubsub.go\<close> and \<^verbatim>\<open>subscription.go\<close>: the client's store and pubsub in the browser. Each call makes a
  JavaScript promise and waits on a channel for one of its two callbacks. First the calls by their results, then
  the wait itself as a step relation.
\<close>

section \<open>Promises of JavaScript\<close>

text \<open>What a promise does before the context is done, if there is one.\<close>

datatype 'a js_answer = Fulfilled 'a | Rejected string | No_answer

definition js_rejected :: "string \<Rightarrow> goerr" where
  "js_rejected f = Errorf f []"

definition context_done :: goerr where
  "context_done = Errorf ''context done'' []"

text \<open>The callbacks \<^verbatim>\<open>onSuccess\<close> and \<^verbatim>\<open>onError\<close>, and the \<^verbatim>\<open>select\<close> with the context.\<close>

definition js_response :: "string \<Rightarrow> ('a \<Rightarrow> 'b res) \<Rightarrow> 'a js_answer \<Rightarrow> 'b res" where
  "js_response f onSuccess answer = (case answer of
     Fulfilled x \<Rightarrow> onSuccess x | Rejected m \<Rightarrow> Fail (js_rejected f) | No_answer \<Rightarrow> Fail context_done)"

section \<open>The store\<close>

text \<open>
  A JavaScript block service, with CIDs and data as their bytes, and the two decoders.
\<close>

record 'w js_blocks_lib =
  js_put :: "cid \<Rightarrow> bytes \<Rightarrow> 'w \<Rightarrow> unit js_answer \<times> 'w"
  js_get :: "cid \<Rightarrow> 'w \<Rightarrow> bytes js_answer"
  js_delete :: "cid \<Rightarrow> 'w \<Rightarrow> unit js_answer \<times> 'w"
  is_DagProtobuf :: "cid \<Rightarrow> bool"
  merkledag_DecodeProtobuf :: "bytes \<Rightarrow> node res"
  safewrap_Decode :: "bytes \<Rightarrow> node res"

definition JSStore_Remove :: "'w js_blocks_lib \<Rightarrow> cid \<Rightarrow> ('w, unit) eff" where
  "JSStore_Remove B c w = (case js_delete B c w of (answer, w') \<Rightarrow> (js_response ''error from js: %s'' Ok answer, w'))"

fun RemoveMany :: "'w js_blocks_lib \<Rightarrow> cid list \<Rightarrow> ('w, unit) eff" where
  "RemoveMany B [] = eret ()"
| "RemoveMany B (c # cids) = ebind (ewrapf ''error removing'' (JSStore_Remove B c)) (\<lambda>_. RemoveMany B cids)"

definition JSStore_Add :: "'w js_blocks_lib \<Rightarrow> node \<Rightarrow> ('w, unit) eff" where
  "JSStore_Add B n w = (case js_put B (node_Cid n) (node_RawData n) w of (answer, w') \<Rightarrow> (js_response ''error from js: %s'' Ok answer, w'))"

fun JSStore_AddMany :: "'w js_blocks_lib \<Rightarrow> node list \<Rightarrow> ('w, unit) eff" where
  "JSStore_AddMany B [] = eret ()"
| "JSStore_AddMany B (n # nodes) = ebind (ewrapf ''error adding'' (JSStore_Add B n)) (\<lambda>_. JSStore_AddMany B nodes)"

definition GetMany :: "cid list \<Rightarrow> node list res" where
  "GetMany cids = Panic ''don't CALL ME, I'm unimplemented and full of choclate''"

definition decode_block :: "'w js_blocks_lib \<Rightarrow> cid \<Rightarrow> bytes \<Rightarrow> node res" where
  "decode_block B c bits = wrapf ''error decoding'' (if is_DagProtobuf B c then merkledag_DecodeProtobuf B bits else safewrap_Decode B bits)"

definition JSStore_Get :: "'w js_blocks_lib \<Rightarrow> cid \<Rightarrow> 'w \<Rightarrow> node res" where
  "JSStore_Get B c w = js_response ''error from js: %s'' (decode_block B c) (js_get B c w)"

text \<open>As the DAG store of a chain tree.\<close>

definition JSStore :: "'w js_blocks_lib \<Rightarrow> 'w store_lib" where
  "JSStore B = \<lparr>ds_Get = (\<lambda>c w. rbind (JSStore_Get B c w) (\<lambda>n. Ok (Some n))), ds_Add = JSStore_Add B\<rparr>"

section \<open>Pubsub\<close>

text \<open>There is no context: a promise that never settles is waited for without end, so the answer is one of two.\<close>

definition PubSubBridge_Publish :: "unit js_answer \<Rightarrow> unit res" where
  "PubSubBridge_Publish answer = js_response ''error publishing: %s'' Ok answer"

text \<open>
  The messages for a subscription: each is handed over by a goroutine of its own, which waits at the channel. Any of those that
  wait may be received from.
\<close>

record 'm BridgedSubscription =
  bsn_topic :: string
  bsn_waiting :: "'m list"

definition newBridgedSubscription :: "string \<Rightarrow> 'm BridgedSubscription" where
  "newBridgedSubscription topic = \<lparr>bsn_topic = topic, bsn_waiting = []\<rparr>"

definition PubSubBridge_Subscribe :: "unit js_answer \<Rightarrow> string \<Rightarrow> 'm BridgedSubscription res" where
  "PubSubBridge_Subscribe answer topic =
     (let sub = newBridgedSubscription topic in js_response ''error subscribing: %s'' (\<lambda>_. Ok sub) answer)"

text \<open>\<^verbatim>\<open>convert\<close> makes the message from its JavaScript object.\<close>

definition QueueJS :: "('j \<Rightarrow> 'm) \<Rightarrow> 'j \<Rightarrow> 'm BridgedSubscription \<Rightarrow> 'm BridgedSubscription" where
  "QueueJS convert msg bs = bs\<lparr>bsn_waiting := bsn_waiting bs @ [convert msg]\<rparr>"

text \<open>\<^verbatim>\<open>choice\<close>: the sender that is received from, or \<^verbatim>\<open>None\<close> for the context. Without a sender and with the context open the call waits.\<close>

definition bs_Next :: "nat option \<Rightarrow> ('m BridgedSubscription, 'm) eff" where
  "bs_Next choice bs = (case choice of
     Some i \<Rightarrow> if i < length (bsn_waiting bs)
       then (Ok (bsn_waiting bs ! i), bs\<lparr>bsn_waiting := take i (bsn_waiting bs) @ drop (Suc i) (bsn_waiting bs)\<rparr>)
       else (Fail context_done, bs)
   | None \<Rightarrow> (Fail context_done, bs))"

section \<open>The wait\<close>

text \<open>
  The caller: in its \<^verbatim>\<open>select\<close>; out of it with a result; returned, with the callbacks released and the channel closed. The callback: not
  yet called; at its send; done; released before it was called; crashed. A released callback does nothing when it is called.
\<close>

datatype 'a br_caller = Selecting | Leaving "'a res" | Returned "'a res"

datatype br_callback = Pending | At_send | Delivered | Released | Crashed

record 'a bridge =
  br_caller :: "'a br_caller"
  br_callback :: br_callback
  br_ctxDone :: bool

definition bridge_init :: "'a bridge" where
  "bridge_init = \<lparr>br_caller = Selecting, br_callback = Pending, br_ctxDone = False\<rparr>"

text \<open>The deferred function: release the callbacks, close the channel.\<close>

definition bridge_close :: "'a res \<Rightarrow> 'a bridge \<Rightarrow> 'a bridge" where
  "bridge_close v s = s\<lparr>br_caller := Returned v, br_callback := (if br_callback s = Pending then Released else br_callback s)\<rparr>"

text \<open>\<^verbatim>\<open>has_ctx\<close>: the \<^verbatim>\<open>select\<close> has a case for the context (the store's calls) or not (pubsub); \<^verbatim>\<open>resp\<close>: what the callback sends.\<close>

inductive bridge_step :: "bool \<Rightarrow> 'a res \<Rightarrow> 'a bridge \<Rightarrow> 'a bridge \<Rightarrow> bool" for has_ctx resp where
  called: "br_callback s = Pending \<Longrightarrow> bridge_step has_ctx resp s (s\<lparr>br_callback := At_send\<rparr>)"
| received: "br_caller s = Selecting \<Longrightarrow> br_callback s = At_send \<Longrightarrow>
    bridge_step has_ctx resp s (s\<lparr>br_caller := Leaving resp, br_callback := Delivered\<rparr>)"
| cancelled: "has_ctx \<Longrightarrow> \<not> br_ctxDone s \<Longrightarrow> bridge_step has_ctx resp s (s\<lparr>br_ctxDone := True\<rparr>)"
| given_up: "has_ctx \<Longrightarrow> br_caller s = Selecting \<Longrightarrow> br_ctxDone s \<Longrightarrow>
    bridge_step has_ctx resp s (s\<lparr>br_caller := Leaving (Fail context_done)\<rparr>)"
| closed: "br_caller s = Leaving v \<Longrightarrow> bridge_step has_ctx resp s (bridge_close v s)"
| crash: "br_caller s = Returned v \<Longrightarrow> br_callback s = At_send \<Longrightarrow> bridge_step has_ctx resp s (s\<lparr>br_callback := Crashed\<rparr>)"

inductive bridged :: "bool \<Rightarrow> 'a res \<Rightarrow> 'a bridge \<Rightarrow> bool" for has_ctx resp where
  init: "bridged has_ctx resp bridge_init"
| step: "bridged has_ctx resp s \<Longrightarrow> bridge_step has_ctx resp s s' \<Longrightarrow> bridged has_ctx resp s'"

fun outcome :: "'a br_caller \<Rightarrow> 'a res option" where
  "outcome Selecting = None"
| "outcome (Leaving v) = Some v"
| "outcome (Returned v) = Some v"

definition bridge_inv :: "bool \<Rightarrow> 'a res \<Rightarrow> 'a bridge \<Rightarrow> bool" where
  "bridge_inv has_ctx resp s \<longleftrightarrow>
     (br_callback s = Delivered \<longrightarrow> outcome (br_caller s) = Some resp) \<and>
     (br_ctxDone s \<longrightarrow> has_ctx) \<and>
     (br_callback s \<noteq> Delivered \<longrightarrow> outcome (br_caller s) \<noteq> None \<longrightarrow> br_ctxDone s \<and> outcome (br_caller s) = Some (Fail context_done)) \<and>
     (br_callback s = Released \<or> br_callback s = Crashed \<longrightarrow> (\<exists>v. br_caller s = Returned v))"

lemma bridge_inv_step: "bridge_step has_ctx resp s s' \<Longrightarrow> bridge_inv has_ctx resp s \<Longrightarrow> bridge_inv has_ctx resp s'"
  by (induction rule: bridge_step.induct) (auto simp: bridge_inv_def bridge_close_def split: if_splits)

lemma bridged_inv: "bridged has_ctx resp s \<Longrightarrow> bridge_inv has_ctx resp s"
  by (induction rule: bridged.induct) (auto simp: bridge_inv_def bridge_init_def dest: bridge_inv_step [unfolded bridge_inv_def])

lemma bridge_progress:
  assumes "bridged has_ctx resp s" "\<nexists>s'. bridge_step has_ctx resp s s' \<and> br_ctxDone s' = br_ctxDone s"
  shows "(\<exists>v. br_caller s = Returned v) \<and> br_callback s \<noteq> At_send"
proof -
  have no: "\<not> bridge_step has_ctx resp s s'" if "br_ctxDone s' = br_ctxDone s" for s' using assms(2) that by blast
  have cb: "br_callback s \<noteq> Pending" using no [OF _ , of "s\<lparr>br_callback := At_send\<rparr>"] bridge_step.called by auto
  have ret: "\<exists>v. br_caller s = Returned v"
  proof (cases "br_caller s")
    case Selecting
    with bridged_inv [OF assms(1)] cb have "br_callback s = At_send" by (cases "br_callback s") (auto simp: bridge_inv_def)
    with Selecting no [of "s\<lparr>br_caller := Leaving resp, br_callback := Delivered\<rparr>"] bridge_step.received show ?thesis by auto
  next
    case (Leaving v)
    then show ?thesis using no [of "bridge_close v s"] bridge_step.closed by (auto simp: bridge_close_def)
  qed simp
  moreover have "br_callback s \<noteq> At_send" using ret no [of "s\<lparr>br_callback := Crashed\<rparr>"] bridge_step.crash by auto
  ultimately show ?thesis by blast
qed

text \<open>From a caller that is leaving, or that can leave, a run in which it returns.\<close>

lemma leaving_returns:
  assumes "bridge_step has_ctx resp s s1" "br_caller s1 = Leaving v"
  shows "\<exists>s'. (bridge_step has_ctx resp)\<^sup>*\<^sup>* s s' \<and> br_caller s' = Returned v"
  using assms bridge_step.closed [OF assms(2), of has_ctx resp]
  by (intro exI [of _ "bridge_close v s1"]) (auto simp: bridge_close_def intro: rtranclp.rtrancl_into_rtrancl)

text \<open>C39: a promise awaited from Go. However the caller, the callback and the context interleave, a call that returns has the answer of the promise,
  or the error of the context, and this only if the context is done. While the caller is in its \<^verbatim>\<open>select\<close>, an answer that is at its send can be taken and returned, with a context or without,
  and if the context is done, its error can be returned. Nothing is stuck before the call has returned, not even with a context that is never done. Without a context,
  as in pubsub, no callback sends on the closed channel; with one, as in the store, the program can crash: the context may be done when the callback is already at its
  send.\<close>

theorem js_bridge:
  "(\<forall>has_ctx (resp :: 'a res) s. bridged has_ctx resp s \<longrightarrow>
      (\<forall>v. br_caller s = Returned v \<longrightarrow> v = resp \<or> br_ctxDone s \<and> v = Fail context_done) \<and>
      (br_caller s = Selecting \<longrightarrow> br_callback s = At_send \<longrightarrow>
         (\<exists>s'. (bridge_step has_ctx resp)\<^sup>*\<^sup>* s s' \<and> br_caller s' = Returned resp)) \<and>
      (br_caller s = Selecting \<longrightarrow> br_ctxDone s \<longrightarrow>
         (\<exists>s'. (bridge_step has_ctx resp)\<^sup>*\<^sup>* s s' \<and> br_caller s' = Returned (Fail context_done))) \<and>
      ((\<nexists>s'. bridge_step has_ctx resp s s' \<and> br_ctxDone s' = br_ctxDone s) \<longrightarrow> (\<exists>v. br_caller s = Returned v)) \<and>
      (\<not> has_ctx \<longrightarrow> br_callback s \<noteq> Crashed)) \<and>
   (\<forall>resp :: 'a res. \<exists>s. bridged True resp s \<and> br_callback s = Crashed)"
proof (intro conjI allI impI)
  fix has_ctx and resp :: "'a res" and s
  assume b: "bridged has_ctx resp s"
  note inv = bridged_inv [OF b]
  show "v = resp \<or> br_ctxDone s \<and> v = Fail context_done" if "br_caller s = Returned v" for v
    using inv that by (cases "br_callback s") (auto simp: bridge_inv_def)
  show "\<exists>s'. (bridge_step has_ctx resp)\<^sup>*\<^sup>* s s' \<and> br_caller s' = Returned resp"
    if "br_caller s = Selecting" "br_callback s = At_send"
    by (rule leaving_returns [OF bridge_step.received [OF that]]) simp
  show "\<exists>s'. (bridge_step has_ctx resp)\<^sup>*\<^sup>* s s' \<and> br_caller s' = Returned (Fail context_done)"
    if "br_caller s = Selecting" "br_ctxDone s"
  proof -
    have "has_ctx" using inv that(2) by (simp add: bridge_inv_def)
    from leaving_returns [OF bridge_step.given_up [OF this that]] show ?thesis by simp
  qed
  show "\<exists>v. br_caller s = Returned v" if "\<nexists>s'. bridge_step has_ctx resp s s' \<and> br_ctxDone s' = br_ctxDone s"
    using bridge_progress [OF b that] by blast
  show "br_callback s \<noteq> Crashed" if "\<not> has_ctx"
    using inv that by (auto simp: bridge_inv_def)
next
  fix resp :: "'a res"
  let ?s = "\<lambda>p c. \<lparr>br_caller = p, br_callback = c, br_ctxDone = True\<rparr> :: 'a bridge"
  have s1: "bridged True resp (?s Selecting Pending)"
    using bridged.step [OF bridged.init bridge_step.cancelled, of True resp] by (simp add: bridge_init_def)
  have s2: "bridged True resp (?s Selecting At_send)" using bridged.step [OF s1 bridge_step.called] by simp
  have s3: "bridged True resp (?s (Leaving (Fail context_done)) At_send)" using bridged.step [OF s2 bridge_step.given_up] by simp
  have s4: "bridged True resp (?s (Returned (Fail context_done)) At_send)"
    using bridged.step [OF s3 bridge_step.closed] by (simp add: bridge_close_def)
  have "bridged True resp (?s (Returned (Fail context_done)) Crashed)" using bridged.step [OF s4 bridge_step.crash] by simp
  then show "\<exists>s. bridged True resp s \<and> br_callback s = Crashed" by fastforce
qed

theorem js_bridge_witness:
  "(\<exists>s. bridged False (Ok 3 :: nat res) s \<and> br_caller s = Returned (Ok 3) \<and> br_callback s \<noteq> Crashed) \<and>
   (\<exists>s. bridged True (Ok 3 :: nat res) s \<and> br_callback s = Crashed)"
proof -
  let ?s = "\<lambda>p c. \<lparr>br_caller = p, br_callback = c, br_ctxDone = False\<rparr> :: nat bridge"
  have s1: "bridged False (Ok 3) (?s Selecting At_send)"
    using bridged.step [OF bridged.init bridge_step.called, of False "Ok 3"] by (simp add: bridge_init_def)
  have s2: "bridged False (Ok 3) (?s (Leaving (Ok 3)) Delivered)" using bridged.step [OF s1 bridge_step.received] by simp
  have s3: "bridged False (Ok 3) (?s (Returned (Ok 3)) Delivered)"
    using bridged.step [OF s2 bridge_step.closed] by (simp add: bridge_close_def)
  have "br_callback (?s (Returned (Ok 3)) Delivered) \<noteq> Crashed" using js_bridge [where 'a = nat] s3 by blast
  moreover have "\<exists>s. bridged True (Ok 3 :: nat res) s \<and> br_callback s = Crashed" using js_bridge [where 'a = nat] by blast
  ultimately show ?thesis using s3 by fastforce
qed

section \<open>The store of the browser keeps what it took\<close>

text \<open>
  What is asked of the block service and the decoders: the service answers a CID only with data of that hash, has what it has confirmed to have put, puts nothing else,
  and loses nothing by a put that it refuses or never answers; a decoder, where it accepts addressed data, yields its node. Puts may be refused, and data may be
  refused by the decoders.
\<close>

locale js_blocks =
  fixes hash :: "bytes \<Rightarrow> cid" and B :: "'w js_blocks_lib"
  assumes hash_inj: "hash a = hash b \<Longrightarrow> a = b"
    and get_data: "js_get B c w = Fulfilled d \<Longrightarrow> hash d = c"
    and put_get: "js_put B (hash d) d w = (Fulfilled (), w') \<Longrightarrow> js_get B (hash d) w' = Fulfilled d"
    and put_other: "js_put B (hash d) d w = (Fulfilled (), w') \<Longrightarrow> c \<noteq> hash d \<Longrightarrow> js_get B c w' = js_get B c w"
    and put_keeps: "js_put B (hash d) d w = (answer, w') \<Longrightarrow> js_get B c w = Fulfilled x \<Longrightarrow> js_get B c w' = Fulfilled x"
    and decode: "(if is_DagProtobuf B (hash d) then merkledag_DecodeProtobuf B d else safewrap_Decode B d) = Ok n \<Longrightarrow>
      n = \<lparr>node_Cid = hash d, node_RawData = d\<rparr>"
begin

lemma decode_addressed: "hash d = c \<Longrightarrow> decode_block B c d = Ok n \<Longrightarrow> n = \<lparr>node_Cid = c, node_RawData = d\<rparr>"
  using decode [of d n] by (auto simp: decode_block_def)

lemma Get_iff:
  "JSStore_Get B c w = Ok n \<longleftrightarrow> js_get B c w = Fulfilled (node_RawData n) \<and> node_Cid n = c \<and> is_ok (decode_block B c (node_RawData n))"
proof (cases "js_get B c w")
  case (Fulfilled d)
  then show ?thesis
    using decode_addressed [OF get_data [OF Fulfilled]] by (cases n) (auto simp: JSStore_Get_def js_response_def is_ok_iff)
qed (auto simp: JSStore_Get_def js_response_def)

lemma Get_kept:
  assumes "addressed hash n" "js_put B (node_Cid n) (node_RawData n) w = (answer, w')" "JSStore_Get B c w = Ok m"
  shows "JSStore_Get B c w' = Ok m"
  using assms put_keeps [of "node_RawData n" w answer w'] by (auto simp: Get_iff addressed_def)

lemma Get_data: "JSStore_Get B c w = Ok n \<Longrightarrow> node_Cid n = c \<and> addressed hash n"
  using get_data [of c w "node_RawData n"] by (auto simp: Get_iff addressed_def)

text \<open>How adding many ends: all puts were confirmed, or the first that was not ends it with its error.\<close>

lemma AddMany_ends:
  assumes "list_all (addressed hash) ns" "JSStore_AddMany B ns w = (r, w')"
  shows "(\<forall>c d. js_get B c w = Fulfilled d \<longrightarrow> js_get B c w' = Fulfilled d) \<and>
    (r = Ok () \<longrightarrow> (\<forall>n \<in> set ns. js_get B (node_Cid n) w' = Fulfilled (node_RawData n))) \<and>
    (r \<noteq> Ok () \<longrightarrow> (\<exists>before n after w1 answer. ns = before @ n # after \<and> JSStore_AddMany B before w = (Ok (), w1) \<and>
       js_put B (node_Cid n) (node_RawData n) w1 = (answer, w') \<and> answer \<noteq> Fulfilled () \<and>
       r = Fail (Errorf ''error adding'' [if answer = No_answer then context_done else js_rejected ''error from js: %s''])))"
  using assms
proof (induction ns arbitrary: w)
  case (Cons n ns)
  then have n: "node_Cid n = hash (node_RawData n)" by (simp add: addressed_def)
  obtain answer w1 where put: "js_put B (node_Cid n) (node_RawData n) w = (answer, w1)" by fastforce
  have keep: "\<forall>c d. js_get B c w = Fulfilled d \<longrightarrow> js_get B c w1 = Fulfilled d" using put_keeps put n by metis
  show ?case
  proof (cases "answer = Fulfilled ()")
    case True
    then have run: "JSStore_AddMany B ns w1 = (r, w')" and add: "JSStore_Add B n w = (Ok (), w1)"
      using Cons.prems(2) put by (simp_all add: eff_defs JSStore_Add_def js_response_def)
    have got: "js_get B (node_Cid n) w1 = Fulfilled (node_RawData n)" using put_get put n True by metis
    from Cons.IH [OF _ run] Cons.prems(1) have IH:
      "\<forall>c d. js_get B c w1 = Fulfilled d \<longrightarrow> js_get B c w' = Fulfilled d"
      "r = Ok () \<longrightarrow> (\<forall>n \<in> set ns. js_get B (node_Cid n) w' = Fulfilled (node_RawData n))"
      "r \<noteq> Ok () \<longrightarrow> (\<exists>before n after w2 answer. ns = before @ n # after \<and> JSStore_AddMany B before w1 = (Ok (), w2) \<and>
         js_put B (node_Cid n) (node_RawData n) w2 = (answer, w') \<and> answer \<noteq> Fulfilled () \<and>
         r = Fail (Errorf ''error adding'' [if answer = No_answer then context_done else js_rejected ''error from js: %s'']))"
      by simp_all
    have first: "JSStore_AddMany B (n # before) w = JSStore_AddMany B before w1" for before
      using add by (simp add: eff_defs)
    have "r \<noteq> Ok () \<longrightarrow> (\<exists>before m after w2 answer. n # ns = before @ m # after \<and> JSStore_AddMany B before w = (Ok (), w2) \<and>
         js_put B (node_Cid m) (node_RawData m) w2 = (answer, w') \<and> answer \<noteq> Fulfilled () \<and>
         r = Fail (Errorf ''error adding'' [if answer = No_answer then context_done else js_rejected ''error from js: %s'']))"
    proof (intro impI)
      assume "r \<noteq> Ok ()"
      with IH(3) obtain before m after w2 answer where step: "ns = before @ m # after" "JSStore_AddMany B before w1 = (Ok (), w2)"
        "js_put B (node_Cid m) (node_RawData m) w2 = (answer, w')" "answer \<noteq> Fulfilled ()"
        "r = Fail (Errorf ''error adding'' [if answer = No_answer then context_done else js_rejected ''error from js: %s''])" by blast
      have "n # ns = (n # before) @ m # after" "JSStore_AddMany B (n # before) w = (Ok (), w2)"
        using step(1,2) first by simp_all
      then show "\<exists>before m after w2 answer. n # ns = before @ m # after \<and> JSStore_AddMany B before w = (Ok (), w2) \<and>
         js_put B (node_Cid m) (node_RawData m) w2 = (answer, w') \<and> answer \<noteq> Fulfilled () \<and>
         r = Fail (Errorf ''error adding'' [if answer = No_answer then context_done else js_rejected ''error from js: %s''])"
        using step(3-5) by blast
    qed
    with IH(1,2) keep got show ?thesis by auto
  next
    case False
    then have r: "r = Fail (Errorf ''error adding'' [if answer = No_answer then context_done else js_rejected ''error from js: %s''])" "w' = w1"
      using Cons.prems(2) put by (cases answer; simp add: eff_defs JSStore_Add_def js_response_def)+
    have "n # ns = [] @ n # ns" "JSStore_AddMany B [] w = (Ok (), w)" by (simp_all add: eret_def)
    then have "\<exists>before m after w1 answer. n # ns = before @ m # after \<and> JSStore_AddMany B before w = (Ok (), w1) \<and>
        js_put B (node_Cid m) (node_RawData m) w1 = (answer, w') \<and> answer \<noteq> Fulfilled () \<and>
        r = Fail (Errorf ''error adding'' [if answer = No_answer then context_done else js_rejected ''error from js: %s''])"
      using put False r by blast
    then show ?thesis using keep r by simp
  qed
qed (simp add: eret_def)

text \<open>Where nothing is refused, the store is content-addressed.\<close>

lemma reliable_content:
  assumes put: "\<And>d w. fst (js_put B (hash d) d w) = Fulfilled ()" and dec: "\<And>d. is_ok (decode_block B (hash d) d)"
  shows "content_store hash (JSStore B)"
proof
  show "hash a = hash b \<Longrightarrow> a = b" for a b by (rule hash_inj)
next
  fix c w n
  assume "ds_Get (JSStore B) c w = Ok (Some n)"
  then show "node_Cid n = c \<and> addressed hash n" by (intro Get_data) (simp add: JSStore_def go_ok)
next
  fix n w
  assume n: "addressed hash n"
  obtain answer w' where "js_put B (hash (node_RawData n)) (node_RawData n) w = (answer, w')" by fastforce
  with put [of "node_RawData n" w] n show "\<exists>w'. ds_Add (JSStore B) n w = (Ok (), w')"
    by (simp add: JSStore_def JSStore_Add_def js_response_def addressed_def)
next
  fix n w w'
  assume n: "addressed hash n" and "ds_Add (JSStore B) n w = (Ok (), w')"
  then have p: "js_put B (hash (node_RawData n)) (node_RawData n) w = (Fulfilled (), w')"
    using put [of "node_RawData n" w] by (auto simp: JSStore_def JSStore_Add_def js_response_def addressed_def split: prod.splits)
  show "ds_Get (JSStore B) (node_Cid n) w' = Ok (Some n)"
    using put_get [OF p] n dec by (simp add: JSStore_def go_ok Get_iff addressed_def)
  show "ds_Get (JSStore B) c w' = ds_Get (JSStore B) c w" if "c \<noteq> node_Cid n" for c
    using put_other [OF p] that n by (simp add: JSStore_def addressed_def JSStore_Get_def)
qed

end

text \<open>C38: the browser's store keeps what it took, and says when it did not. Let the block service keep what it confirms, lose nothing by a put, and answer a CID only with its data; it may refuse puts or leave them unanswered, and the decoders
  may refuse data. Then whatever \<^verbatim>\<open>AddMany\<close> of a list of addressed nodes ends with, every node that was readable still is, and what can be read under a CID has that CID. If it succeeds, the service has the data of every node, and each is read
  back as it was, or with the error of the decoder that refuses it. If not, then the nodes before some one were put and the put of this one was not confirmed, and the error is that of its refusal, or of the context where there was no answer. Reading a CID that the service refuses or does not answer
  reports just that. And where it confirms every put and the decoders accept all data, the store is a content-addressed store.\<close>

theorem js_store_content:
  assumes "js_blocks hash B" "list_all (addressed hash) ns" "JSStore_AddMany B ns w = (r, w')"
  shows "(\<forall>c n. JSStore_Get B c w = Ok n \<longrightarrow> JSStore_Get B c w' = Ok n) \<and>
    (\<forall>c n. JSStore_Get B c w' = Ok n \<longrightarrow> node_Cid n = c \<and> addressed hash n) \<and>
    (r = Ok () \<longrightarrow> (\<forall>n \<in> set ns. js_get B (node_Cid n) w' = Fulfilled (node_RawData n) \<and>
       (case decode_block B (node_Cid n) (node_RawData n) of Ok _ \<Rightarrow> JSStore_Get B (node_Cid n) w' = Ok n
        | e \<Rightarrow> JSStore_Get B (node_Cid n) w' = e))) \<and>
    (r \<noteq> Ok () \<longrightarrow> (\<exists>before n after w1 answer. ns = before @ n # after \<and> JSStore_AddMany B before w = (Ok (), w1) \<and>
       js_put B (node_Cid n) (node_RawData n) w1 = (answer, w') \<and> answer \<noteq> Fulfilled () \<and>
       r = Fail (Errorf ''error adding'' [if answer = No_answer then context_done else js_rejected ''error from js: %s'']))) \<and>
    (\<forall>c m. js_get B c w' = Rejected m \<longrightarrow> JSStore_Get B c w' = Fail (js_rejected ''error from js: %s'')) \<and>
    (\<forall>c. js_get B c w' = No_answer \<longrightarrow> JSStore_Get B c w' = Fail context_done) \<and>
    ((\<forall>d w. fst (js_put B (hash d) d w) = Fulfilled ()) \<longrightarrow> (\<forall>d. is_ok (decode_block B (hash d) d)) \<longrightarrow> content_store hash (JSStore B))"
proof -
  note ends = js_blocks.AddMany_ends [OF assms]
  have "JSStore_Get B c w' = Ok n" if "JSStore_Get B c w = Ok n" for c n
    using that ends unfolding js_blocks.Get_iff [OF assms(1)] by blast
  moreover have "node_Cid n = c \<and> addressed hash n" if "JSStore_Get B c w' = Ok n" for c n
    by (rule js_blocks.Get_data [OF assms(1) that])
  moreover have "case decode_block B (node_Cid n) (node_RawData n) of Ok _ \<Rightarrow> JSStore_Get B (node_Cid n) w' = Ok n
      | e \<Rightarrow> JSStore_Get B (node_Cid n) w' = e" if "js_get B (node_Cid n) w' = Fulfilled (node_RawData n)" for n
  proof (cases "decode_block B (node_Cid n) (node_RawData n)")
    case (Ok m)
    then show ?thesis using that js_blocks.Get_iff [OF assms(1), of "node_Cid n" w' n] by simp
  qed (use that in \<open>simp_all add: JSStore_Get_def js_response_def\<close>)
  moreover have "JSStore_Get B c w' = Fail (js_rejected ''error from js: %s'')" if "js_get B c w' = Rejected m" for c m
    using that by (simp add: JSStore_Get_def js_response_def)
  moreover have "JSStore_Get B c w' = Fail context_done" if "js_get B c w' = No_answer" for c
    using that by (simp add: JSStore_Get_def js_response_def)
  ultimately show ?thesis using ends js_blocks.reliable_content [OF assms(1)] by blast
qed

text \<open>A block service that keeps its data in a list, with room for blocks of one byte only, and a decoder that refuses the byte 255.\<close>

definition ref_js_blocks :: "bytes list js_blocks_lib" where
  "ref_js_blocks = \<lparr>js_put = (\<lambda>c d w. if length d = 1 then (Fulfilled (), d # w) else (Rejected ''quota'', w)),
     js_get = (\<lambda>c w. if cid_Bytes c \<in> set w then Fulfilled (cid_Bytes c) else Rejected ''not found''),
     js_delete = (\<lambda>c w. (Fulfilled (), removeAll (cid_Bytes c) w)), is_DagProtobuf = (\<lambda>c. False),
     merkledag_DecodeProtobuf = (\<lambda>_. Fail (LibErr ''protobuf'')),
     safewrap_Decode = (\<lambda>d. if d = [255] then Fail (LibErr ''cbor'') else Ok \<lparr>node_Cid = Cid d, node_RawData = d\<rparr>)\<rparr>"

interpretation ref_blocks_of_js: js_blocks Cid ref_js_blocks
proof
  fix c d w w'
  assume "js_put ref_js_blocks (Cid d) d w = (Fulfilled (), w')" "c \<noteq> Cid d"
  then show "js_get ref_js_blocks c w' = js_get ref_js_blocks c w" by (cases c) (auto simp: ref_js_blocks_def split: if_splits)
qed (auto simp: ref_js_blocks_def split: if_splits)

definition ref_block :: "bytes \<Rightarrow> node" where
  "ref_block d = \<lparr>node_Cid = Cid d, node_RawData = d\<rparr>"

theorem js_store_content_witness:
  "(\<exists>w'. JSStore_AddMany ref_js_blocks [ref_block [1], ref_block [255]] [[2]] = (Ok (), w') \<and>
     JSStore_Get ref_js_blocks (Cid [1]) w' = Ok (ref_block [1]) \<and>
     JSStore_Get ref_js_blocks (Cid [255]) w' = Fail (Errorf ''error decoding'' [LibErr ''cbor''])) \<and>
   (\<exists>w'. JSStore_AddMany ref_js_blocks [ref_block [1], ref_block [3, 4]] [[2]] =
       (Fail (Errorf ''error adding'' [js_rejected ''error from js: %s'']), w') \<and>
     JSStore_Get ref_js_blocks (Cid [2]) w' = Ok (ref_block [2]))"
proof -
  have a: "list_all (addressed Cid) [ref_block [1], ref_block [255]]" "list_all (addressed Cid) [ref_block [1], ref_block [3, 4]]"
    by (simp_all add: addressed_def ref_block_def)
  have r1: "JSStore_AddMany ref_js_blocks [ref_block [1], ref_block [255]] [[2]] = (Ok (), [[255], [1], [2]])"
    and r2: "JSStore_AddMany ref_js_blocks [ref_block [1], ref_block [3, 4]] [[2]] =
       (Fail (Errorf ''error adding'' [js_rejected ''error from js: %s'']), [[1], [2]])"
    and g: "JSStore_Get ref_js_blocks (Cid [2]) [[2]] = Ok (ref_block [2])"
    by (simp_all add: ref_js_blocks_def ref_block_def eff_defs JSStore_Add_def JSStore_Get_def decode_block_def js_response_def)
  have d: "decode_block ref_js_blocks (Cid [1]) [1] = Ok (ref_block [1])"
    "decode_block ref_js_blocks (Cid [255]) [255] = Fail (Errorf ''error decoding'' [LibErr ''cbor''])"
    by (simp_all add: decode_block_def ref_js_blocks_def ref_block_def)
  from js_store_content [OF ref_blocks_of_js.js_blocks_axioms a(1) r1, THEN conjunct2, THEN conjunct2, THEN conjunct1] d
  have "JSStore_Get ref_js_blocks (Cid [1]) [[255], [1], [2]] = Ok (ref_block [1])"
    "JSStore_Get ref_js_blocks (Cid [255]) [[255], [1], [2]] = Fail (Errorf ''error decoding'' [LibErr ''cbor''])"
    by (simp_all add: ref_block_def)
  moreover have "JSStore_Get ref_js_blocks (Cid [2]) [[1], [2]] = Ok (ref_block [2])"
    using js_store_content [OF ref_blocks_of_js.js_blocks_axioms a(2) r2, THEN conjunct1] g by blast
  ultimately show ?thesis using r1 r2 by blast
qed

end
