(* ===== verification/Js_Library.thy ===== *)
theory Js_Library
  imports Js_Client Ref_Rounds
begin

text \<open>
  The values of JavaScript as \<^verbatim>\<open>syscall/js\<close> shows them, the conversions of \<^verbatim>\<open>src/wasm/helpers/helpers.go\<close> and \<^verbatim>\<open>SafeInvoke\<close> of \<^verbatim>\<open>then.go\<close>,
  the messages of \<^verbatim>\<open>subscription.go\<close>, and the library that \<^verbatim>\<open>src/wasm/main.go\<close> populates, with the exported functions that need no client.
  The functions of \<^verbatim>\<open>Js_Client\<close> work on bytes; here is how they get them out of the arguments of a call.
\<close>

section \<open>Values of JavaScript\<close>

text \<open>A \<^verbatim>\<open>Buffer\<close> is a \<^verbatim>\<open>Uint8Array\<close>. Only plain objects carry properties that the sources set or read.\<close>

datatype jsv = JUndefined | JNull | JBool bool | JNumber int | JString string | JUint8Array bytes | JBuffer bytes | JArray "jsv list"
  | JObject "(string \<times> jsv) list" | JFunction string | JError string

fun js_Truthy :: "jsv \<Rightarrow> bool" where
  "js_Truthy JUndefined = False"
| "js_Truthy JNull = False"
| "js_Truthy (JBool b) = b"
| "js_Truthy (JNumber i) = (i \<noteq> 0)"
| "js_Truthy (JString s) = (s \<noteq> [])"
| "js_Truthy _ = True"

fun js_is_object :: "jsv \<Rightarrow> bool" where
  "js_is_object JUndefined = False"
| "js_is_object JNull = False"
| "js_is_object (JBool _) = False"
| "js_is_object (JNumber _) = False"
| "js_is_object (JString _) = False"
| "js_is_object _ = True"

definition value_error :: "'a res" where
  "value_error = Panic ''syscall/js: call of a method on a value of the wrong type''"

definition js_Get :: "jsv \<Rightarrow> string \<Rightarrow> jsv res" where
  "js_Get v p = (if \<not> js_is_object v then value_error else (case v of
     JObject ps \<Rightarrow> Ok (case map_of ps p of Some x \<Rightarrow> x | None \<Rightarrow> JUndefined) | _ \<Rightarrow> Ok JUndefined))"

definition js_Set :: "jsv \<Rightarrow> string \<Rightarrow> jsv \<Rightarrow> jsv res" where
  "js_Set v p x = (if \<not> js_is_object v then value_error else (case v of JObject ps \<Rightarrow> Ok (JObject (AList.update p x ps)) | _ \<Rightarrow> Ok v))"

fun js_Length :: "jsv \<Rightarrow> nat res" where
  "js_Length (JUint8Array b) = Ok (length b)"
| "js_Length (JBuffer b) = Ok (length b)"
| "js_Length (JArray vs) = Ok (length vs)"
| "js_Length v = (if js_is_object v then Ok 0 else value_error)"

fun js_Index :: "jsv \<Rightarrow> nat \<Rightarrow> jsv" where
  "js_Index (JArray vs) i = (if i < length vs then vs ! i else JUndefined)"
| "js_Index v i = JUndefined"

text \<open>\<^verbatim>\<open>String()\<close> describes a value that is no string.\<close>

definition js_String :: "(jsv \<Rightarrow> string) \<Rightarrow> jsv \<Rightarrow> string" where
  "js_String describe v = (case v of JString s \<Rightarrow> s | _ \<Rightarrow> describe v)"

text \<open>\<^verbatim>\<open>CopyBytesToGo\<close> into a slice of \<^verbatim>\<open>n\<close> zero bytes.\<close>

definition CopyBytesToGo :: "nat \<Rightarrow> jsv \<Rightarrow> bytes res" where
  "CopyBytesToGo n src = (case src of
     JUint8Array b \<Rightarrow> Ok (take n b @ replicate (n - length b) 0)
   | JBuffer b \<Rightarrow> Ok (take n b @ replicate (n - length b) 0)
   | _ \<Rightarrow> Panic ''syscall/js: CopyBytesToGo: expected src to be an Uint8Array'')"

section \<open>Conversions\<close>

definition JsStringArrayToStringSlice :: "(jsv \<Rightarrow> string) \<Rightarrow> jsv \<Rightarrow> string list res" where
  "JsStringArrayToStringSlice describe jsStrArray =
     rbind (js_Length jsStrArray) (\<lambda>len. Ok (map (\<lambda>i. js_String describe (js_Index jsStrArray i)) [0..<len]))"

definition JsBufferToBytes :: "jsv \<Rightarrow> bytes res" where
  "JsBufferToBytes buf = rbind (js_Length buf) (\<lambda>len. CopyBytesToGo len buf)"

definition SliceToJSArray :: "bytes \<Rightarrow> jsv" where
  "SliceToJSArray bits = JUint8Array bits"

definition SliceToJSBuffer :: "bytes \<Rightarrow> jsv" where
  "SliceToJSBuffer bits = (case SliceToJSArray bits of JUint8Array b \<Rightarrow> JBuffer b | v \<Rightarrow> v)"

text \<open>\<^verbatim>\<open>Cids_New\<close> is the constructor of the JavaScript library \<^verbatim>\<open>cids\<close>.\<close>

definition buffer_to_Cid :: "('st, 'h, 'w) round_lib \<Rightarrow> jsv \<Rightarrow> cid res" where
  "buffer_to_Cid L jsCid = rbind (js_Get jsCid ''buffer'') (\<lambda>buf. rbind (JsBufferToBytes buf) (\<lambda>bits. JsCidToCid L bits))"

definition CidToJSCID :: "(jsv \<Rightarrow> jsv) \<Rightarrow> cid \<Rightarrow> jsv" where
  "CidToJSCID Cids_New c = (let bits = cid_Bytes c; jsBits = SliceToJSBuffer bits in Cids_New jsBits)"

lemma JsBufferToBytes_simps [simp]: "JsBufferToBytes (JUint8Array b) = Ok b" "JsBufferToBytes (JBuffer b) = Ok b"
  by (simp_all add: JsBufferToBytes_def CopyBytesToGo_def)

lemma slices_simps [simp]: "JsBufferToBytes (SliceToJSArray b) = Ok b" "JsBufferToBytes (SliceToJSBuffer b) = Ok b"
  by (simp_all add: SliceToJSArray_def SliceToJSBuffer_def)

text \<open>What is not bytes panics, and panics only.\<close>

lemma JsBufferToBytes_never_fails: "JsBufferToBytes v \<noteq> Fail e"
  by (cases v) (simp_all add: JsBufferToBytes_def CopyBytesToGo_def value_error_def)

lemma strings_come_back: "JsStringArrayToStringSlice describe (JArray (map JString ss)) = Ok ss"
  by (auto simp: JsStringArrayToStringSlice_def js_String_def intro!: nth_equalityI)

text \<open>What the bridge asks of the CID library of either side.\<close>

locale js_cids =
  fixes Cids_New :: "jsv \<Rightarrow> jsv" and L :: "('st, 'h, 'w) round_lib"
  assumes buffer: "js_Get (Cids_New (JBuffer b)) ''buffer'' = Ok (JBuffer b)"
    and cast: "Cast L (cid_Bytes c) = Ok c"
begin

lemma cids_come_back: "buffer_to_Cid L (CidToJSCID Cids_New c) = Ok c"
  using cast by (simp add: buffer_to_Cid_def CidToJSCID_def JsCidToCid_def SliceToJSBuffer_def SliceToJSArray_def buffer)

end

definition ref_Cids_New :: "jsv \<Rightarrow> jsv" where
  "ref_Cids_New b = JObject [(''version'', JNumber 1), (''buffer'', b)]"

interpretation ref_cids: js_cids ref_Cids_New "ref_rounds dec"
  by unfold_locales (auto simp: ref_Cids_New_def js_Get_def ref_rounds_def ref_proofs_def)

text \<open>The arguments of \<^verbatim>\<open>SafeInvoke\<close>: errors, which \<^verbatim>\<open>js.ValueOf\<close> refuses, and other values.\<close>

datatype invoke_arg = Go_error string | Go_value jsv

fun SafeInvoke :: "invoke_arg list \<Rightarrow> jsv list" where
  "SafeInvoke [] = []"
| "SafeInvoke (Go_error msg # args) = JError msg # SafeInvoke args"
| "SafeInvoke (Go_value v # args) = v # SafeInvoke args"

text \<open>The message that \<^verbatim>\<open>QueueJS\<close> makes of what JavaScript hands over.\<close>

record pb_Message =
  pbm_From :: bytes
  pbm_Seqno :: bytes
  pbm_Data :: bytes
  pbm_TopicIDs :: "string list"

definition queued_message :: "(jsv \<Rightarrow> string) \<Rightarrow> jsv \<Rightarrow> pb_Message res" where
  "queued_message describe msg =
     rbind (js_Get msg ''from'') (\<lambda>from.
     rbind (rbind (js_Get msg ''seqno'') JsBufferToBytes) (\<lambda>seqno.
     rbind (rbind (js_Get msg ''data'') JsBufferToBytes) (\<lambda>data.
     rbind (rbind (js_Get msg ''topicIDs'') (JsStringArrayToStringSlice describe)) (\<lambda>topicIDs.
     Ok \<lparr>pbm_From = bytes_of (js_String describe from), pbm_Seqno = seqno, pbm_Data = data, pbm_TopicIDs = topicIDs\<rparr>))))"

lemma queued_message_eq:
  "queued_message describe (JObject [(''from'', JString f), (''data'', JBuffer d), (''seqno'', JBuffer n), (''topicIDs'', JArray (map JString ts))]) =
     Ok \<lparr>pbm_From = bytes_of f, pbm_Seqno = n, pbm_Data = d, pbm_TopicIDs = ts\<rparr>"
  by (simp add: queued_message_def js_Get_def strings_come_back js_String_def)

section \<open>The library object\<close>

text \<open>The references of \<^verbatim>\<open>src/wasm/jslibs/jslibs.go\<close>.\<close>

record jslibs =
  jl_Cids :: jsv
  jl_IpfsBlock :: jsv

definition exported_names :: "string list" where
  "exported_names = [''generateKey'', ''passPhraseKey'', ''keyFromPrivateBytes'', ''ecdsaPubkeyToDid'', ''ecdsaPubkeyToAddress'', ''newEmptyTree'',
     ''getTip'', ''getLatest'', ''tokenPayloadForTransaction'', ''verifyProof'', ''setLogLevel'', ''startClient'', ''waitForRound'', ''playTransactions'']"

fun set_exports :: "string list \<Rightarrow> jsv \<Rightarrow> jsv res" where
  "set_exports [] jsObj = Ok jsObj"
| "set_exports (f # fs) jsObj = rbind (js_Set jsObj f (JFunction f)) (set_exports fs)"

definition populateLibrary :: "jsv list \<Rightarrow> (jslibs, jsv) eff" where
  "populateLibrary args libs =
     (if length args \<noteq> 2 \<or> \<not> js_Truthy (args ! 0) \<or> \<not> js_Truthy (args ! 1) then (Panic ''error, must supply a valid object'', libs)
      else case rbind (js_Get (args ! 1) ''cids'') (\<lambda>cids. rbind (js_Get (args ! 1) ''ipfs-block'') (\<lambda>ipfsBlock.
          if \<not> js_Truthy cids \<or> \<not> js_Truthy ipfsBlock then Panic ''error, must supply a library object containing cids and ipfs-block''
          else Ok (cids, ipfsBlock))) of
        Ok (cids, ipfsBlock) \<Rightarrow> (set_exports exported_names (args ! 0), \<lparr>jl_Cids = cids, jl_IpfsBlock = ipfsBlock\<rparr>)
      | Fail e \<Rightarrow> (Fail e, libs)
      | Panic p \<Rightarrow> (Panic p, libs))"

lemma set_exports_object: "set_exports fs (JObject ps) = Ok (JObject (foldl (\<lambda>ps f. AList.update f (JFunction f) ps) ps fs))"
  by (induction fs arbitrary: ps) (simp_all add: js_Set_def)

lemma map_of_exports:
  "map_of (foldl (\<lambda>ps f. AList.update f (JFunction f) ps) ps fs) k = (if k \<in> set fs then Some (JFunction k) else map_of ps k)"
  by (induction fs arbitrary: ps) (auto simp: update_conv')

text \<open>A library is populated only with both helper libraries, which the bridge then uses; every export is set and nothing else of the object is touched.\<close>

theorem populateLibrary_exports:
  assumes "populateLibrary args libs = (Ok v, libs')" "args ! 0 = JObject ps"
  shows "(\<forall>k. js_Get v k = (if k \<in> set exported_names then Ok (JFunction k) else js_Get (JObject ps) k)) \<and>
    js_Get (args ! 1) ''cids'' = Ok (jl_Cids libs') \<and> js_Get (args ! 1) ''ipfs-block'' = Ok (jl_IpfsBlock libs') \<and>
    js_Truthy (jl_Cids libs') \<and> js_Truthy (jl_IpfsBlock libs')"
proof -
  obtain cids ipfsBlock where libs: "js_Get (args ! 1) ''cids'' = Ok cids" "js_Get (args ! 1) ''ipfs-block'' = Ok ipfsBlock"
      "js_Truthy cids" "js_Truthy ipfsBlock" "libs' = \<lparr>jl_Cids = cids, jl_IpfsBlock = ipfsBlock\<rparr>"
    and v: "set_exports exported_names (JObject ps) = Ok v"
    using assms by (auto simp: populateLibrary_def rbind_Ok_iff split: if_splits res.splits)
  from v have "v = JObject (foldl (\<lambda>ps f. AList.update f (JFunction f) ps) ps exported_names)" by (simp add: set_exports_object)
  then show ?thesis using libs by (simp add: js_Get_def map_of_exports)
qed

section \<open>Exports that need no client\<close>

text \<open>
  An exported function reads its arguments at once, which panics if one is missing, and returns a promise: the inner result is the outcome of the goroutine,
  which converts the values it was given.
\<close>

definition js_arg :: "jsv list \<Rightarrow> nat \<Rightarrow> jsv res" where
  "js_arg args i = (if i < length args then Ok (args ! i) else Panic ''index out of range'')"

definition call_generateKey where
  "call_generateKey C J generated args = Ok (js_GenerateKey C J generated)"

definition call_passPhraseKey where
  "call_passPhraseKey C J KD args =
     rbind (js_arg args 0) (\<lambda>jsPhrase. rbind (js_arg args 1) (\<lambda>jsSalt.
     Ok (rbind (JsBufferToBytes jsPhrase) (\<lambda>phrase. rbind (JsBufferToBytes jsSalt) (\<lambda>salt. js_PassPhraseKey C J KD phrase salt)))))"

definition call_keyFromPrivateBytes where
  "call_keyFromPrivateBytes C J KD args =
     rbind (js_arg args 0) (\<lambda>jsBits. Ok (rbind (JsBufferToBytes jsBits) (KeyFromPrivateBytes C J KD)))"

definition call_ecdsaPubkeyToDid where
  "call_ecdsaPubkeyToDid C args = rbind (js_arg args 0) (\<lambda>jsBits. Ok (rbind (JsBufferToBytes jsBits) (js_EcdsaPubkeyToDid C)))"

definition call_ecdsaPubkeyToAddress where
  "call_ecdsaPubkeyToAddress C args = rbind (js_arg args 0) (\<lambda>jsBits. Ok (rbind (JsBufferToBytes jsBits) (EcdsaPubkeyToAddress C)))"

text \<open>\<^verbatim>\<open>trees\<close> and \<^verbatim>\<open>store\<close> are what \<^verbatim>\<open>jsstore.New\<close> makes of a block service.\<close>

definition call_newEmptyTree where
  "call_newEmptyTree C trees args =
     rbind (js_arg args 0) (\<lambda>service. rbind (js_arg args 1) (\<lambda>jsBits.
     Ok (ebind (elift (JsBufferToBytes jsBits)) (js_NewEmptyTree C (trees service)))))"

definition call_tokenPayloadForTransaction where
  "call_tokenPayloadForTransaction describe J L store H D chain_Tree transactors args =
     rbind (js_arg args 0) (\<lambda>jsOpts.
     rbind (js_Get jsOpts ''blockService'') (\<lambda>service. rbind (js_Get jsOpts ''tip'') (\<lambda>jsTip. rbind (js_Get jsOpts ''tokenName'') (\<lambda>tokenName.
     rbind (js_Get jsOpts ''sendId'') (\<lambda>sendId. rbind (js_Get jsOpts ''jsSendTxProof'') (\<lambda>jsProof.
     Ok (ebind (elift (buffer_to_Cid L jsTip)) (\<lambda>tip.
         ebind (run_store (store service) (cl_NewChainTree H tip [] transactors)) (\<lambda>_.
         ebind (elift (rbind (JsBufferToBytes jsProof) (proof_Unmarshal J))) (\<lambda>proof.
         let canonicalTokenName = TokenNameFromString (js_String describe tokenName) in
         ebind (eread (TokenPayloadForTransaction D chain_Tree tip canonicalTokenName (js_String describe sendId) (Some proof))) (\<lambda>payload.
         ebind (elift (payload_Marshal J payload)) (\<lambda>bits.
         eret (Some (Js_bytes bits))))))))))))))"

lemma call_tokenPayload_bytes:
  "call_tokenPayloadForTransaction describe J L store H D chain_Tree transactors
     [JObject [(''blockService'', service), (''tip'', JObject [(''buffer'', JBuffer tip)]), (''tokenName'', JString name), (''sendId'', JString send_id),
       (''jsSendTxProof'', JUint8Array proof)]] =
   Ok (js_TokenPayloadForTransaction J L (store service) H D chain_Tree transactors tip name send_id proof)"
  by (simp add: call_tokenPayloadForTransaction_def js_TokenPayloadForTransaction_def js_arg_def js_Get_def buffer_to_Cid_def js_String_def)

text \<open>Keys survive the way through JavaScript: the private bytes of a pair give the same pair again, and the public bytes the identifier of the key.\<close>

theorem keys_come_back:
  assumes "\<And>d. ToECDSA KD (FromECDSA J d) = Ok d" "UnmarshalPubkey C (FromECDSAPub C (ecdsa_Public C key)) = Ok (ecdsa_Public C key)"
    and "call_generateKey C J (Ok key) args = Ok (Ok (Some (Js_pair private public)))"
  shows "call_keyFromPrivateBytes C J KD [SliceToJSArray private] = Ok (Ok (Some (Js_pair private public))) \<and>
    call_ecdsaPubkeyToDid C [SliceToJSArray public] = Ok (Ok (Some (Js_string (AddrToDid (key_addr C key)))))"
  using assms
  by (auto simp: call_generateKey_def js_GenerateKey_def key_pair_def call_keyFromPrivateBytes_def js_arg_def KeyFromPrivateBytes_def
      jsKeyBitsToPrivateKey_def call_ecdsaPubkeyToDid_def js_EcdsaPubkeyToDid_def jsToPubKey_def EcdsaPubkeyToDid_def key_addr_def Let_def)

end
