(* ===== verification/Tracing.thy ===== *)
theory Tracing
  imports Prelude
begin

text \<open>
  \<^verbatim>\<open>src/tracing/interfaces.go\<close>: what an actor embeds to be traceable. A context carries the span it is in and, under a key of its own, the span of the
  trace; the tracer is the list of what was done to spans.
\<close>

section \<open>Contexts and the tracer\<close>

type_synonym span = nat

record trace_ctx =
  cx_span :: "span option"
  cx_parent :: "span option"

definition ctx_Background :: trace_ctx where
  "ctx_Background = \<lparr>cx_span = None, cx_parent = None\<rparr>"

datatype trace_event = Started span string "span option" | Finished span | Tagged span string

text \<open>A span is named by its number in the order of starting.\<close>

record tracer =
  tr_next :: span
  tr_events :: "trace_event list"

definition start_span :: "span option \<Rightarrow> string \<Rightarrow> tracer \<Rightarrow> span \<times> tracer" where
  "start_span within name tr = (tr_next tr, tr\<lparr>tr_next := Suc (tr_next tr), tr_events := tr_events tr @ [Started (tr_next tr) name within]\<rparr>)"

definition record_event :: "trace_event \<Rightarrow> tracer \<Rightarrow> tracer" where
  "record_event ev tr = tr\<lparr>tr_events := tr_events tr @ [ev]\<rparr>"

section \<open>Context holders\<close>

record ContextHolder =
  ch_context :: "trace_ctx option"
  ch_started :: bool

definition nil_panic :: "'a res" where
  "nil_panic = Panic ''invalid memory address or nil pointer dereference''"

definition StartTrace :: "string \<Rightarrow> (ContextHolder \<times> tracer, span) eff" where
  "StartTrace name = (\<lambda>(ch, tr). case start_span None name tr of
     (parent, tr) \<Rightarrow> (Ok parent, ch\<lparr>ch_started := True, ch_context := Some \<lparr>cx_span = Some parent, cx_parent = Some parent\<rparr>\<rparr>, tr))"

text \<open>Without a context the call to \<^verbatim>\<open>Value\<close> is on a nil interface.\<close>

definition StopTrace :: "(ContextHolder \<times> tracer, unit) eff" where
  "StopTrace = (\<lambda>(ch, tr). let ch = ch\<lparr>ch_started := False\<rparr> in
     case ch_context ch of
       None \<Rightarrow> (nil_panic, ch, tr)
     | Some ctx \<Rightarrow> (case cx_parent ctx of
         Some sp \<Rightarrow> (Ok (), ch, record_event (Finished sp) tr)
       | None \<Rightarrow> (Ok (), ch, tr)))"

definition Traceable_Started :: "ContextHolder \<Rightarrow> bool" where
  "Traceable_Started ch = ch_started ch"

definition GetContext :: "ContextHolder \<Rightarrow> trace_ctx" where
  "GetContext ch = (case ch_context ch of None \<Rightarrow> ctx_Background | Some ctx \<Rightarrow> ctx)"

text \<open>\<^verbatim>\<open>StartSpanFromContext\<close> never returns a nil span.\<close>

definition NewSpan :: "string \<Rightarrow> (ContextHolder \<times> tracer, span) eff" where
  "NewSpan name = (\<lambda>(ch, tr). let ctx = GetContext ch in
     case start_span (cx_span ctx) name tr of (sp, tr) \<Rightarrow> (Ok sp, ch\<lparr>ch_context := Some (ctx\<lparr>cx_span := Some sp\<rparr>)\<rparr>, tr))"

definition SetTag :: "string \<Rightarrow> (ContextHolder \<times> tracer, unit) eff" where
  "SetTag key = (\<lambda>(ch, tr). case ch_context ch of
     None \<Rightarrow> (nil_panic, ch, tr)
   | Some ctx \<Rightarrow> (case cx_span ctx of
       None \<Rightarrow> (nil_panic, ch, tr)
     | Some sp \<Rightarrow> (Ok (), ch, record_event (Tagged sp key) tr)))"

definition LogKV :: "string \<Rightarrow> (ContextHolder \<times> tracer, unit) eff" where
  "LogKV key = SetTag key"

definition SetContext :: "trace_ctx option \<Rightarrow> ContextHolder \<Rightarrow> ContextHolder" where
  "SetContext ctx ch = (let ctx = (case ctx of None \<Rightarrow> ctx_Background | Some c \<Rightarrow> c) in
     case cx_span ctx of
       Some parent \<Rightarrow> ch\<lparr>ch_started := True, ch_context := Some (ctx\<lparr>cx_parent := Some parent\<rparr>)\<rparr>
     | None \<Rightarrow> ch\<lparr>ch_context := Some ctx\<rparr>)"

text \<open>\<^verbatim>\<open>inject\<close> and \<^verbatim>\<open>extract\<close> are those of the global tracer.\<close>

definition SerializedContext :: "(span \<Rightarrow> 'm res) \<Rightarrow> ContextHolder \<Rightarrow> 'm res" where
  "SerializedContext inject ch = (case ch_context ch of
     None \<Rightarrow> nil_panic
   | Some ctx \<Rightarrow> (case cx_span ctx of None \<Rightarrow> nil_panic | Some sp \<Rightarrow> wrapf ''error injecting: %v'' (inject sp)))"

definition SpanContextFromSerialized :: "('m \<Rightarrow> span res) \<Rightarrow> 'm \<Rightarrow> string \<Rightarrow> (tracer, span) eff" where
  "SpanContextFromSerialized extract serialized childName =
     ebind (elift (wrapf ''error rehydrating: %v'' (extract serialized))) (\<lambda>spanContext tr.
     case start_span (Some spanContext) childName tr of (sp, tr) \<Rightarrow> (Ok sp, tr))"

definition RehydrateSerialized :: "('m \<Rightarrow> span res) \<Rightarrow> 'm \<Rightarrow> string \<Rightarrow> (ContextHolder \<times> tracer, span) eff" where
  "RehydrateSerialized extract serialized childName = (\<lambda>(ch, tr).
     case ewrapf ''error deserializing: %v'' (SpanContextFromSerialized extract serialized childName) tr of
       (Ok sp, tr) \<Rightarrow> (Ok sp, SetContext (Some (ctx_Background\<lparr>cx_span := Some sp\<rparr>)) ch, tr)
     | (Fail e, tr) \<Rightarrow> (Fail e, ch, tr)
     | (Panic p, tr) \<Rightarrow> (Panic p, ch, tr))"

section \<open>Traces are closed\<close>

datatype trace_op = Op_span string | Op_tag string

fun trace_ops :: "trace_op list \<Rightarrow> ContextHolder \<times> tracer \<Rightarrow> ContextHolder \<times> tracer" where
  "trace_ops [] s = s"
| "trace_ops (Op_span name # ops) s = trace_ops ops (snd (NewSpan name s))"
| "trace_ops (Op_tag key # ops) s = trace_ops ops (snd (SetTag key s))"

lemma trace_ops_parent:
  assumes "ch_context ch = Some ctx" "cx_parent ctx = Some p" "trace_ops ops (ch, tr) = (ch', tr')"
  shows "\<exists>ctx'. ch_context ch' = Some ctx' \<and> cx_parent ctx' = Some p"
  using assms
proof (induction ops "(ch, tr)" arbitrary: ch ctx tr rule: trace_ops.induct)
  case (2 name ops ch tr)
  obtain ch1 tr1 where n: "snd (NewSpan name (ch, tr)) = (ch1, tr1)" by fastforce
  then have "ch_context ch1 = Some (ctx\<lparr>cx_span := Some (tr_next tr)\<rparr>)"
    using 2(2) by (auto simp: NewSpan_def GetContext_def start_span_def Let_def)
  from 2(1) [OF n this] 2(3,4) n show ?case by simp
next
  case (3 key ops ch tr)
  have "\<exists>tr1. snd (SetTag key (ch, tr)) = (ch, tr1)" by (simp add: SetTag_def split: option.split)
  then obtain tr1 where n: "snd (SetTag key (ch, tr)) = (ch, tr1)" by blast
  from 3(1) [OF n 3(2,3)] 3(4) n show ?case by simp
qed auto

text \<open>
  \<^verbatim>\<open>StopTrace\<close> finishes the span that \<^verbatim>\<open>StartTrace\<close> started, whatever spans and tags come in between.
\<close>

theorem trace_closed:
  assumes "StartTrace name (ch, tr) = (Ok parent, s)" "StopTrace (trace_ops ops s) = (r, ch', tr')"
  shows "r = Ok () \<and> \<not> Traceable_Started ch' \<and> last (tr_events tr') = Finished parent"
proof -
  obtain ch1 tr1 where s: "trace_ops ops s = (ch1, tr1)" by fastforce
  have "\<exists>ch0 tr0. s = (ch0, tr0) \<and> ch_context ch0 = Some \<lparr>cx_span = Some parent, cx_parent = Some parent\<rparr>"
    using assms(1) by (auto simp: StartTrace_def split: prod.splits)
  with trace_ops_parent s obtain ctx where "ch_context ch1 = Some ctx" "cx_parent ctx = Some parent" by fastforce
  with assms(2) s show ?thesis by (auto simp: StopTrace_def record_event_def Traceable_Started_def Let_def)
qed

section \<open>Tracing services\<close>

text \<open>
  \<^verbatim>\<open>src/tracing/tracing.go\<close>: the package variables, the global tracer, and the closers that were closed. The configuration from the
  environment and the making of a tracer are arguments; \<^verbatim>\<open>sample_all\<close> sets the name and the constant sampler.
\<close>

record ('c, 't) tracing_globals =
  tg_Enabled :: bool
  tg_jaegerCloser :: "'c option"
  tg_GlobalTracer :: 't
  tg_closed :: "'c list"

definition StartElastic :: "'t \<Rightarrow> ('c, 't) tracing_globals \<Rightarrow> ('c, 't) tracing_globals" where
  "StartElastic apmot_New g = g\<lparr>tg_Enabled := True, tg_GlobalTracer := apmot_New\<rparr>"

definition StopJaeger :: "(('c, 't) tracing_globals, unit) eff" where
  "StopJaeger g = (let g = g\<lparr>tg_Enabled := False\<rparr> in
     case tg_jaegerCloser g of None \<Rightarrow> (nil_panic, g) | Some closer \<Rightarrow> (Ok (), g\<lparr>tg_closed := tg_closed g @ [closer]\<rparr>))"

definition StartJaeger ::
  "'cfg res \<Rightarrow> (string \<Rightarrow> 'cfg \<Rightarrow> 'cfg) \<Rightarrow> ('cfg \<Rightarrow> ('t \<times> 'c) res) \<Rightarrow> string \<Rightarrow> (('c, 't) tracing_globals, unit) eff" where
  "StartJaeger FromEnv sample_all NewTracer serviceName g = (let g = g\<lparr>tg_Enabled := True\<rparr> in
     case FromEnv of
       Fail e \<Rightarrow> (Ok (), g)
     | Panic p \<Rightarrow> (Panic p, g)
     | Ok cfg \<Rightarrow> (case NewTracer (sample_all serviceName cfg) of
         Fail e \<Rightarrow> (Ok (), g)
       | Panic p \<Rightarrow> (Panic p, g)
       | Ok (tracer, closer) \<Rightarrow> (Ok (), g\<lparr>tg_jaegerCloser := Some closer, tg_GlobalTracer := tracer\<rparr>)))"

text \<open>
  Stopping works after a start that worked. A start that failed only logs, leaves \<^verbatim>\<open>Enabled\<close> set, and stopping then panics; so does stopping
  after \<^verbatim>\<open>StartElastic\<close>.
\<close>

theorem jaeger_lifecycle:
  assumes "tg_jaegerCloser g = None" "StartJaeger FromEnv sample_all NewTracer name g = (Ok (), g')"
  shows "tg_Enabled g' \<and>
    (case rbind FromEnv (\<lambda>cfg. NewTracer (sample_all name cfg)) of
       Ok (tracer, closer) \<Rightarrow> tg_GlobalTracer g' = tracer \<and>
         StopJaeger g' = (Ok (), g'\<lparr>tg_Enabled := False, tg_closed := tg_closed g @ [closer]\<rparr>)
     | _ \<Rightarrow> tg_GlobalTracer g' = tg_GlobalTracer g \<and> fst (StopJaeger g') = nil_panic) \<and>
    fst (StopJaeger (StartElastic apm g)) = nil_panic"
  using assms
  by (auto simp: StartJaeger_def StopJaeger_def StartElastic_def Let_def split: res.splits prod.splits)

end
