(* ===== verification/Consensus_Types.thy ===== *)
theory Consensus_Types
  imports Transactions Signatures
begin

text \<open>
  \<^verbatim>\<open>src/consensus/errorcode.go\<close> as an error type of its own, \<^verbatim>\<open>src/consensus/types.go\<close>, and the default scope of signature conditions that the
  \<^verbatim>\<open>init\<close> function of \<^verbatim>\<open>src/signatures/signature.go\<close> makes.
\<close>

section \<open>Coded errors\<close>

record CodedError =
  ec_Code :: int
  ec_Memo :: string

definition GetCode :: "CodedError \<Rightarrow> int" where
  "GetCode e = ec_Code e"

definition CodedError_Error :: "CodedError \<Rightarrow> string" where
  "CodedError_Error e = show_int (ec_Code e) @ '' - '' @ ec_Memo e"

text \<open>The text of an error says what its code and its memo are.\<close>

lemma decimal_digits: "c \<in> set (decimal n) \<Longrightarrow> 48 \<le> (of_char c :: nat) \<and> (of_char c :: nat) < 58"
proof (induction n rule: decimal.induct)
  case (1 n)
  have digit: "48 \<le> (of_char (char_of (48 + m) :: char) :: nat) \<and> (of_char (char_of (48 + m) :: char) :: nat) < 58" if "m < 10" for m :: nat
    using that by simp
  show ?case using 1 digit by (subst (asm) (2) decimal.simps) (auto split: if_splits)
qed

lemma decimal_value: "foldl (\<lambda>v c. 10 * v + (of_char c - 48)) 0 (decimal n) = n"
proof (induction n rule: decimal.induct)
  case (1 n)
  show ?case
  proof (cases "n < 10")
    case True
    then show ?thesis by (subst decimal.simps) simp
  next
    case False
    then show ?thesis using 1 by (subst decimal.simps) simp
  qed
qed

lemma decimal_inj: "decimal m = decimal n \<longleftrightarrow> m = n"
  using decimal_value by metis

lemma show_int_chars: "c \<in> set (show_int i) \<Longrightarrow> c \<noteq> CHR '' ''"
  using decimal_digits [of "CHR '' ''"] by (fastforce simp: show_int_def split: if_splits)

lemma no_minus: "CHR ''-'' # s \<noteq> decimal n"
proof
  assume "CHR ''-'' # s = decimal n"
  then have "CHR ''-'' \<in> set (decimal n)" by (metis list.set_intros(1))
  then show False using decimal_digits [of "CHR ''-''" n] by simp
qed

lemma show_int_inj: "show_int i = show_int j \<longleftrightarrow> i = j"
  using no_minus no_minus [symmetric] by (auto simp: show_int_def decimal_inj)

lemma split_at_space:
  assumes "a @ CHR '' '' # s = b @ CHR '' '' # t" "CHR '' '' \<notin> set a" "CHR '' '' \<notin> set b"
  shows "a = b \<and> s = t"
  using assms
proof (induction a arbitrary: b)
  case Nil
  then show ?case by (cases b) auto
next
  case (Cons c a)
  then show ?case by (cases b) auto
qed

theorem CodedError_text: "CodedError_Error e = CodedError_Error e' \<longleftrightarrow> e = e'"
proof
  assume "CodedError_Error e = CodedError_Error e'"
  then have "show_int (ec_Code e) @ CHR '' '' # (''- '' @ ec_Memo e) = show_int (ec_Code e') @ CHR '' '' # (''- '' @ ec_Memo e')"
    by (simp add: CodedError_Error_def)
  moreover have "CHR '' '' \<notin> set (show_int i)" for i using show_int_chars by blast
  ultimately have "show_int (ec_Code e) = show_int (ec_Code e')" "''- '' @ ec_Memo e = ''- '' @ ec_Memo e'"
    using split_at_space by blast+
  then show "e = e'" by (simp add: show_int_inj)
qed simp

section \<open>Messages about tips\<close>

definition MessageType_AddBlock :: string where "MessageType_AddBlock = ''ADD_BLOCK''"
definition MessageType_TipRequest :: string where "MessageType_TipRequest = ''TIP_REQUEST''"
definition MessageType_GetDiffNodes :: string where "MessageType_GetDiffNodes = ''GET_DIFF_NODES''"

text \<open>Pointers to CIDs may be nil.\<close>

record GetDiffNodesRequest =
  gdr_PreviousTip :: "cid option"
  gdr_NewTip :: "cid option"

record GetDiffNodesResponse =
  gds_Nodes :: "bytes list"

record TipRequest =
  trq_ChainId :: string

record TipResponse =
  trs_ChainId :: string
  trs_Tip :: "cid option"
  trs_Signature :: Signature

record TipSignature =
  tsg_Tip :: "cid option"
  tsg_Signature :: Signature

section \<open>The scope of conditions\<close>

text \<open>What is bound in the default scope: the conditional macro, booleans, and two Go functions.\<close>

datatype scope_value = Macro_Conditional | Scope_bool bool | Go_println | Go_now

text \<open>\<^verbatim>\<open>parens\<close>: an empty scope, binding a name, and the functions of arithmetic.\<close>

record 'sc parens_lib =
  NewScope :: 'sc
  Scope_Bind :: "string \<Rightarrow> scope_value \<Rightarrow> ('sc, unit) eff"
  RegisterMath :: "('sc, unit) eff"

fun bindMany :: "'sc parens_lib \<Rightarrow> (string \<times> scope_value) list \<Rightarrow> ('sc, unit) eff" where
  "bindMany P [] = eret ()"
| "bindMany P ((key, val) # entries) = ebind (ewrapf ''error binding: %w'' (Scope_Bind P key val)) (\<lambda>_. bindMany P entries)"

definition default_entries :: "(string \<times> scope_value) list" where
  "default_entries = [(''cond'', Macro_Conditional), (''true'', Scope_bool True), (''false'', Scope_bool False), (''nil'', Scope_bool False),
     (''println'', Go_println), (''now'', Go_now)]"

definition panic_on_error :: "'a res \<Rightarrow> 'a res" where
  "panic_on_error r = (case r of Ok x \<Rightarrow> Ok x | Fail e \<Rightarrow> Panic ''error'' | Panic p \<Rightarrow> Panic p)"

definition defaultScope :: "'sc parens_lib \<Rightarrow> 'sc res" where
  "defaultScope P =
     (case bindMany P default_entries (NewScope P) of (r, scope) \<Rightarrow>
      rbind (panic_on_error r) (\<lambda>_.
      case RegisterMath P scope of (r, scope) \<Rightarrow> rbind (panic_on_error r) (\<lambda>_. Ok scope)))"

text \<open>A library whose scopes are maps in which names are bound once or again; arithmetic takes names of its own.\<close>

locale map_scopes =
  fixes P :: "'sc parens_lib" and look :: "'sc \<Rightarrow> string \<Rightarrow> scope_value option"
  assumes bind: "\<exists>sc'. Scope_Bind P key val sc = (Ok (), sc') \<and> look sc' = (look sc)(key \<mapsto> val)"
    and register: "\<exists>sc'. RegisterMath P sc = (Ok (), sc') \<and> (\<forall>key \<in> fst ` set default_entries. look sc' key = look sc key)"
begin

lemma bindMany_looks: "\<exists>sc'. bindMany P entries sc = (Ok (), sc') \<and> look sc' = look sc ++ map_of (rev entries)"
proof (induction entries arbitrary: sc)
  case (Cons e entries)
  obtain key val where e: "e = (key, val)" by fastforce
  obtain sc1 where sc1: "Scope_Bind P key val sc = (Ok (), sc1)" "look sc1 = (look sc)(key \<mapsto> val)" using bind by blast
  obtain sc2 where sc2: "bindMany P entries sc1 = (Ok (), sc2)" "look sc2 = look sc1 ++ map_of (rev entries)" using Cons by blast
  have "(look sc)(key \<mapsto> val) ++ map_of (rev entries) = look sc ++ map_of (rev (e # entries))"
    by (simp add: e map_add_def fun_eq_iff split: option.split)
  then have "look sc2 = look sc ++ map_of (rev (e # entries))" by (simp only: sc2(2) sc1(2))
  moreover have "bindMany P (e # entries) sc = (Ok (), sc2)" using sc1(1) sc2(1) by (simp add: e ebind_def ewrapf_def)
  ultimately show ?case by blast
qed (simp add: eret_def)

lemma default_scope: "\<exists>sc. defaultScope P = Ok sc \<and> (\<forall>(key, val) \<in> set default_entries. look sc key = Some val)"
proof -
  obtain sc1 where sc1: "bindMany P default_entries (NewScope P) = (Ok (), sc1)" "look sc1 = look (NewScope P) ++ map_of (rev default_entries)"
    using bindMany_looks by blast
  obtain sc2 where sc2: "RegisterMath P sc1 = (Ok (), sc2)" "\<forall>key \<in> fst ` set default_entries. look sc2 key = look sc1 key"
    using register by blast
  have "look sc2 key = Some val" if "(key, val) \<in> set default_entries" for key val
  proof -
    have "map_of (rev default_entries) key = Some val" using that by (intro map_of_is_SomeI) (auto simp: default_entries_def)
    moreover have "key \<in> fst ` set default_entries" using that by force
    ultimately show ?thesis using sc1(2) bspec [OF sc2(2)] by simp
  qed
  then show ?thesis using sc1(1) sc2(1) by (auto simp: defaultScope_def panic_on_error_def)
qed

end

definition ref_parens :: "(string \<rightharpoonup> scope_value) parens_lib" where
  "ref_parens = \<lparr>NewScope = Map.empty, Scope_Bind = (\<lambda>key val sc. (Ok (), sc(key \<mapsto> val))), RegisterMath = (\<lambda>sc. (Ok (), sc))\<rparr>"

interpretation ref_scopes: map_scopes ref_parens id
  by unfold_locales (simp_all add: ref_parens_def)

text \<open>In conditions \<^verbatim>\<open>nil\<close> is false, and the name of the preimage is not taken.\<close>

lemma nil_is_false: "\<exists>sc. defaultScope ref_parens = Ok sc \<and> sc ''nil'' = Some (Scope_bool False) \<and> sc ''hashed-preimage'' = None"
  by (simp add: defaultScope_def ref_parens_def default_entries_def ebind_def ewrapf_def eret_def panic_on_error_def)

end
