(* ===== verification/Fixtures.thy ===== *)
theory Fixtures
  imports Validator_Properties Block_Requests Host_Streams
begin

text \<open>
  \<^verbatim>\<open>src/gossip/testhelpers/helpers.go\<close> and \<^verbatim>\<open>src/testnotarygroup/testnotarygroup.go\<close>: the requests, keys and hosts that tests of the
  SDK and of its users start from. Random keys are arguments. A failed requirement (\<^verbatim>\<open>require\<close>, \<^verbatim>\<open>t.Fatalf\<close>) ends the test and is
  a panic here. The theorems say that the fixtures are what they are called: a valid transaction is signed by the owner of its tree, and the
  keys of a test set form a group.
\<close>

section \<open>Valid transactions\<close>

definition require_Nil :: "'a res \<Rightarrow> 'a res" where
  "require_Nil r = (case r of Ok x \<Rightarrow> Ok x | Fail e \<Rightarrow> Panic ''Expected nil'' | Panic p \<Rightarrow> Panic p)"

definition run_required :: "'st store_lib \<Rightarrow> 'a res store_prog \<Rightarrow> ('st, 'a) eff" where
  "run_required S p st = (case run_store S p st of (r, st') \<Rightarrow> (require_Nil r, st'))"

lemma require_Nil_Ok [simp, go_ok]: "require_Nil r = Ok x \<longleftrightarrow> r = Ok x"
  by (cases r) (simp_all add: require_Nil_def)

lemma run_required_Ok [go_ok]: "run_required S p st = (Ok x, st') \<longleftrightarrow> run_store S p st = (Ok x, st')"
  by (simp add: run_required_def split: prod.split)

text \<open>\<^verbatim>\<open>dag_Nodes\<close> is the library's listing of all nodes of a DAG.\<close>

definition DagToByteNodes :: "'st store_lib \<Rightarrow> (cid \<Rightarrow> node list res store_prog) \<Rightarrow> cid \<Rightarrow> ('st, bytes list) eff" where
  "DagToByteNodes S dag_Nodes tip = ebind (run_required S (dag_Nodes tip)) (\<lambda>cborNodes. eret (map node_RawData cborNodes))"

definition unsigned_first_block :: "Transaction \<Rightarrow> BlockWithHeaders" where
  "unsigned_first_block txn = \<lparr>bwh_Block = \<lparr>blk_Height = 0, blk_PreviousTip = None, blk_Transactions = [txn]\<rparr>, bwh_Headers = GNil\<rparr>"

text \<open>Whether \<^verbatim>\<open>ProcessBlock\<close> found the block valid is not looked at. \<^verbatim>\<open>new_txn\<close> is \<^verbatim>\<open>chaintree.NewSetDataTransaction\<close>.\<close>

definition NewValidTransactionWithPathAndValue ::
  "'st store_lib \<Rightarrow> ('v, 'x) chain_lib \<Rightarrow> 'st tree_lib \<Rightarrow> ('e, 'd, 'sc) crypto_lib \<Rightarrow> block_lib \<Rightarrow> (string \<Rightarrow> string \<Rightarrow> Transaction res) \<Rightarrow>
     (cid \<Rightarrow> node list res store_prog) \<Rightarrow> 'x \<Rightarrow> 'd \<Rightarrow> string \<Rightarrow> string \<Rightarrow> ('st, AddBlockRequest) eff" where
  "NewValidTransactionWithPathAndValue S H T C B new_txn dag_Nodes transactors treeKey path value =
     ebind (elift (require_Nil (new_txn path value))) (\<lambda>txn.
     let treeDID = AddrToDid (key_addr C treeKey) in
     ebind (NewEmptyTree T treeDID) (\<lambda>emptyTip.
     ebind (run_required S (cl_NewChainTree H emptyTip [] transactors)) (\<lambda>_.
     ebind (elift (require_Nil (SignBlock C B (unsigned_first_block txn) treeKey))) (\<lambda>blockWithHeaders.
     ebind (run_required S (cl_ProcessBlock H emptyTip [] transactors blockWithHeaders)) (\<lambda>(_, tip).
     ebind (DagToByteNodes S dag_Nodes tip) (\<lambda>nodes.
     ebind (elift (must (sw_WrapBlockWithHeaders H blockWithHeaders))) (\<lambda>wrapped.
     eret \<lparr>abr_ObjectId = bytes_of treeDID, abr_PreviousTip = cid_Bytes emptyTip, abr_Height = blk_Height (bwh_Block blockWithHeaders),
           abr_NewTip = cid_Bytes tip, abr_Payload = node_RawData wrapped, abr_State = nodes\<rparr>)))))))"

definition NewValidTransactionWithKey where
  "NewValidTransactionWithKey S H T C B new_txn dag_Nodes transactors treeKey =
     NewValidTransactionWithPathAndValue S H T C B new_txn dag_Nodes transactors treeKey ''down/in/the/thing'' ''hi''"

definition NewValidTransaction where
  "NewValidTransaction S H T C B new_txn dag_Nodes transactors GenerateKey =
     ebind (elift (require_Nil GenerateKey)) (NewValidTransactionWithKey S H T C B new_txn dag_Nodes transactors)"

lemma must_Ok [go_ok]: "must r = Ok x \<longleftrightarrow> r = Ok x"
  by (cases r) (simp_all add: must_def)

lemma valid_transaction_OkE:
  assumes "NewValidTransactionWithPathAndValue S H T C B new_txn dag_Nodes transactors key path value mem = (Ok abr, mem')"
  obtains txn tip0 mem0 b n where "new_txn path value = Ok txn" "NewEmptyTree T (AddrToDid (key_addr C key)) mem = (Ok tip0, mem0)"
    "SignBlock C B (unsigned_first_block txn) key = Ok b" "sw_WrapBlockWithHeaders H b = Ok n" "abr_Payload abr = node_RawData n"
    "abr_ObjectId abr = bytes_of (AddrToDid (key_addr C key))" "abr_PreviousTip abr = cid_Bytes tip0" "abr_Height abr = blk_Height (bwh_Block b)"
  using assms by (auto simp: NewValidTransactionWithPathAndValue_def Let_def go_ok)

lemma DidToAddr_AddrToDid: "CHR '':'' \<notin> set addr \<Longrightarrow> DidToAddr (AddrToDid addr) = addr"
  using Split_append [of "''did:tupelo''" "CHR '':''" addr] by (simp add: DidToAddr_def AddrToDid_def)

text \<open>
  The block of a valid transaction is the first of its tree and passes \<^verbatim>\<open>IsOwner\<close> on the empty tree it was made on, whose
  identifier is the request's and which has no authentications.
\<close>

theorem valid_transaction_owned:
  assumes "block_signing C B" "ToStandardHeaders B GNil = Ok hs" "sigs_of hs = []"
    and "\<And>b n. sw_WrapBlockWithHeaders H b = Ok n \<Longrightarrow> decode_BlockWithHeaders H (node_RawData n) = Ok b"
    and "NewValidTransactionWithPathAndValue S H T C B new_txn dag_Nodes transactors key path value mem = (Ok abr, mem')"
    and "CHR '':'' \<notin> set (key_addr C key)"
    and "dag_Resolve D t [''id''] s = Ok (GString (AddrToDid (key_addr C key)), r)" "dag_Resolve D t authentications_path s = Ok (GNil, r')"
  shows "abr_Height abr = 0 \<and> abr_ObjectId abr = bytes_of (AddrToDid (key_addr C key)) \<and>
    (\<exists>b txn. decode_BlockWithHeaders H (abr_Payload abr) = Ok b \<and> new_txn path value = Ok txn \<and> blk_Transactions (bwh_Block b) = [txn] \<and>
       IsOwner D C K B ToStrings (t, s) b = Ok True)"
proof -
  obtain txn b n where b: "new_txn path value = Ok txn" "SignBlock C B (unsigned_first_block txn) key = Ok b"
      "sw_WrapBlockWithHeaders H b = Ok n" "abr_Payload abr = node_RawData n"
    and abr: "abr_ObjectId abr = bytes_of (AddrToDid (key_addr C key))" "abr_Height abr = blk_Height (bwh_Block b)"
    using valid_transaction_OkE [OF assms(5)] by metis
  obtain hs' where content: "bwh_Block b = bwh_Block (unsigned_first_block txn)" "ToStandardHeaders B (bwh_Headers b) = Ok hs'"
    using block_signing.SignBlock_Ok [OF assms(1) b(2)] by metis
  have "owner_addrs ToStrings (AddrToDid (key_addr C key)) GNil = Ok [key_addr C key]"
    using DidToAddr_AddrToDid [OF assms(6)] by (simp add: owner_addrs_def)
  then have "IsOwner D C K B ToStrings (t, s) b = owners_loop (IsBlockSignedBy C K B b) [key_addr C key]"
    by (rule IsOwner_eq [OF assms(7,8) _ content(2)])
  with block_signing.SignBlock_signs [OF assms(1) b(2), of K] have "IsOwner D C K B ToStrings (t, s) b = Ok True" by simp
  with assms(4) [OF b(3)] b(1,4) abr content(1) show ?thesis by (simp add: unsigned_first_block_def)
qed

section \<open>Test sets\<close>

record ('k, 'p, 'd, 'e) TestSet =
  ts_SignKeys :: "('k, 'p) SignKey list"
  ts_VerKeys :: "'p VerKey list"
  ts_EcdsaKeys :: "'d list"
  ts_PubKeys :: "'e list"
  ts_SignKeysByAddress :: "string \<rightharpoonup> ('k, 'p) SignKey"

fun blsKeys_loop :: "('k, 'p) kyber \<Rightarrow> ('k \<times> 'p) list \<Rightarrow> ('k, 'p) SignKey list res" where
  "blsKeys_loop K [] = Ok []"
| "blsKeys_loop K (pair # pairs) = rbind (MustNewSignKey K pair) (\<lambda>key. rbind (blsKeys_loop K pairs) (\<lambda>keys. Ok (key # keys)))"

text \<open>\<^verbatim>\<open>pairs\<close> are the random pairs in the order they are drawn; \<^verbatim>\<open>make\<close> refuses a negative size.\<close>

definition blsKeys :: "('k, 'p) kyber \<Rightarrow> (nat \<Rightarrow> 'k \<times> 'p) \<Rightarrow> int \<Rightarrow> ('k, 'p) SignKey list res" where
  "blsKeys K pairs num = (if num < 0 then Panic ''makeslice: len out of range'' else blsKeys_loop K (map pairs [0..<nat num]))"

definition verKey_address :: "('e, 'd, 'sc) crypto_lib \<Rightarrow> 'p VerKey \<Rightarrow> string" where
  "verKey_address C verKey = Address_String C (case Address C (BLSToOwnership verKey) of Ok addr \<Rightarrow> addr | _ \<Rightarrow> BytesToAddress C [])"

fun test_set_loop ::
  "('e, 'd, 'sc) crypto_lib \<Rightarrow> (nat \<Rightarrow> 'd res) \<Rightarrow> nat \<Rightarrow> ('k, 'p) SignKey list \<Rightarrow> ('k, 'p, 'd, 'e) TestSet \<Rightarrow> ('k, 'p, 'd, 'e) TestSet res" where
  "test_set_loop C gen i [] ts = Ok ts"
| "test_set_loop C gen i (signKey # signKeys) ts =
     rbind (case gen i of Ok k \<Rightarrow> Ok k | _ \<Rightarrow> Panic ''error generating key: %v'') (\<lambda>ecdsaKey.
     rbind (MustVerKey signKey) (\<lambda>verKey.
     test_set_loop C gen (i + 1) signKeys (ts\<lparr>ts_VerKeys := ts_VerKeys ts @ [verKey], ts_PubKeys := ts_PubKeys ts @ [ecdsa_Public C ecdsaKey],
       ts_EcdsaKeys := ts_EcdsaKeys ts @ [ecdsaKey], ts_SignKeysByAddress := (ts_SignKeysByAddress ts)(verKey_address C verKey \<mapsto> signKey)\<rparr>)))"

definition NewTestSet ::
  "('e, 'd, 'sc) crypto_lib \<Rightarrow> ('k, 'p) kyber \<Rightarrow> (nat \<Rightarrow> 'k \<times> 'p) \<Rightarrow> (nat \<Rightarrow> 'd res) \<Rightarrow> int \<Rightarrow> ('k, 'p, 'd, 'e) TestSet res" where
  "NewTestSet C K pairs gen num =
     rbind (blsKeys K pairs num) (\<lambda>signKeys.
     test_set_loop C gen 0 signKeys \<lparr>ts_SignKeys = signKeys, ts_VerKeys = [], ts_EcdsaKeys = [], ts_PubKeys = [], ts_SignKeysByAddress = Map.empty\<rparr>)"

lemma blsKeys_loop_Ok:
  assumes "blsKeys_loop K pairs = Ok keys"
  shows "length keys = length pairs \<and> (\<forall>key \<in> set keys. \<exists>pair \<in> set pairs. NewSignKey K pair = Ok key)"
  using assms
proof (induction pairs arbitrary: keys)
  case (Cons pair pairs)
  then obtain key rest where "MustNewSignKey K pair = Ok key" "blsKeys_loop K pairs = Ok rest" "keys = key # rest"
    by (auto simp: rbind_Ok_iff)
  moreover from this(1) have "NewSignKey K pair = Ok key" by (simp add: MustNewSignKey_def split: res.splits)
  ultimately show ?case using Cons.IH by fastforce
qed simp

lemma test_set_loop_Ok:
  assumes "test_set_loop C gen i keys ts = Ok ts'"
  shows "ts_SignKeys ts' = ts_SignKeys ts \<and> ts_VerKeys ts' = ts_VerKeys ts @ map sk_verKey keys \<and>
    (\<exists>eks. length eks = length keys \<and> ts_EcdsaKeys ts' = ts_EcdsaKeys ts @ eks \<and> ts_PubKeys ts' = ts_PubKeys ts @ map (ecdsa_Public C) eks) \<and>
    ts_SignKeysByAddress ts' = ts_SignKeysByAddress ts ++ map_of (rev (map (\<lambda>key. (verKey_address C (sk_verKey key), key)) keys))"
  using assms
proof (induction C gen i keys ts rule: test_set_loop.induct)
  case (2 C gen i key keys ts)
  then obtain ek where ek: "gen i = Ok ek"
    and rest: "test_set_loop C gen (i + 1) keys (ts\<lparr>ts_VerKeys := ts_VerKeys ts @ [sk_verKey key], ts_PubKeys := ts_PubKeys ts @ [ecdsa_Public C ek],
       ts_EcdsaKeys := ts_EcdsaKeys ts @ [ek], ts_SignKeysByAddress := (ts_SignKeysByAddress ts)(verKey_address C (sk_verKey key) \<mapsto> key)\<rparr>) = Ok ts'"
    by (auto simp: rbind_Ok_iff MustVerKey_def SignKey_VerKey_def split: res.splits)
  have "(case gen i of Ok k \<Rightarrow> Ok k | _ \<Rightarrow> Panic ''error generating key: %v'') = Ok ek" using ek by simp
  from "2.IH" [OF this _ rest] show ?case
    by (auto simp: MustVerKey_def SignKey_VerKey_def intro: exI [of _ "ek # _"])
      (auto simp: map_add_def fun_eq_iff split: option.splits)
qed simp

text \<open>
  A test set is a group: its keys are aligned, and what any of its members sign together verifies against the set's verification keys and counts as many signers as
  signed. Its table finds the key of every address, if no two keys share one.
\<close>

theorem test_set_group:
  assumes "bls_scheme K" "NewTestSet C K pairs gen num = Ok ts" "\<And>i. snd (pairs i) = Point_Mul K (fst (pairs i))"
  shows "int (length (ts_SignKeys ts)) = num \<and> ts_VerKeys ts = map sk_verKey (ts_SignKeys ts) \<and>
    length (ts_EcdsaKeys ts) = length (ts_SignKeys ts) \<and> ts_PubKeys ts = map (ecdsa_Public C) (ts_EcdsaKeys ts) \<and>
    (distinct (map (verKey_address C) (ts_VerKeys ts)) \<longrightarrow>
       (\<forall>key \<in> set (ts_SignKeys ts). ts_SignKeysByAddress ts (verKey_address C (sk_verKey key)) = Some key)) \<and>
    (\<forall>ss js m. ss \<noteq> [] \<longrightarrow> length ss < 2 ^ 32 \<longrightarrow>
       list_all2 (\<lambda>s i. i < length (ts_SignKeys ts) \<and> BLSSign K (ts_SignKeys ts ! i) m num (int i) = Ok s) ss js \<longrightarrow>
       (\<exists>agg. AggregateBLSSignatures K ss = Ok agg \<and> RestoreBLSPublicKey K agg (ts_VerKeys ts) = Ok agg \<and>
          Valid C K agg m scope = Ok True \<and> SignerCount agg = card (set js)))"
proof -
  obtain keys where keys: "0 \<le> num" "blsKeys_loop K (map pairs [0..<nat num]) = Ok keys"
    and loop: "test_set_loop C gen 0 keys \<lparr>ts_SignKeys = keys, ts_VerKeys = [], ts_EcdsaKeys = [], ts_PubKeys = [], ts_SignKeysByAddress = Map.empty\<rparr> = Ok ts"
    using assms(2) by (auto simp: NewTestSet_def blsKeys_def rbind_Ok_iff split: if_splits)
  have ts: "ts_SignKeys ts = keys" "ts_VerKeys ts = map sk_verKey keys" "length (ts_EcdsaKeys ts) = length keys"
    "ts_PubKeys ts = map (ecdsa_Public C) (ts_EcdsaKeys ts)"
    "ts_SignKeysByAddress ts = map_of (rev (map (\<lambda>key. (verKey_address C (sk_verKey key), key)) keys))"
    using test_set_loop_Ok [OF loop] by auto
  have num: "int (length keys) = num" using blsKeys_loop_Ok [OF keys(2)] keys(1) by simp
  have "sk_verKey key = \<lparr>vk_value = bytes_or_nil (Point_MarshalBinary K (Point_Mul K (sk_private key))), vk_public = Point_Mul K (sk_private key)\<rparr>"
    if "key \<in> set keys" for key
  proof -
    from blsKeys_loop_Ok [OF keys(2)] that obtain i where "NewSignKey K (pairs i) = Ok key" by auto
    with assms(3) [of i] show ?thesis by (cases "pairs i") (auto simp: NewSignKey_def bytes_or_nil_def rbind_Ok_iff)
  qed
  then have "bls_scheme.members K keys" by (simp add: bls_scheme.members_def [OF assms(1)])
  note verify = bls_scheme.members_verify [OF assms(1) this, unfolded num]
  have table: "ts_SignKeysByAddress ts (verKey_address C (sk_verKey key)) = Some key"
    if "distinct (map (verKey_address C) (ts_VerKeys ts))" "key \<in> set keys" for key
    using that ts(2,5) by (auto simp: rev_map [symmetric] o_def intro!: map_of_is_SomeI)
  from ts num table show ?thesis by (simp add: verify)
qed

section \<open>Hosts of tests\<close>

text \<open>The arguments are those of \<^verbatim>\<open>NewLibP2PHost\<close>; the host is never nil without an error.\<close>

definition NewBootstrapHost where
  "NewBootstrapHost B gen_key pubsub_opts reporter store public_ip relay_opts GenerateKey =
     rbind (require_Nil GenerateKey) (\<lambda>key.
     require_Nil (NewLibP2PHost B gen_key pubsub_opts reporter store public_ip relay_opts (Some key) 0))"

text \<open>The first address on the loopback interface, or nil.\<close>

fun BootstrapAddresses :: "string list \<Rightarrow> string list" where
  "BootstrapAddresses [] = []"
| "BootstrapAddresses (addrStr # addresses) =
     (if Contains addrStr ''127.0.0.1'' then [addrStr] else BootstrapAddresses addresses)"

lemma BootstrapAddresses_eq:
  "BootstrapAddresses addrs = (case find (\<lambda>a. Contains a ''127.0.0.1'') addrs of None \<Rightarrow> [] | Some a \<Rightarrow> [a])"
  by (induction addrs) auto

end
