(* ===== verification/Spec2Isabelle.thy ===== *)
theory Spec2Isabelle
  imports Transaction_Runs Proofs Subscriber_Properties Validator_Properties Human_Config Block_Requests
    Client_Properties Genesis Waiting Subscriptions Host_Services Js_Client_Properties Js_Bridge Js_Library Tracing Consensus_Types Fixtures
begin

text \<open>
  A verification development for the Tupelo Go SDK. Tupelo keeps objects as chain trees: DAGs of hashed nodes whose every change is a block of
  transactions signed by the owner. A client sends a block, wrapped in an add-block request, to a notary group; the group confirms
  rounds, each with a checkpoint of accepted requests, by an aggregated BLS signature of at least two thirds of its members; the client waits for the
  round that includes its request and keeps the round, its confirmation and the request as a proof. Tokens live in the trees: a send in one
  tree is received in another with a proof of the tip that contains it.

  \<^bold>\<open>How the parts interact.\<close> The transactors (\<^verbatim>\<open>consensus/transactions.go\<close>) change a tree through the token ledger (\<^verbatim>\<open>consensus/tree_ledger.go\<close>); the block validators
  (\<^verbatim>\<open>gossip/types/validators.go\<close>) decide whether a block may be applied and call the verification of proofs (\<^verbatim>\<open>proof/proof.go\<close>), which restores keys and checks signatures
  (\<^verbatim>\<open>signatures/signature.go\<close>, \<^verbatim>\<open>bls/bls.go\<close>) for the members of a group (\<^verbatim>\<open>gossip/types/notarygroup.go\<close>). The client (\<^verbatim>\<open>gossip/client\<close>) makes requests over a store that tracks what is read,
  follows rounds with a subscriber whose goroutine handles the confirmations, and asks the hamt of the current round for tips. The \<^verbatim>\<open>p2p\<close> package makes
  the network host of a client; the \<^verbatim>\<open>wasm\<close> packages are the client for JavaScript.

  \<^bold>\<open>The theories\<close>, in the order of the program, with the files under \<^verbatim>\<open>src/\<close> that they model.

  \<^item> \<^verbatim>\<open>Prelude\<close>: results (\<^verbatim>\<open>Ok\<close>, \<^verbatim>\<open>Fail\<close>, \<^verbatim>\<open>Panic\<close>) and effects with a state that survives errors, machine words, the collections \<^verbatim>\<open>go_ok\<close> and \<^verbatim>\<open>keeps_intros\<close>. \<^verbatim>\<open>Go_Strings\<close>: the string functions used.
    \<^verbatim>\<open>Messages\<close>: the protobuf messages as records. \<^verbatim>\<open>Dag_Api\<close>: the DAG library as the parameter \<^verbatim>\<open>dag_lib\<close> with the laws \<^verbatim>\<open>dag_laws\<close> (reading what is there and what is missing, writing, keeping the rest); \<^verbatim>\<open>Ref_Dag\<close>: a concrete DAG that satisfies them.
  \<^item> \<^verbatim>\<open>Token_Names\<close>, \<^verbatim>\<open>Tree_Ledger\<close> (\<^verbatim>\<open>consensus/transactions.go\<close>, \<^verbatim>\<open>tree_ledger.go\<close>): paths, token names, every operation of \<^verbatim>\<open>TreeLedger\<close>. \<^verbatim>\<open>Ledger_Spec\<close>: the abstract ledger of a token and the locale \<^verbatim>\<open>token_ledger\<close>;
    \<^verbatim>\<open>Ledger_Refinement\<close>: the tree refines it, as a sublocale of \<^verbatim>\<open>dag_laws\<close>; \<^verbatim>\<open>Ledger_Runs\<close>, \<^verbatim>\<open>Ledger_Properties\<close>: histories of operations, conservation, refusals, frames.
    Nothing assumes that the token of an operation exists: the code does not check it, and a mint or a receive of a token that is not there makes one without a policy, if it succeeds.
  \<^item> \<^verbatim>\<open>Transactions\<close>, \<^verbatim>\<open>Transaction_Runs\<close> (\<^verbatim>\<open>consensus/transactions.go\<close>, \<^verbatim>\<open>signedtree.go\<close>): the seven transactors, payloads for a receiver and their reading; histories of transactions.
  \<^item> \<^verbatim>\<open>Ids\<close>, \<^verbatim>\<open>Blocks\<close> (\<^verbatim>\<open>consensus/ids.go\<close>, \<^verbatim>\<open>consensus.go\<close>): identifiers, signature maps, signing and checking of blocks, keys from passphrases.
  \<^item> \<^verbatim>\<open>Bls\<close>, \<^verbatim>\<open>Signatures\<close>, \<^verbatim>\<open>Signature_Laws\<close> (\<^verbatim>\<open>bls/bls.go\<close>, \<^verbatim>\<open>signatures/signature.go\<close>): keys, aggregation, validity; the pairing library is the parameter \<^verbatim>\<open>kyber\<close> with the laws \<^verbatim>\<open>bls_scheme\<close>.
    \<^verbatim>\<open>Notary_Group\<close> (\<^verbatim>\<open>gossip/types/notarygroup.go\<close>, \<^verbatim>\<open>signer.go\<close>, \<^verbatim>\<open>routableaddr.go\<close>): groups and quorum counts, in floating point as the code computes them, with an interpretation of \<^verbatim>\<open>quorum_rule\<close>.
  \<^item> \<^verbatim>\<open>Proofs\<close> (\<^verbatim>\<open>proof/proof.go\<close>): \<^verbatim>\<open>Verify\<close>, its soundness and completeness. \<^verbatim>\<open>Validators\<close>, \<^verbatim>\<open>Validator_Properties\<close>, \<^verbatim>\<open>Human_Config\<close> (\<^verbatim>\<open>gossip/types/validators.go\<close>, \<^verbatim>\<open>config.go\<close>, \<^verbatim>\<open>humanconfig.go\<close>): the block
    validators, their composition with the transactors, and configurations.
  \<^item> \<^verbatim>\<open>Rounds\<close>, \<^verbatim>\<open>Round_Subscriber\<close>, \<^verbatim>\<open>Subscriber_Laws\<close>, \<^verbatim>\<open>Subscriber_Properties\<close> (\<^verbatim>\<open>gossip/types/rounds.go\<close>, \<^verbatim>\<open>checkpoint.go\<close>, \<^verbatim>\<open>gossip/hamtwrapper\<close>, \<^verbatim>\<open>gossip/client/roundsubscriber.go\<close>): wrappers with their caches, handling of
    messages; the locale \<^verbatim>\<open>round_follower\<close> with the invariant of a subscriber. \<^verbatim>\<open>Ref_Rounds\<close>: concrete stores and encodings.
  \<^item> \<^verbatim>\<open>Store_Tracking\<close>, \<^verbatim>\<open>Block_Requests\<close> (\<^verbatim>\<open>reftracking.go\<close>, \<^verbatim>\<open>processblocks.go\<close>, \<^verbatim>\<open>consensus/signedtree.go\<close>): the tracking store and the making of requests; a request can be replayed from its own nodes.
  \<^item> \<^verbatim>\<open>Consensus_Types\<close> (\<^verbatim>\<open>consensus/errorcode.go\<close>, \<^verbatim>\<open>types.go\<close>, \<^verbatim>\<open>init\<close> of \<^verbatim>\<open>signatures/signature.go\<close>): coded errors and their text, the messages about tips, the default scope of conditions.
    \<^verbatim>\<open>Fixtures\<close> (\<^verbatim>\<open>gossip/testhelpers\<close>, \<^verbatim>\<open>testnotarygroup\<close>): the requests, keys and hosts that tests start from, and that they are valid.
  \<^item> \<^verbatim>\<open>Client\<close>, \<^verbatim>\<open>Client_Laws\<close>, \<^verbatim>\<open>Client_Config\<close>, \<^verbatim>\<open>Client_Properties\<close>, \<^verbatim>\<open>Genesis\<close> (\<^verbatim>\<open>gossip/client/client.go\<close>, \<^verbatim>\<open>config.go\<close>, \<^verbatim>\<open>notarygroups.go\<close>): all operations of the client over its subscriber, store and pubsub, and its construction. The relation \<^verbatim>\<open>follows\<close> is
    the life of a subscriber, messages and reads interleaved; the locales \<^verbatim>\<open>request_store\<close>, \<^verbatim>\<open>replay_lib\<close> and its extension \<^verbatim>\<open>genesis_lib\<close> are what the client asks of its libraries, for nodes that stores hold; the client's validators may exceed those of the tree by some that accept the block, as the default configuration adds the one for proofs. Tips are confirmed by a quorum, what one client plays another gets, the first block of an object
    as well as later ones, what is played is proved. \<^verbatim>\<open>Subscriptions\<close>: what a subscription to rounds or to a request hears between subscribing and unsubscribing.
  \<^item> \<^verbatim>\<open>Waiting\<close> (\<^verbatim>\<open>Send\<close> and \<^verbatim>\<open>WaitForFirstRound\<close> of \<^verbatim>\<open>client.go\<close>, locks and closures of \<^verbatim>\<open>roundsubscriber.go\<close>): the two goroutines of a wait as a step relation, for either kind of subscription and any capacity of the channel; its invariant, its one stuck
    state, and from where it returns.
  \<^item> \<^verbatim>\<open>Host_Config\<close>, \<^verbatim>\<open>Bootstrap\<close>, \<^verbatim>\<open>Discovery\<close>, \<^verbatim>\<open>Host_Streams\<close>, \<^verbatim>\<open>Host_Services\<close> (\<^verbatim>\<open>p2p/config.go\<close>, \<^verbatim>\<open>p2p.go\<close>, \<^verbatim>\<open>bootstrap.go\<close>, \<^verbatim>\<open>discovery.go\<close>, \<^verbatim>\<open>bitswap.go\<close>, \<^verbatim>\<open>standalone\<close>, \<^verbatim>\<open>pubsubwrapper\<close>): options, keys and the making of hosts, dialling, discoverers and \<^verbatim>\<open>waitForNumber\<close> as a step relation, streams, the start hook of a client, block exchange, forwarders, and the repetition of advertising.
  \<^item> \<^verbatim>\<open>Js_Then\<close>, \<^verbatim>\<open>Js_Bridge\<close>, \<^verbatim>\<open>Js_Client\<close>, \<^verbatim>\<open>Js_Client_Properties\<close>, \<^verbatim>\<open>Js_Library\<close> (\<^verbatim>\<open>wasm/then\<close>, \<^verbatim>\<open>wasm/helpers\<close>, \<^verbatim>\<open>wasm/jslibs\<close>, \<^verbatim>\<open>wasm/jsstore\<close>, \<^verbatim>\<open>wasm/jspubsub\<close>, \<^verbatim>\<open>wasm/jsclient\<close>, \<^verbatim>\<open>wasm/main.go\<close>): promises, the wait for a promise as a step relation, the store of the browser as a
    content-addressed store (the locale \<^verbatim>\<open>js_blocks\<close> says what a block service keeps; puts may be refused, go unanswered, and data may not decode, and where none of this happens the store is a \<^verbatim>\<open>content_store\<close>), the values of JavaScript with their conversions, and the exported functions. \<^verbatim>\<open>Tracing\<close> (\<^verbatim>\<open>tracing/interfaces.go\<close>, \<^verbatim>\<open>tracing.go\<close>): the contexts of traces, and the life of a tracing service.

  \<^bold>\<open>Modelling.\<close> A Go function is a function with the source's name, prefixed or suffixed where the name is taken; a struct is a record; an error is a value of \<^verbatim>\<open>goerr\<close> with its format string and
  wrapped errors; a panic is an outcome of its own. Code that changes a state is an effect, which returns the state reached also when it fails. \<^verbatim>\<open>uint64\<close> and \<^verbatim>\<open>uint32\<close> are words that wrap. The order in which Go visits
  a map is an argument (\<^verbatim>\<open>visit\<close>), so what holds for all of them holds for every run. A \<^verbatim>\<open>select\<close> is given by the case that it takes, except in \<^verbatim>\<open>Waiting\<close>, \<^verbatim>\<open>Discovery\<close> and \<^verbatim>\<open>Js_Bridge\<close>, where goroutines interleave step by step.

  \<^bold>\<open>Libraries.\<close> Code that is not in the repository is a parameter: a record of functions (\<^verbatim>\<open>dag_lib\<close>, \<^verbatim>\<open>txn_lib\<close>, \<^verbatim>\<open>crypto_lib\<close>, \<^verbatim>\<open>kyber\<close>, \<^verbatim>\<open>round_lib\<close>, \<^verbatim>\<open>chain_lib\<close>, \<^verbatim>\<open>client_lib\<close>, \<^verbatim>\<open>host_lib\<close>, \<^verbatim>\<open>js_lib\<close> and others). What the code relies on is
  a locale with the documented laws of that library, and every such locale is interpreted on concrete functions, on which the witnesses compute. Chain trees reach their store through a program of store calls
  (\<^verbatim>\<open>store_prog\<close>), so that what they may do with it is exactly \<^verbatim>\<open>Get\<close> and \<^verbatim>\<open>Add\<close>.

  \<^bold>\<open>Bounds.\<close> Nothing uses fuel: loops of the code run over lists, or over the messages, ticks and events they are handed, and are structural. The subscriber's and the bootstrapper's endless loops are modelled over any finite sequence
  of messages or ticks; statements hold for all of them. \<^verbatim>\<open>QuorumCount\<close> is exact for groups up to \<^verbatim>\<open>2^51\<close> members, the range in which the floating-point result is the exact ceiling.

  \<^bold>\<open>What fails.\<close> The theorems also fix where the code does not do what it means to: the cap on minting wraps around (\<^verbatim>\<open>mint_cap_wraps\<close>), the id of a received send is not checked (\<^verbatim>\<open>receive_id_unchecked\<close>), which of several sends is credited
  depends on the order of a map (\<^verbatim>\<open>other_send_credited\<close>), the height of a confirmation is not signed (\<^verbatim>\<open>height_not_signed\<close>), a burn needs the configured amount where the comment says any positive one (\<^verbatim>\<open>burn_exact\<close>), a round that cannot be fetched is lost (\<^verbatim>\<open>unfetched_round_is_lost\<close>), a wait can hang for ever (\<^verbatim>\<open>wait_hangs\<close>), advertising ends with one error and outlives its stop
  (\<^verbatim>\<open>advertising_ends\<close>, \<^verbatim>\<open>retry_outlives_stop\<close>), a tracer that failed to start cannot be stopped (\<^verbatim>\<open>jaeger_lifecycle\<close>), and
  channels are closed under waiting senders (\<^verbatim>\<open>discovery_wait\<close>, \<^verbatim>\<open>js_bridge\<close>).

  \<^bold>\<open>Not modelled.\<close> Registrations of types and block decoders with encoders (the \<^verbatim>\<open>init\<close> functions of \<^verbatim>\<open>consensus\<close> and \<^verbatim>\<open>p2p/bitswap.go\<close>), which only tell libraries what to decode; the texts of the two built-in group
  configurations (\<^verbatim>\<open>gossip/client/notarygroups.go\<close>), which are parameters of the client's defaults; \<^verbatim>\<open>setLogLevel\<close>, \<^verbatim>\<open>exit\<close> and the start of \<^verbatim>\<open>wasm/main.go\<close>; the empty tracing functions of the browser build. Logging has no effect on results and is left
  out, and so are time-outs as durations: a timer is an event that may happen.
\<close>

end
